(* ===== verification/Prelude.thy ===== *)
theory Prelude
  imports Main "HOL-Library.AList"
begin

text \<open>
  What every component of the development shares: the exceptions of the Python code as a
  datatype, results as sums, dictionaries as association lists in insertion order, and the
  string operations of the Python standard library that the code calls.

  A Python \<open>str\<close> is a \<^typ>\<open>string\<close> holding its UTF-8 encoding. Equality, concatenation,
  prefix and substring tests agree with Python's on that encoding. White space is the ASCII
  white space, which is what the procfs files, the kernel release string and the command line
  arguments that the code splits or strips consist of.
\<close>

section \<open>Collections of the development\<close>

named_theorems py_str "evaluation of the Python string operations"
named_theorems invar_simps "unfolding of the component invariants"

section \<open>Exceptions and results\<close>

text \<open>
  One constructor per exception class that the modelled code raises or catches. The classes
  with a payload carry what a handler or an exit status depends on.
\<close>

datatype exn =
    IndexError
  | KeyError
  | ValueError
  | TypeError
  | OSError
  | TimeoutExpired
  | AustinError
  | ProcessLookupError
  | AssertionError
  | OtherException
  | PyRuntimeError string
  | BackendUnavailableError string
  | CoreDetectorError string
  | BccDetectorError string
  | KeyboardInterrupt
  | SystemExit int

type_synonym 'a result = "exn + 'a"

text \<open>\<open>except Exception\<close> catches everything but the two classes that derive from
  \<open>BaseException\<close> directly.\<close>

fun is_Exception :: "exn \<Rightarrow> bool" where
  "is_Exception KeyboardInterrupt = False"
| "is_Exception (SystemExit _) = False"
| "is_Exception _ = True"

text \<open>\<open>ProcessLookupError\<close> is a subclass of \<open>OSError\<close>.\<close>

fun is_OSError :: "exn \<Rightarrow> bool" where
  "is_OSError OSError = True"
| "is_OSError ProcessLookupError = True"
| "is_OSError _ = False"

fun is_RuntimeError :: "exn \<Rightarrow> bool" where
  "is_RuntimeError (PyRuntimeError _) = True"
| "is_RuntimeError (BackendUnavailableError _) = True"
| "is_RuntimeError (CoreDetectorError _) = True"
| "is_RuntimeError (BccDetectorError _) = True"
| "is_RuntimeError _ = False"

definition bind_result :: "'a result \<Rightarrow> ('a \<Rightarrow> 'b result) \<Rightarrow> 'b result" where
  "bind_result r f = (case r of Inl e \<Rightarrow> Inl e | Inr a \<Rightarrow> f a)"

lemma bind_result_simps [simp]:
  "bind_result (Inl e) f = Inl e"
  "bind_result (Inr a) f = f a"
  by (simp_all add: bind_result_def)

lemma bind_result_Inr_iff:
  "bind_result r f = Inr b \<longleftrightarrow> (\<exists>a. r = Inr a \<and> f a = Inr b)"
  by (cases r) auto

text \<open>\<open>xs[i]\<close>: index \<open>-k\<close> is the \<open>k\<close>-th element from the end.\<close>

definition py_index :: "'a list \<Rightarrow> int \<Rightarrow> 'a result" where
  "py_index xs i =
     (if 0 \<le> i
      then (if nat i < length xs then Inr (xs ! nat i) else Inl IndexError)
      else (if nat (- i) \<le> length xs then Inr (xs ! (length xs - nat (- i))) else Inl IndexError))"

lemma py_index_ok:
  "0 \<le> i \<Longrightarrow> i < int (length xs) \<Longrightarrow> py_index xs i = Inr (xs ! nat i)"
  by (simp add: py_index_def nat_less_iff)

lemma py_index_last:
  "xs \<noteq> [] \<Longrightarrow> py_index xs (-1) = Inr (last xs)"
  by (cases xs) (simp_all add: py_index_def last_conv_nth)

lemma py_index_Nil [simp]: "py_index [] i = Inl IndexError"
  by (simp add: py_index_def)

section \<open>Dictionaries\<close>

text \<open>
  A Python dictionary keeps its keys in insertion order, and assigning to an existing key
  leaves its position unchanged: \<^const>\<open>AList.update\<close> on an association list with distinct
  keys.
\<close>

type_synonym ('k, 'v) dict = "('k \<times> 'v) list"

definition dict_set :: "'k \<Rightarrow> 'v \<Rightarrow> ('k, 'v) dict \<Rightarrow> ('k, 'v) dict" where
  "dict_set k v d = AList.update k v d"

definition dict_get :: "('k, 'v) dict \<Rightarrow> 'k \<Rightarrow> 'v option" where
  "dict_get d k = map_of d k"

definition dict_get_default :: "('k, 'v) dict \<Rightarrow> 'k \<Rightarrow> 'v \<Rightarrow> 'v" where
  "dict_get_default d k v = (case map_of d k of None \<Rightarrow> v | Some w \<Rightarrow> w)"

definition dict_keys :: "('k, 'v) dict \<Rightarrow> 'k list" where
  "dict_keys d = map fst d"

definition dict_values :: "('k, 'v) dict \<Rightarrow> 'v list" where
  "dict_values d = map snd d"

text \<open>\<open>d.setdefault(k, v)\<close>: the key is added when it is absent.\<close>

definition dict_setdefault :: "'k \<Rightarrow> 'v \<Rightarrow> ('k, 'v) dict \<Rightarrow> ('k, 'v) dict" where
  "dict_setdefault k v d = (if map_of d k = None then dict_set k v d else d)"

lemma dict_get_set [simp]:
  "dict_get (dict_set k v d) k' = (if k = k' then Some v else dict_get d k')"
  by (simp add: dict_get_def dict_set_def update_conv')

lemma dict_keys_set:
  "set (dict_keys (dict_set k v d)) = insert k (set (dict_keys d))"
  by (simp add: dict_keys_def dict_set_def dom_update)

lemma distinct_dict_set:
  "distinct (dict_keys d) \<Longrightarrow> distinct (dict_keys (dict_set k v d))"
  by (simp add: dict_keys_def dict_set_def distinct_update)

lemma distinct_dict_setdefault:
  "distinct (dict_keys d) \<Longrightarrow> distinct (dict_keys (dict_setdefault k v d))"
  by (simp add: dict_setdefault_def distinct_dict_set)

lemma dict_get_None_iff: "dict_get d k = None \<longleftrightarrow> k \<notin> set (dict_keys d)"
  by (simp add: dict_get_def dict_keys_def map_of_eq_None_iff)

lemma dict_set_absent:
  "k \<notin> set (dict_keys d) \<Longrightarrow> dict_set k v d = d @ [(k, v)]"
  unfolding dict_set_def dict_keys_def by (induction d) auto

section \<open>Sorted lists\<close>

lemma sorted_hd_Min: "sorted xs \<Longrightarrow> xs \<noteq> [] \<Longrightarrow> hd xs = Min (set xs)"
  by (cases xs) (auto intro!: Min_eqI [symmetric])

lemma sorted_last_Max: "sorted xs \<Longrightarrow> xs \<noteq> [] \<Longrightarrow> last xs = Max (set xs)"
  by (cases xs rule: rev_cases) (auto simp: sorted_append intro!: Max_eqI [symmetric])

section \<open>Lists read by index\<close>

lemma in_set_tlD: "x \<in> set (tl xs) \<Longrightarrow> x \<in> set xs"
  by (cases xs) simp_all

lemma filter_upt_range: "n \<le> k \<Longrightarrow> filter (\<lambda>i. m \<le> i \<and> i < n) [0..<k] = [m..<n]"
proof (rule sorted_distinct_set_unique)
  assume "n \<le> k"
  then show "set (filter (\<lambda>i. m \<le> i \<and> i < n) [0..<k]) = set [m..<n]"
    by auto
qed (simp_all add: sorted_wrt_filter)

text \<open>Reading the consecutive indices at which a predicate holds is filtering by it.\<close>

lemma map_nth_filter:
  assumes "n \<le> length xs" and "\<And>i. i < length xs \<Longrightarrow> P (xs ! i) \<longleftrightarrow> m \<le> i \<and> i < n"
  shows "map (\<lambda>i. xs ! i) [m..<n] = filter P xs"
proof -
  have "filter P xs = filter P (map (\<lambda>i. xs ! i) [0..<length xs])"
    by (simp add: map_nth)
  also have "\<dots> = map (\<lambda>i. xs ! i) (filter (\<lambda>i. P (xs ! i)) [0..<length xs])"
    by (simp add: filter_map o_def)
  also have "filter (\<lambda>i. P (xs ! i)) [0..<length xs] = filter (\<lambda>i. m \<le> i \<and> i < n) [0..<length xs]"
    using assms(2) by (intro filter_cong) simp_all
  also have "\<dots> = [m..<n]"
    using assms(1) by (rule filter_upt_range)
  finally show ?thesis ..
qed

end
