(* ===== verification/Sha256.thy ===== *)
theory Sha256
  imports Prelude "HOL-Library.Word"
begin

text \<open>
  SHA-256 as \<open>hashlib.sha256\<close> computes it (FIPS 180-4), on 32-bit words: the reporter names a
  blocking call site by the first twelve hexadecimal digits of the digest of its frames.
  The theory \<open>Sha256_Vector\<close> evaluates a test vector.
\<close>

unbundle bit_operations_syntax

type_synonym sha_word = "32 word"

text \<open>The constants of the standard, two words in one number.\<close>

definition halves :: "int list \<Rightarrow> sha_word list" where
  "halves ns = concat (map (\<lambda>n. [word_of_int (n div 2 ^ 32), word_of_int n]) ns)"

definition round_constants :: "sha_word list" where
  "round_constants = halves
     [0x428a2f9871374491, 0xb5c0fbcfe9b5dba5, 0x3956c25b59f111f1, 0x923f82a4ab1c5ed5,
      0xd807aa9812835b01, 0x243185be550c7dc3, 0x72be5d7480deb1fe, 0x9bdc06a7c19bf174,
      0xe49b69c1efbe4786, 0x0fc19dc6240ca1cc, 0x2de92c6f4a7484aa, 0x5cb0a9dc76f988da,
      0x983e5152a831c66d, 0xb00327c8bf597fc7, 0xc6e00bf3d5a79147, 0x06ca635114292967,
      0x27b70a852e1b2138, 0x4d2c6dfc53380d13, 0x650a7354766a0abb, 0x81c2c92e92722c85,
      0xa2bfe8a1a81a664b, 0xc24b8b70c76c51a3, 0xd192e819d6990624, 0xf40e3585106aa070,
      0x19a4c1161e376c08, 0x2748774c34b0bcb5, 0x391c0cb34ed8aa4a, 0x5b9cca4f682e6ff3,
      0x748f82ee78a5636f, 0x84c878148cc70208, 0x90befffaa4506ceb, 0xbef9a3f7c67178f2]"

definition initial_hash :: "sha_word list" where
  "initial_hash = halves
     [0x6a09e667bb67ae85, 0x3c6ef372a54ff53a, 0x510e527f9b05688c, 0x1f83d9ab5be0cd19]"

definition rotr :: "nat \<Rightarrow> sha_word \<Rightarrow> sha_word" where
  "rotr n x = drop_bit n x OR push_bit (32 - n) x"

definition small_sigma0 :: "sha_word \<Rightarrow> sha_word" where
  "small_sigma0 x = rotr 7 x XOR rotr 18 x XOR drop_bit 3 x"

definition small_sigma1 :: "sha_word \<Rightarrow> sha_word" where
  "small_sigma1 x = rotr 17 x XOR rotr 19 x XOR drop_bit 10 x"

definition big_sigma0 :: "sha_word \<Rightarrow> sha_word" where
  "big_sigma0 x = rotr 2 x XOR rotr 13 x XOR rotr 22 x"

definition big_sigma1 :: "sha_word \<Rightarrow> sha_word" where
  "big_sigma1 x = rotr 6 x XOR rotr 11 x XOR rotr 25 x"

definition choose_bits :: "sha_word \<Rightarrow> sha_word \<Rightarrow> sha_word \<Rightarrow> sha_word" where
  "choose_bits e f g = (e AND f) XOR (NOT e AND g)"

definition majority :: "sha_word \<Rightarrow> sha_word \<Rightarrow> sha_word \<Rightarrow> sha_word" where
  "majority a b c = (a AND b) XOR (a AND c) XOR (b AND c)"

text \<open>The message schedule: 48 words are appended to the 16 of the block.\<close>

fun extend_schedule :: "nat \<Rightarrow> sha_word list \<Rightarrow> sha_word list" where
  "extend_schedule 0 ws = ws"
| "extend_schedule (Suc k) ws =
     (let n = length ws
      in extend_schedule k (ws @ [small_sigma1 (ws ! (n - 2)) + ws ! (n - 7)
                                  + small_sigma0 (ws ! (n - 15)) + ws ! (n - 16)]))"

fun sha_round :: "sha_word list \<Rightarrow> sha_word \<times> sha_word \<Rightarrow> sha_word list" where
  "sha_round [a, b, c, d, e, f, g, h] (k, w) =
     (let t1 = h + big_sigma1 e + choose_bits e f g + k + w;
          t2 = big_sigma0 a + majority a b c
      in [t1 + t2, a, b, c, d + t1, e, f, g])"
| "sha_round st _ = st"

definition compress :: "sha_word list \<Rightarrow> sha_word list \<Rightarrow> sha_word list" where
  "compress st block =
     map2 (+) st (foldl sha_round st (zip round_constants (extend_schedule 48 block)))"

text \<open>Padding: a one bit, zeros, and the length in bits as 64 big-endian bits.\<close>

definition sha_pad :: "sha_word list \<Rightarrow> sha_word list" where
  "sha_pad bytes =
     (let bits = 8 * word_of_int (int (length bytes)) :: 64 word
      in bytes @ [128] @ replicate ((119 - length bytes mod 64) mod 64) 0
         @ map (\<lambda>k. ucast (drop_bit k bits) AND 255) [56, 48, 40, 32, 24, 16, 8, 0])"

fun to_words :: "sha_word list \<Rightarrow> sha_word list" where
  "to_words (a # b # c # d # rest) =
     (push_bit 24 a OR push_bit 16 b OR push_bit 8 c OR d) # to_words rest"
| "to_words _ = []"

function sha_blocks :: "sha_word list \<Rightarrow> sha_word list \<Rightarrow> sha_word list" where
  "sha_blocks st ws = (if ws = [] then st else sha_blocks (compress st (take 16 ws)) (drop 16 ws))"
  by pat_completeness auto
termination
  by (relation "measure (\<lambda>(st, ws). length ws)") auto

declare sha_blocks.simps [simp del]

definition hex_digit :: "sha_word \<Rightarrow> char" where
  "hex_digit d = char_of (if d < 10 then 48 + uint d else 87 + uint d)"

definition hex_word :: "sha_word \<Rightarrow> string" where
  "hex_word w = map (\<lambda>k. hex_digit (drop_bit k w AND 15)) [28, 24, 20, 16, 12, 8, 4, 0]"

definition sha256_hexdigest :: "string \<Rightarrow> string" where
  "sha256_hexdigest s =
     concat (map hex_word
       (sha_blocks initial_hash (to_words (sha_pad (map (\<lambda>c. word_of_int (of_char c)) s)))))"

lemma length_hex_word [simp]: "length (hex_word w) = 8"
  by (simp add: hex_word_def)

end
