(* ===== verification/Sha256_Vector.thy ===== *)
theory Sha256_Vector
  imports Sha256
begin

text \<open>
  A test vector of \<^theory_text>\<open>sha256_hexdigest\<close>, evaluated in the kernel: the fingerprint of a blocking event
  without a Python stack. It takes the simplifier about two minutes, so it has a theory of its own.
\<close>

lemma sha256_test_vector:
  "take 12 (sha256_hexdigest ''no-python-stack'') = ''6e4fec8c1375''"
  by code_simp

end
