(* ===== verification/Md5.thy ===== *)
theory Md5
  imports Sha256
begin

text \<open>
  MD5 as \<open>hashlib.md5\<close> computes it (RFC 1321), on 32-bit words in little-endian order: one of the
  demonstration servers names a payload by it.
\<close>

text \<open>The integer parts of \<open>2 ^ 32 * abs (sin i)\<close> for \<open>i\<close> from 1 to 64, two words in one number.\<close>

definition md5_constants :: "sha_word list" where
  "md5_constants = halves
     [0xd76aa478e8c7b756, 0x242070dbc1bdceee, 0xf57c0faf4787c62a, 0xa8304613fd469501,
      0x698098d88b44f7af, 0xffff5bb1895cd7be, 0x6b901122fd987193, 0xa679438e49b40821,
      0xf61e2562c040b340, 0x265e5a51e9b6c7aa, 0xd62f105d02441453, 0xd8a1e681e7d3fbc8,
      0x21e1cde6c33707d6, 0xf4d50d87455a14ed, 0xa9e3e905fcefa3f8, 0x676f02d98d2a4c8a,
      0xfffa39428771f681, 0x6d9d6122fde5380c, 0xa4beea444bdecfa9, 0xf6bb4b60bebfbc70,
      0x289b7ec6eaa127fa, 0xd4ef308504881d05, 0xd9d4d039e6db99e5, 0x1fa27cf8c4ac5665,
      0xf4292244432aff97, 0xab9423a7fc93a039, 0x655b59c38f0ccc92, 0xffeff47d85845dd1,
      0x6fa87e4ffe2ce6e0, 0xa30143144e0811a1, 0xf7537e82bd3af235, 0x2ad7d2bbeb86d391]"

definition md5_shifts :: "nat list" where
  "md5_shifts = concat (map (\<lambda>row. concat (replicate 4 row)) [[7, 12, 17, 22], [5, 9, 14, 20], [4, 11, 16, 23], [6, 10, 15, 21]])"

definition rotl :: "nat \<Rightarrow> sha_word \<Rightarrow> sha_word" where
  "rotl n x = push_bit n x OR drop_bit (32 - n) x"

text \<open>The function and the index of the message word of a step.\<close>

definition md5_mix :: "nat \<Rightarrow> sha_word \<Rightarrow> sha_word \<Rightarrow> sha_word \<Rightarrow> sha_word" where
  "md5_mix i b c d =
     (if i < 16 then (b AND c) OR (NOT b AND d)
      else if i < 32 then (d AND b) OR (NOT d AND c)
      else if i < 48 then b XOR c XOR d
      else c XOR (b OR NOT d))"

definition md5_word :: "nat \<Rightarrow> nat" where
  "md5_word i =
     (if i < 16 then i else if i < 32 then (5 * i + 1) mod 16 else if i < 48 then (3 * i + 5) mod 16 else 7 * i mod 16)"

fun md5_step :: "sha_word list \<Rightarrow> sha_word list \<Rightarrow> nat \<times> sha_word \<times> nat \<Rightarrow> sha_word list" where
  "md5_step block [a, b, c, d] (i, k, s) =
     [d, b + rotl s (a + md5_mix i b c d + k + block ! md5_word i), b, c]"
| "md5_step block st _ = st"

definition md5_compress :: "sha_word list \<Rightarrow> sha_word list \<Rightarrow> sha_word list" where
  "md5_compress st block = map2 (+) st (foldl (md5_step block) st (zip [0..<64] (zip md5_constants md5_shifts)))"

text \<open>Padding as for SHA-256, but with the length in little-endian order.\<close>

definition md5_pad :: "sha_word list \<Rightarrow> sha_word list" where
  "md5_pad bytes =
     (let bits = 8 * word_of_int (int (length bytes)) :: 64 word
      in bytes @ [128] @ replicate ((119 - length bytes mod 64) mod 64) 0
         @ map (\<lambda>k. ucast (drop_bit k bits) AND 255) [0, 8, 16, 24, 32, 40, 48, 56])"

fun little_words :: "sha_word list \<Rightarrow> sha_word list" where
  "little_words (a # b # c # d # rest) =
     (push_bit 24 d OR push_bit 16 c OR push_bit 8 b OR a) # little_words rest"
| "little_words _ = []"

function md5_blocks :: "sha_word list \<Rightarrow> sha_word list \<Rightarrow> sha_word list" where
  "md5_blocks st ws = (if ws = [] then st else md5_blocks (md5_compress st (take 16 ws)) (drop 16 ws))"
  by pat_completeness auto
termination
  by (relation "measure (\<lambda>(st, ws). length ws)") auto

declare md5_blocks.simps [simp del]

definition little_hex :: "sha_word \<Rightarrow> string" where
  "little_hex w = map (\<lambda>k. hex_digit (drop_bit k w AND 15)) [4, 0, 12, 8, 20, 16, 28, 24]"

definition md5_hexdigest :: "string \<Rightarrow> string" where
  "md5_hexdigest s =
     concat (map little_hex
       (md5_blocks (halves [0x67452301efcdab89, 0x98badcfe10325476])
         (little_words (md5_pad (map (\<lambda>c. word_of_int (of_char c)) s)))))"

end
