(* ===== verification/Md5_Vector.thy ===== *)
theory Md5_Vector
  imports Md5
begin

text \<open>A test vector of RFC 1321, evaluated in the kernel.\<close>

lemma md5_test_vector: "md5_hexdigest ''abc'' = ''900150983cd24fb0d6963f7d28e17f72''"
  by code_simp

end
