(* ===== verification/Probes.thy ===== *)
theory Probes
  imports Prelude "HOL-Library.Word"
begin

text \<open>
  The probe pair of \<open>_EPOLL_PROBE_TEMPLATE\<close> in \<open>blocksnoop/detector.py\<close>, as it runs in the kernel:
  64-bit time stamps with wrapping subtraction, 32-bit ids, and the hash map \<open>callback_start\<close> from
  threads to the time their callbacks began. All epoll variants share the map and these two bodies.
  The clock, the namespace helper and the current task are the context of a hit.
\<close>

type_synonym u32 = "32 word"
type_synonym u64 = "64 word"

text \<open>The constants substituted into the template.\<close>

record probe_params =
  pp_use_ns_pid :: bool
  pp_target_tgid :: u32
  pp_target_tid :: u32
  pp_threshold_ns :: u64

text \<open>What the helpers answer in one hit: \<open>hc_nsdata\<close> is tgid and pid in the namespace (\<open>None\<close>: the
  helper fails), \<open>hc_pid_tgid\<close> the combined id of the host.\<close>

record hit_context =
  hc_nsdata :: "(u32 \<times> u32) option"
  hc_pid_tgid :: u64
  hc_ktime :: u64

record bpf_event =
  be_start_ns :: u64
  be_end_ns :: u64
  be_pid :: u32
  be_tid :: u32

record probe_state =
  callback_start :: "u32 \<rightharpoonup> u64"
  submitted :: "bpf_event list"

definition current_task :: "probe_params \<Rightarrow> hit_context \<Rightarrow> (u32 \<times> u32) option" where
  "current_task p c =
     (if pp_use_ns_pid p then hc_nsdata c
      else Some (ucast (drop_bit 32 (hc_pid_tgid c)), ucast (hc_pid_tgid c)))"

definition is_target :: "probe_params \<Rightarrow> u32 \<times> u32 \<Rightarrow> bool" where
  "is_target p task \<longleftrightarrow> \<not> (fst task \<noteq> pp_target_tgid p \<or> snd task \<noteq> pp_target_tid p)"

text \<open>An epoll call returns: the callbacks are about to run.\<close>

definition sys_exit :: "probe_params \<Rightarrow> hit_context \<Rightarrow> probe_state \<Rightarrow> probe_state" where
  "sys_exit p c s =
     (case current_task p c of
        None \<Rightarrow> s
      | Some (tgid, tid) \<Rightarrow>
          if \<not> is_target p (tgid, tid) then s
          else s\<lparr>callback_start := (callback_start s)(tid \<mapsto> hc_ktime c)\<rparr>)"

text \<open>An epoll call is entered: the callbacks are done.\<close>

definition sys_enter :: "probe_params \<Rightarrow> hit_context \<Rightarrow> probe_state \<Rightarrow> probe_state" where
  "sys_enter p c s =
     (case current_task p c of
        None \<Rightarrow> s
      | Some (tgid, tid) \<Rightarrow>
          if \<not> is_target p (tgid, tid) then s
          else case callback_start s tid of
                 None \<Rightarrow> s
               | Some ts \<Rightarrow>
                   let delta = hc_ktime c - ts;
                       s = (if pp_threshold_ns p < delta
                            then s\<lparr>submitted := submitted s @
                              [\<lparr>be_start_ns = ts, be_end_ns = hc_ktime c, be_pid = tgid, be_tid = tid\<rparr>]\<rparr>
                            else s)
                   in s\<lparr>callback_start := (callback_start s)(tid := None)\<rparr>)"

datatype probe = SysExit | SysEnter

definition hit :: "probe_params \<Rightarrow> probe \<times> hit_context \<Rightarrow> probe_state \<Rightarrow> probe_state" where
  "hit p h s = (case fst h of SysExit \<Rightarrow> sys_exit p (snd h) s | SysEnter \<Rightarrow> sys_enter p (snd h) s)"

definition run_probes :: "probe_params \<Rightarrow> (probe \<times> hit_context) list \<Rightarrow> probe_state" where
  "run_probes p hits = fold (hit p) hits \<lparr>callback_start = Map.empty, submitted = []\<rparr>"

section \<open>What the probes should report\<close>

text \<open>The callback phases of the target: from the last return of an epoll call to the next entry into
  one. \<open>phases\<close> lists them as pairs of unbounded times.\<close>

definition of_target :: "probe_params \<Rightarrow> probe \<times> hit_context \<Rightarrow> bool" where
  "of_target p h \<longleftrightarrow> (\<exists>task. current_task p (snd h) = Some task \<and> is_target p task)"

fun phases :: "nat option \<Rightarrow> (probe \<times> nat) list \<Rightarrow> (nat \<times> nat) list" where
  "phases open [] = []"
| "phases open ((SysExit, t) # hs) = phases (Some t) hs"
| "phases open ((SysEnter, t) # hs) =
     (case open of None \<Rightarrow> phases None hs | Some t0 \<Rightarrow> (t0, t) # phases None hs)"

fun phase_open :: "nat option \<Rightarrow> (probe \<times> nat) list \<Rightarrow> nat option" where
  "phase_open open [] = open"
| "phase_open open ((SysExit, t) # hs) = phase_open (Some t) hs"
| "phase_open open ((SysEnter, t) # hs) = phase_open None hs"

definition target_times :: "probe_params \<Rightarrow> (probe \<times> hit_context) list \<Rightarrow> (probe \<times> nat) list" where
  "target_times p hits = map (\<lambda>h. (fst h, unat (hc_ktime (snd h)))) (filter (of_target p) hits)"

definition event_of_phase :: "probe_params \<Rightarrow> nat \<times> nat \<Rightarrow> bpf_event" where
  "event_of_phase p ph = \<lparr>be_start_ns = of_nat (fst ph), be_end_ns = of_nat (snd ph),
     be_pid = pp_target_tgid p, be_tid = pp_target_tid p\<rparr>"

definition reported :: "probe_params \<Rightarrow> (nat \<times> nat) list \<Rightarrow> bpf_event list" where
  "reported p phs = map (event_of_phase p) (filter (\<lambda>ph. unat (pp_threshold_ns p) < snd ph - fst ph) phs)"

text \<open>The state that stands for an open phase.\<close>

definition state_of :: "probe_params \<Rightarrow> nat option \<Rightarrow> bpf_event list \<Rightarrow> probe_state" where
  "state_of p open evs =
     \<lparr>callback_start = (case open of None \<Rightarrow> Map.empty | Some t \<Rightarrow> [pp_target_tid p \<mapsto> of_nat t]), submitted = evs\<rparr>"

lemma is_target_eq: "is_target p task \<longleftrightarrow> task = (pp_target_tgid p, pp_target_tid p)"
  by (cases task) (simp add: is_target_def)

lemma hit_other: "\<not> of_target p h \<Longrightarrow> hit p h s = s"
  by (cases h; cases "fst h") (auto simp: hit_def sys_exit_def sys_enter_def of_target_def split: option.splits)

lemma hit_exit:
  "of_target p (SysExit, c) \<Longrightarrow> hit p (SysExit, c) (state_of p open evs) = state_of p (Some (unat (hc_ktime c))) evs"
  by (cases "open") (auto simp: hit_def sys_exit_def of_target_def is_target_eq state_of_def)

lemma threshold_iff:
  fixes thr now :: u64
  assumes "t0 \<le> unat now"
  shows "thr < now - of_nat t0 \<longleftrightarrow> unat thr < unat now - t0"
proof -
  have "unat now < 2 ^ LENGTH(64)"
    by (rule unsigned_less)
  with assms have t0: "t0 < 2 ^ 64"
    by simp
  then have "unat (of_nat t0 :: u64) = t0"
    by (simp add: unsigned_of_nat take_bit_nat_eq_self)
  with assms have "unat (now - of_nat t0) = unat now - t0"
    by (subst unat_sub) (simp_all add: word_le_nat_alt)
  then show ?thesis
    by (simp add: word_less_nat_alt)
qed

lemma hit_enter:
  assumes "of_target p (SysEnter, c)" and "\<And>t. open = Some t \<Longrightarrow> t \<le> unat (hc_ktime c)"
  shows "hit p (SysEnter, c) (state_of p open evs) =
    state_of p None (evs @ reported p (case open of None \<Rightarrow> [] | Some t \<Rightarrow> [(t, unat (hc_ktime c))]))"
proof (cases "open")
  case None
  with assms(1) show ?thesis
    by (auto simp: hit_def sys_enter_def of_target_def is_target_eq state_of_def reported_def)
next
  case (Some t)
  with assms threshold_iff [of t "hc_ktime c" "pp_threshold_ns p"] show ?thesis
    by (auto simp: hit_def sys_enter_def of_target_def is_target_eq state_of_def reported_def event_of_phase_def
        Let_def)
qed

text \<open>The times of a list of hits do not decrease, and start after an open phase.\<close>

definition ordered :: "nat option \<Rightarrow> (probe \<times> nat) list \<Rightarrow> bool" where
  "ordered open hs \<longleftrightarrow> sorted ((case open of None \<Rightarrow> [] | Some t \<Rightarrow> [t]) @ map snd hs)"

lemma fold_hits:
  assumes "ordered open (target_times p hits)"
  shows "fold (hit p) hits (state_of p open evs) =
    state_of p (phase_open open (target_times p hits)) (evs @ reported p (phases open (target_times p hits)))"
  using assms
proof (induction hits arbitrary: "open" evs)
  case Nil
  then show ?case by (simp add: target_times_def reported_def)
next
  case (Cons h hits)
  obtain pr c where h: "h = (pr, c)"
    by fastforce
  show ?case
  proof (cases "of_target p h")
    case False
    then have "target_times p (h # hits) = target_times p hits"
      by (simp add: target_times_def)
    with Cons False show ?thesis
      by (simp add: hit_other)
  next
    case True
    then have tt: "target_times p (h # hits) = (pr, unat (hc_ktime c)) # target_times p hits"
      by (simp add: target_times_def h)
    show ?thesis
    proof (cases pr)
      case SysExit
      have "ordered (Some (unat (hc_ktime c))) (target_times p hits)"
        using Cons.prems by (cases "open") (simp_all add: ordered_def tt)
      from Cons.IH [OF this] True show ?thesis
        by (simp add: tt [unfolded h SysExit] h SysExit hit_exit)
    next
      case SysEnter
      have o: "ordered None (target_times p hits)" and le: "\<And>t. open = Some t \<Longrightarrow> t \<le> unat (hc_ktime c)"
        using Cons.prems by (cases "open"; simp add: ordered_def tt)+
      have t: "of_target p (SysEnter, c)"
        using True by (simp add: h SysEnter)
      show ?thesis
        using Cons.IH [OF o] hit_enter [where ?open = "open" and evs = evs, OF t le]
        by (cases "open") (simp_all add: tt [unfolded h SysEnter] h SysEnter reported_def)
    qed
  qed
qed

text \<open>C20: As long as the clock does not run backwards, the probes report exactly the callback phases
  of the target thread that last longer than the threshold, in order, with their true start and
  end: hits of other threads, and hits whose namespace lookup fails, neither add nor hide one, and
  the wrapping 64-bit subtraction agrees with the difference of the times.\<close>

theorem probes_report_long_phases:
  assumes "sorted (map snd (target_times p hits))"
  shows "submitted (run_probes p hits) =
    map (event_of_phase p)
      (filter (\<lambda>(t0, t1). unat (pp_threshold_ns p) < t1 - t0) (phases None (target_times p hits)))"
proof -
  have "ordered None (target_times p hits)"
    using assms by (simp add: ordered_def)
  from fold_hits [OF this, of "[]"] show ?thesis
    by (simp add: run_probes_def state_of_def reported_def case_prod_beta')
qed

definition example_params :: probe_params where
  "example_params = \<lparr>pp_use_ns_pid = True, pp_target_tgid = 1, pp_target_tid = 1, pp_threshold_ns = 100\<rparr>"

definition at_time :: "u32 \<Rightarrow> u64 \<Rightarrow> hit_context" where
  "at_time tid t = \<lparr>hc_nsdata = Some (1, tid), hc_pid_tgid = 0, hc_ktime = t\<rparr>"

definition example_hits :: "(probe \<times> hit_context) list" where
  "example_hits = [(SysEnter, at_time 1 5), (SysExit, at_time 1 10), (SysEnter, at_time 2 20),
     (SysEnter, at_time 1 200), (SysExit, at_time 1 210), (SysEnter, at_time 1 310)]"

lemma example_times: "target_times example_params example_hits =
  [(SysEnter, 5), (SysExit, 10), (SysEnter, 200), (SysExit, 210), (SysEnter, 310)]"
  by (simp add: target_times_def example_hits_def of_target_def current_task_def is_target_eq example_params_def
      at_time_def)

lemma probes_report_long_phases_witness:
  "submitted (run_probes example_params example_hits) =
     [\<lparr>be_start_ns = 10, be_end_ns = 200, be_pid = 1, be_tid = 1\<rparr>]"
  by (subst probes_report_long_phases) (simp_all add: example_times, simp add: example_params_def event_of_phase_def)

end
