(* ===== verification/PyFloat.thy ===== *)
theory PyFloat
  imports Complex_Main Prelude
begin

text \<open>
  The Python \<open>float\<close>: IEEE 754 binary64 with round-to-nearest, ties to even. A finite float is
  the rational number it stands for, and every operation of the code is the exact rational
  operation followed by the rounding \<open>fl\<close>, which is how the standard defines it. The
  subnormal range is modelled; the exponent has no upper bound, so the model has no
  infinities. The durations the program computes from unsigned 64-bit nanosecond timestamps
  stay below \<open>2 ^ 45\<close>, far inside the binary64 range.
\<close>

section \<open>Rounding to an integer, ties to even\<close>

definition rne :: "rat \<Rightarrow> int" where
  "rne x = (let n = \<lfloor>x\<rfloor>; d = x - of_int n
            in if d < 1 / 2 then n
               else if d > 1 / 2 then n + 1
               else if even n then n else n + 1)"

lemma rne_bounds: "of_int (rne x) - 1 / 2 \<le> x \<and> x \<le> of_int (rne x) + 1 / 2"
  unfolding rne_def Let_def by (auto; linarith)

lemma rne_of_int [simp]: "rne (of_int n) = n"
  by (simp add: rne_def)

lemma rne_floor: "rne x = \<lfloor>x\<rfloor> \<or> rne x = \<lfloor>x\<rfloor> + 1"
  by (auto simp: rne_def Let_def)

lemma rne_mono: "x \<le> y \<Longrightarrow> rne x \<le> rne y"
proof -
  assume xy: "x \<le> y"
  then have le: "\<lfloor>x\<rfloor> \<le> \<lfloor>y\<rfloor>"
    by (rule floor_mono)
  show ?thesis
  proof (cases "\<lfloor>x\<rfloor> = \<lfloor>y\<rfloor>")
    case True
    then show ?thesis
      using xy by (auto simp: rne_def Let_def)
  next
    case False
    then have "\<lfloor>x\<rfloor> + 1 \<le> \<lfloor>y\<rfloor>"
      using le by simp
    then show ?thesis
      using rne_floor [of x] rne_floor [of y] by auto
  qed
qed

lemma rne_le_of_int: "x \<le> of_int n \<Longrightarrow> rne x \<le> n"
  using rne_mono [of x "of_int n"] by simp

lemma of_int_le_rne: "of_int n \<le> x \<Longrightarrow> n \<le> rne x"
  using rne_mono [of "of_int n" x] by simp

lemma rne_minus: "rne (- x) = - rne x"
proof (cases "x = of_int \<lfloor>x\<rfloor>")
  case True
  then show ?thesis
    by (metis of_int_minus rne_of_int)
next
  case False
  then have lt: "of_int \<lfloor>x\<rfloor> < x"
    by (metis of_int_floor_le order_le_less)
  have fl: "\<lfloor>- x\<rfloor> = - \<lfloor>x\<rfloor> - 1"
    using lt by linarith
  show ?thesis
    unfolding rne_def fl Let_def by auto
qed

section \<open>Bit length\<close>

fun nbits :: "nat \<Rightarrow> nat" where
  "nbits n = (if n = 0 then 0 else Suc (nbits (n div 2)))"

declare nbits.simps [simp del]

lemma nbits_0 [simp]: "nbits 0 = 0"
  by (simp add: nbits.simps)

lemma nbits_less: "n < 2 ^ nbits n"
proof (induction n rule: nbits.induct)
  case (1 n)
  then show ?case
    by (cases "n = 0") (simp_all add: nbits.simps [of n])
qed

lemma nbits_le: "n < 2 ^ k \<Longrightarrow> nbits n \<le> k"
proof (induction n arbitrary: k rule: nbits.induct)
  case (1 n)
  show ?case
  proof (cases "n = 0")
    case False
    then obtain j where k: "k = Suc j"
      using "1.prems" by (cases k) auto
    with "1.prems" have "n div 2 < 2 ^ j"
      by simp
    with "1.IH" [OF False] k False show ?thesis
      by (simp add: nbits.simps [of n])
  qed simp
qed

lemma le_nbits: "2 ^ k \<le> n \<Longrightarrow> k < nbits n"
  by (rule ccontr)
    (metis leD le_less_trans linorder_not_less nbits_less one_less_numeral_iff
      power_increasing_iff semiring_norm(76) order_less_le_trans)

lemma nbits_ge: "0 < nbits n \<Longrightarrow> 2 ^ (nbits n - 1) \<le> n"
  using nbits_le [of n "nbits n - 1"] by linarith

lemma nbits_mono: "m \<le> n \<Longrightarrow> nbits m \<le> nbits n"
  using nbits_le [of m "nbits n"] nbits_less [of n] by linarith

section \<open>Rounding to binary64\<close>

text \<open>
  \<open>2 ^ 1074\<close> scales the least positive float to 1. A value whose scaled magnitude has
  \<open>b\<close> bits keeps the upper 53 of them: the lower \<open>b - 53\<close> bits are rounded away, and none
  are when the value is subnormal or small.
\<close>

definition scale :: rat where
  "scale = 2 ^ 1074"

definition ulp_bits :: "rat \<Rightarrow> nat" where
  "ulp_bits x = nbits (nat \<lfloor>\<bar>x\<bar> * scale\<rfloor>) - 53"

definition fl :: "rat \<Rightarrow> rat" where
  "fl x = of_int (rne (x * scale / 2 ^ ulp_bits x)) * 2 ^ ulp_bits x / scale"

lemma scale_pos [simp]: "0 < scale"
  by (simp add: scale_def)

lemma scale_nz [simp]: "scale \<noteq> 0"
  by (simp add: scale_def)

lemma abs_scale [simp]: "\<bar>scale\<bar> = scale"
  using scale_pos by linarith

lemma ulp_bits_minus [simp]: "ulp_bits (- x) = ulp_bits x"
  by (simp add: ulp_bits_def)

lemma fl_minus: "fl (- x) = - fl x"
  by (simp add: fl_def rne_minus flip: minus_divide_left)

lemma fl_0 [simp]: "fl 0 = 0"
  by (simp add: fl_def rne_def)

lemma fl_nonneg: "0 \<le> x \<Longrightarrow> 0 \<le> fl x"
proof -
  assume "0 \<le> x"
  then have "0 \<le> rne (x * scale / 2 ^ ulp_bits x)"
    by (intro of_int_le_rne) (simp add: less_imp_le [OF scale_pos])
  then show ?thesis
    by (simp add: fl_def less_imp_le [OF scale_pos])
qed

lemma ulp_bits_mono: "0 \<le> x \<Longrightarrow> x \<le> y \<Longrightarrow> ulp_bits x \<le> ulp_bits y"
  unfolding ulp_bits_def
  by (intro diff_le_mono nbits_mono nat_mono floor_mono mult_right_mono)
    (simp_all add: less_imp_le [OF scale_pos])

lemma scaled_less: "\<bar>x\<bar> * scale < 2 ^ (ulp_bits x + 53)"
proof -
  let ?n = "nat \<lfloor>\<bar>x\<bar> * scale\<rfloor>"
  have nn: "0 \<le> \<lfloor>\<bar>x\<bar> * scale\<rfloor>"
    by (simp add: less_imp_le [OF scale_pos])
  have "?n < 2 ^ nbits ?n"
    by (rule nbits_less)
  also have "(2::nat) ^ nbits ?n \<le> 2 ^ (ulp_bits x + 53)"
    by (intro power_increasing) (simp_all add: ulp_bits_def)
  finally have "int ?n < 2 ^ (ulp_bits x + 53)"
    by (metis of_nat_less_iff of_nat_numeral of_nat_power)
  then have "\<lfloor>\<bar>x\<bar> * scale\<rfloor> + 1 \<le> 2 ^ (ulp_bits x + 53)"
    using nn by simp
  then have "of_int (\<lfloor>\<bar>x\<bar> * scale\<rfloor> + 1) \<le> (of_int (2 ^ (ulp_bits x + 53)) :: rat)"
    by (simp only: of_int_le_iff)
  moreover have "\<bar>x\<bar> * scale < of_int (\<lfloor>\<bar>x\<bar> * scale\<rfloor> + 1)"
    by linarith
  ultimately show ?thesis
    by simp
qed

lemma scaled_ge: "0 < ulp_bits x \<Longrightarrow> 2 ^ (ulp_bits x + 52) \<le> \<bar>x\<bar> * scale"
proof -
  let ?n = "nat \<lfloor>\<bar>x\<bar> * scale\<rfloor>"
  assume pos: "0 < ulp_bits x"
  then have nb: "nbits ?n = ulp_bits x + 53" "0 < nbits ?n"
    by (simp_all add: ulp_bits_def)
  have "2 ^ (ulp_bits x + 52) \<le> ?n"
    using nbits_ge [OF nb(2)] by (simp add: nb(1) add.commute)
  then have "int (2 ^ (ulp_bits x + 52)) \<le> int ?n"
    by (simp only: of_nat_le_iff)
  also have "int ?n = \<lfloor>\<bar>x\<bar> * scale\<rfloor>"
    by (simp add: less_imp_le [OF scale_pos])
  finally have "of_int (2 ^ (ulp_bits x + 52)) \<le> (of_int \<lfloor>\<bar>x\<bar> * scale\<rfloor> :: rat)"
    by (simp only: of_int_le_iff of_nat_power of_nat_numeral)
  also have "\<dots> \<le> \<bar>x\<bar> * scale"
    by (rule of_int_floor_le)
  finally show ?thesis
    by simp
qed

text \<open>The significand fits 53 bits, the carry into the next power of two included.\<close>

lemma significand_le:
  "0 \<le> x \<Longrightarrow> rne (x * scale / 2 ^ ulp_bits x) \<le> 2 ^ 53"
  using scaled_less [of x]
  by (intro rne_le_of_int) (simp add: field_simps power_add)

lemma fl_mono_nonneg:
  assumes "0 \<le> x" and "x \<le> y"
  shows "fl x \<le> fl y"
proof (cases "ulp_bits x = ulp_bits y")
  case True
  have "x * scale / 2 ^ ulp_bits y \<le> y * scale / 2 ^ ulp_bits y"
    using assms by (intro divide_right_mono mult_right_mono) (simp_all add: less_imp_le [OF scale_pos])
  then have "rne (x * scale / 2 ^ ulp_bits y) \<le> rne (y * scale / 2 ^ ulp_bits y)"
    by (rule rne_mono)
  then show ?thesis
    unfolding fl_def True
    by (intro divide_right_mono mult_right_mono) (simp_all add: less_imp_le [OF scale_pos])
next
  case False
  let ?k = "ulp_bits x" and ?l = "ulp_bits y"
  have kl: "?k < ?l"
    using ulp_bits_mono [OF assms] False by simp
  have "of_int (rne (x * scale / 2 ^ ?k)) * 2 ^ ?k \<le> (2 ^ 53 * 2 ^ ?k :: rat)"
    using significand_le [OF assms(1)]
    by (intro mult_right_mono) (metis of_int_le_iff of_int_numeral of_int_power, simp)
  also have "(2 ^ 53 * 2 ^ ?k :: rat) \<le> 2 ^ 52 * 2 ^ ?l"
  proof -
    have "(2 :: rat) ^ (53 + ?k) \<le> 2 ^ (52 + ?l)"
      using kl by (intro power_increasing) simp_all
    then show ?thesis
      by (simp add: power_add)
  qed
  also have "(2 ^ 52 * 2 ^ ?l :: rat) \<le> of_int (rne (y * scale / 2 ^ ?l)) * 2 ^ ?l"
  proof (intro mult_right_mono)
    have "2 ^ (?l + 52) \<le> y * scale"
      using scaled_ge [of y] kl assms by simp
    then have "of_int (2 ^ 52) \<le> y * scale / 2 ^ ?l"
      by (simp add: field_simps power_add)
    then have "2 ^ 52 \<le> rne (y * scale / 2 ^ ?l)"
      by (rule of_int_le_rne)
    then show "2 ^ 52 \<le> (of_int (rne (y * scale / 2 ^ ?l)) :: rat)"
      by (metis of_int_le_iff of_int_numeral of_int_power)
  qed simp
  finally show ?thesis
    unfolding fl_def by (intro divide_right_mono) (simp_all add: less_imp_le [OF scale_pos])
qed

lemma fl_mono: "x \<le> y \<Longrightarrow> fl x \<le> fl y"
proof -
  assume xy: "x \<le> y"
  consider "0 \<le> x" | "x \<le> 0" "0 \<le> y" | "y \<le> 0"
    by linarith
  then show ?thesis
  proof cases
    case 1
    then show ?thesis
      using xy by (rule fl_mono_nonneg)
  next
    case 2
    then show ?thesis
      using fl_nonneg [of y] fl_nonneg [of "- x"] by (simp add: fl_minus)
  next
    case 3
    then show ?thesis
      using fl_mono_nonneg [of "- y" "- x"] xy by (simp add: fl_minus)
  qed
qed

section \<open>Representable values\<close>

definition is_float :: "rat \<Rightarrow> bool" where
  "is_float x \<longleftrightarrow> fl x = x"

text \<open>Every multiple of a power of two with a significand of 53 bits is a float.\<close>

lemma fl_grid:
  assumes "\<bar>m\<bar> \<le> 2 ^ 53"
  shows "fl (of_int m * 2 ^ k / scale) = of_int m * 2 ^ k / scale"
proof -
  let ?x = "of_int m * 2 ^ k / scale"
  let ?j = "ulp_bits ?x"
  have sc: "?x * scale = of_int (m * 2 ^ k)" "\<bar>?x\<bar> * scale = of_int (\<bar>m\<bar> * 2 ^ k)"
    by (simp_all add: abs_mult)
  have "2 ^ ?j dvd m * 2 ^ k"
  proof (cases "?j \<le> k")
    case True
    then show ?thesis
      by (simp add: le_imp_power_dvd)
  next
    case False
    then have "2 ^ (?j + 52) \<le> (of_int (\<bar>m\<bar> * 2 ^ k) :: rat)"
      using scaled_ge [of ?x] unfolding sc(2) by simp
    then have ge: "2 ^ (?j + 52) \<le> \<bar>m\<bar> * 2 ^ k"
      by (metis of_int_le_iff of_int_numeral of_int_power)
    have "(2::int) ^ (k + 53) \<le> 2 ^ (?j + 52)"
      using False by (intro power_increasing) simp_all
    then have "(2::int) ^ (k + 53) \<le> \<bar>m\<bar> * 2 ^ k"
      using ge by (rule order_trans)
    moreover have "(2::int) ^ 53 * 2 ^ k = 2 ^ (k + 53)"
      by (simp only: power_add mult.commute)
    ultimately have "2 ^ 53 * 2 ^ k \<le> \<bar>m\<bar> * 2 ^ k"
      by (simp only:)
    then have "2 ^ 53 \<le> \<bar>m\<bar>"
      by (rule mult_right_le_imp_le) simp
    then have m: "\<bar>m\<bar> = 2 ^ 53"
      using assms by simp
    then have "(2::int) ^ (?j + 52) \<le> 2 ^ (53 + k)"
      using ge by (simp add: power_add)
    then have "?j + 52 \<le> 53 + k"
      by (rule power_le_imp_le_exp [rotated]) simp
    then have "(2::int) ^ ?j dvd 2 ^ (53 + k)"
      by (intro le_imp_power_dvd) linarith
    moreover have "\<bar>m * 2 ^ k\<bar> = 2 ^ (53 + k)"
      by (simp only: abs_mult m power_add power_abs abs_numeral)
    ultimately show ?thesis
      by (metis dvd_abs_iff)
  qed
  then obtain q where q: "m * 2 ^ k = 2 ^ ?j * q"
    by (rule dvdE)
  have "?x * scale / 2 ^ ?j = of_int q"
    unfolding sc(1) q by simp
  then have "fl ?x = of_int q * 2 ^ ?j / scale"
    unfolding fl_def by simp
  also have "\<dots> = of_int (m * 2 ^ k) / scale"
    unfolding q by (simp add: mult.commute)
  finally show ?thesis
    by simp
qed

lemma significand_abs_le: "\<bar>rne (x * scale / 2 ^ ulp_bits x)\<bar> \<le> 2 ^ 53"
proof (cases "0 \<le> x")
  case True
  then have "0 \<le> rne (x * scale / 2 ^ ulp_bits x)"
    by (intro of_int_le_rne) (simp add: less_imp_le [OF scale_pos])
  then show ?thesis
    using significand_le [OF True] by simp
next
  case False
  then have nn: "0 \<le> - x"
    by simp
  have "0 \<le> - x * scale / 2 ^ ulp_bits (- x)"
    using nn by (intro divide_nonneg_nonneg mult_nonneg_nonneg) (simp_all add: less_imp_le [OF scale_pos])
  then have "0 \<le> rne (- x * scale / 2 ^ ulp_bits (- x))"
    by (intro of_int_le_rne) simp
  moreover have "rne (- x * scale / 2 ^ ulp_bits (- x)) \<le> 2 ^ 53"
    using nn by (rule significand_le)
  ultimately have "rne (- x * scale / 2 ^ ulp_bits (- x)) \<le> 2 ^ 53"
    "0 \<le> rne (- x * scale / 2 ^ ulp_bits (- x))"
    by blast+
  then show ?thesis
    by (simp add: rne_minus flip: minus_divide_left)
qed

lemma fl_fl [simp]: "fl (fl x) = fl x"
  using fl_grid [OF significand_abs_le [of x], of "ulp_bits x"]
  by (simp add: fl_def [of x, symmetric])

lemma is_float_fl [simp]: "is_float (fl x)"
  by (simp add: is_float_def)

lemma fl_of_int:
  assumes "\<bar>n\<bar> \<le> 2 ^ 53"
  shows "fl (of_int n) = of_int n"
  using fl_grid [OF assms, of 1074] by (simp add: scale_def)

lemma fl_dyadic: "\<bar>m\<bar> \<le> 2 ^ 53 \<Longrightarrow> j \<le> 1074 \<Longrightarrow> fl (of_int m / 2 ^ j) = of_int m / 2 ^ j"
  using fl_grid [of m "1074 - j"] by (simp add: scale_def power_diff)

lemma fl_numeral [simp]: "numeral n \<le> (2 ^ 53 :: int) \<Longrightarrow> fl (numeral n) = numeral n"
  using fl_of_int [of "numeral n"] by simp

lemma fl_1 [simp]: "fl 1 = 1"
  using fl_of_int [of 1] by simp

lemma fl_of_nat: "n \<le> 2 ^ 53 \<Longrightarrow> fl (of_nat n) = of_nat n"
proof -
  assume "n \<le> 2 ^ 53"
  then have "int n \<le> 2 ^ 53"
    by (metis of_nat_le_iff of_nat_numeral of_nat_power)
  then show ?thesis
    using fl_of_int [of "int n"] by simp
qed

section \<open>The operations of the code\<close>

text \<open>
  \<open>int / int\<close> is the exact quotient rounded once; \<open>float(n)\<close> rounds the integer; the binary
  operators round the exact result. \<open>int(x)\<close> truncates towards zero. \<open>round(x, nd)\<close> rounds
  the exact value of \<open>x\<close> to \<open>nd\<close> decimal digits, ties to even, and converts the decimal
  number back to a float.
\<close>

definition int_truediv :: "int \<Rightarrow> int \<Rightarrow> rat" where
  "int_truediv a b = fl (of_int a / of_int b)"

definition float_of_int :: "int \<Rightarrow> rat" where
  "float_of_int n = fl (of_int n)"

definition fadd :: "rat \<Rightarrow> rat \<Rightarrow> rat" where
  "fadd x y = fl (x + y)"

definition fsub :: "rat \<Rightarrow> rat \<Rightarrow> rat" where
  "fsub x y = fl (x - y)"

definition fmul :: "rat \<Rightarrow> rat \<Rightarrow> rat" where
  "fmul x y = fl (x * y)"

definition fdiv :: "rat \<Rightarrow> rat \<Rightarrow> rat" where
  "fdiv x y = fl (x / y)"

definition trunc :: "rat \<Rightarrow> int" where
  "trunc x = (if 0 \<le> x then \<lfloor>x\<rfloor> else \<lceil>x\<rceil>)"

definition py_round :: "nat \<Rightarrow> rat \<Rightarrow> rat" where
  "py_round nd x = fl (of_int (rne (x * 10 ^ nd)) / 10 ^ nd)"

text \<open>
  The built-in \<open>sum\<close> of Python 3.12 and later adds floats with Neumaier's compensation: \<open>c\<close>
  collects the rounding errors of the partial sums and is added at the end. The first item is
  added to the integer start value 0 before the float loop is entered.
\<close>

fun neumaier :: "rat \<Rightarrow> rat \<Rightarrow> rat list \<Rightarrow> rat" where
  "neumaier s c [] = (if c = 0 then s else fadd s c)"
| "neumaier s c (x # xs) =
     (let t = fadd s x
      in neumaier t
           (if \<bar>x\<bar> \<le> \<bar>s\<bar> then fadd c (fadd (fsub s t) x) else fadd c (fadd (fsub x t) s)) xs)"

fun py_sum :: "rat list \<Rightarrow> rat" where
  "py_sum [] = 0"
| "py_sum (x # xs) = neumaier x 0 xs"

lemma py_round_mono: "x \<le> y \<Longrightarrow> py_round nd x \<le> py_round nd y"
  unfolding py_round_def
  by (intro fl_mono divide_right_mono) (simp_all add: rne_mono mult_right_mono)

lemma py_round_nonneg: "0 \<le> x \<Longrightarrow> 0 \<le> py_round nd x"
  unfolding py_round_def
  by (intro fl_nonneg divide_nonneg_nonneg) (simp_all add: of_int_le_rne)

lemma is_float_py_round [simp]: "is_float (py_round nd x)"
  by (simp add: py_round_def)

lemma trunc_mono: "x \<le> y \<Longrightarrow> trunc x \<le> trunc y"
  by (auto simp: trunc_def floor_mono ceiling_mono)
    (meson ceiling_le_zero le_floor_iff linorder_le_cases of_int_0_le_iff order_trans zero_le_floor)

lemma trunc_of_int [simp]: "trunc (of_int n) = n"
  by (simp add: trunc_def)

lemma trunc_nonneg: "0 \<le> x \<Longrightarrow> 0 \<le> trunc x"
  by (simp add: trunc_def)

section \<open>The interface of a rounding\<close>

text \<open>
  What the statistics and the reporter rely on when they round: order is kept and zero is exact.
  Both the rounding to binary64 and the built-in \<open>round\<close> provide it.
\<close>

locale rounding =
  fixes r :: "rat \<Rightarrow> rat"
  assumes r_mono: "x \<le> y \<Longrightarrow> r x \<le> r y"
    and r_0: "r 0 = 0"
begin

lemma r_nonneg: "0 \<le> x \<Longrightarrow> 0 \<le> r x"
  using r_mono [of 0 x] by (simp add: r_0)

lemma r_max: "r (max x y) = max (r x) (r y)"
  using r_mono [of x y] r_mono [of y x] by (cases "x \<le> y") (auto simp: max_def)

lemma sorted_map_r: "sorted xs \<Longrightarrow> sorted (map r xs)"
  by (induction xs) (auto simp: r_mono)

end

interpretation fl: rounding fl
  by unfold_locales (simp_all add: fl_mono)

interpretation py_round: rounding "py_round nd" for nd
  by unfold_locales (auto simp: py_round_mono, simp add: py_round_def rne_def)

end
