(* ===== verification/PyStr.thy ===== *)
theory PyStr
  imports Prelude "HOL-Library.Sublist"
begin

text \<open>
  The operations of Python's \<open>str\<close> and the \<open>int(...)\<close> and \<open>str(...)\<close> conversions that the code
  uses, as executable functions on strings.
\<close>

section \<open>Prefixes, substrings, white space\<close>

definition startswith :: "string \<Rightarrow> string \<Rightarrow> bool" where
  "startswith s p \<longleftrightarrow> take (length p) s = p"

text \<open>\<open>p in s\<close>\<close>

fun contains :: "string \<Rightarrow> string \<Rightarrow> bool" where
  "contains p [] = (p = [])"
| "contains p (c # cs) = (startswith (c # cs) p \<or> contains p cs)"

lemma startswith_iff: "startswith s p \<longleftrightarrow> (\<exists>t. s = p @ t)"
  unfolding startswith_def by (metis append_eq_conv_conj append_take_drop_id)

lemma contains_iff: "contains p s \<longleftrightarrow> (\<exists>a b. s = a @ p @ b)"
proof (induction s)
  case (Cons c cs)
  have "(\<exists>a b. c # cs = a @ p @ b) \<longleftrightarrow>
      (\<exists>b. c # cs = p @ b) \<or> (\<exists>a b. cs = a @ p @ b)"
    by (auto simp: Cons_eq_append_conv)
  then show ?case
    using Cons by (simp add: startswith_iff)
qed simp

definition is_space :: "char \<Rightarrow> bool" where
  "is_space c \<longleftrightarrow> c \<in> set [CHR '' '', CHR 0x09, CHR 0x0A, CHR 0x0B, CHR 0x0C, CHR 0x0D,
     CHR 0x1C, CHR 0x1D, CHR 0x1E, CHR 0x1F]"

definition lstrip :: "string \<Rightarrow> string" where
  "lstrip s = dropWhile is_space s"

definition strip :: "string \<Rightarrow> string" where
  "strip s = rev (lstrip (rev (lstrip s)))"

text \<open>\<open>s.split()\<close>: the maximal runs of characters that are not white space.\<close>

function split_ws :: "string \<Rightarrow> string list" where
  "split_ws s =
     (case lstrip s of
        [] \<Rightarrow> []
      | c # cs \<Rightarrow> takeWhile (\<lambda>c. \<not> is_space c) (c # cs)
                # split_ws (dropWhile (\<lambda>c. \<not> is_space c) (c # cs)))"
  by pat_completeness auto
termination
proof (relation "measure length")
  fix s c cs
  assume eq: "lstrip s = c # cs"
  then have "\<not> is_space c"
    by (metis hd_dropWhile list.distinct(1) list.sel(1) lstrip_def)
  then have "length (dropWhile (\<lambda>c. \<not> is_space c) (c # cs)) < length (c # cs)"
    by (simp add: le_imp_less_Suc length_dropWhile_le)
  also have "\<dots> \<le> length s"
    unfolding eq [symmetric] lstrip_def by (rule length_dropWhile_le)
  finally show "(dropWhile (\<lambda>c. \<not> is_space c) (c # cs), s) \<in> measure length"
    by simp
qed simp

declare split_ws.simps [simp del]

text \<open>\<open>s.split(sep, 1)\<close> for a one-character separator: the text before its first occurrence and,
  when there is one, the text after it.\<close>

definition split_once :: "char \<Rightarrow> string \<Rightarrow> string \<times> string option" where
  "split_once sep s =
     (takeWhile (\<lambda>c. c \<noteq> sep) s,
      case dropWhile (\<lambda>c. c \<noteq> sep) s of [] \<Rightarrow> None | _ # t \<Rightarrow> Some t)"

text \<open>\<open>sep.join(parts)\<close>\<close>

fun join :: "string \<Rightarrow> string list \<Rightarrow> string" where
  "join sep [] = []"
| "join sep [x] = x"
| "join sep (x # y # ys) = x @ sep @ join sep (y # ys)"

text \<open>\<open>s.replace(old, new)\<close> for a non-empty \<open>old\<close>: occurrences are found from the left and do
  not overlap.\<close>

function replace :: "string \<Rightarrow> string \<Rightarrow> string \<Rightarrow> string" where
  "replace old new [] = []"
| "replace old new (c # cs) =
     (if old \<noteq> [] \<and> startswith (c # cs) old
      then new @ replace old new (drop (length old) (c # cs))
      else c # replace old new cs)"
  by pat_completeness auto
termination
  by (relation "measure (\<lambda>(old, new, s). length s)") (auto simp: Suc_diff_le length_greater_0_conv)

lemma replace_absent: "\<not> contains old s \<Longrightarrow> replace old new s = s"
  by (induction s) auto

section \<open>Integers as text\<close>

definition digit_char :: "nat \<Rightarrow> char" where
  "digit_char d = char_of (48 + d)"

fun nat_to_str :: "nat \<Rightarrow> string" where
  "nat_to_str n = (if n < 10 then [digit_char n] else nat_to_str (n div 10) @ [digit_char (n mod 10)])"

declare nat_to_str.simps [simp del]

definition str_of_int :: "int \<Rightarrow> string" where
  "str_of_int i = (if i < 0 then CHR ''-'' # nat_to_str (nat (- i)) else nat_to_str (nat i))"

text \<open>
  \<open>int(s, base)\<close>: optional white space, an optional sign, for base 16 an optional \<open>0x\<close>, then
  digits with single underscores between them. \<open>None\<close> is the \<open>ValueError\<close>.
  CPython refuses more than 4300 decimal digits.
\<close>

definition digit_val :: "char \<Rightarrow> nat option" where
  "digit_val c =
     (let n = of_char c :: nat
      in if 48 \<le> n \<and> n \<le> 57 then Some (n - 48)
         else if 97 \<le> n \<and> n \<le> 122 then Some (n - 87)
         else if 65 \<le> n \<and> n \<le> 90 then Some (n - 55)
         else None)"

fun parse_digits :: "nat \<Rightarrow> nat \<Rightarrow> bool \<Rightarrow> string \<Rightarrow> nat option" where
  "parse_digits base acc sep [] = (if sep then None else Some acc)"
| "parse_digits base acc sep (c # cs) =
     (if c = CHR ''_'' then (if sep then None else parse_digits base acc True cs)
      else (case digit_val c of
              None \<Rightarrow> None
            | Some d \<Rightarrow> if d < base then parse_digits base (acc * base + d) False cs else None))"

definition drop_hex_prefix :: "nat \<Rightarrow> string \<Rightarrow> string" where
  "drop_hex_prefix base s =
     (if base = 16 \<and> (startswith s ''0x'' \<or> startswith s ''0X'')
      then (if startswith (drop 2 s) ''_'' then drop 3 s else drop 2 s)
      else s)"

definition max_str_digits :: nat where
  "max_str_digits = 4300"

definition py_int :: "nat \<Rightarrow> string \<Rightarrow> int option" where
  "py_int base s =
     (let t = strip s;
          neg = startswith t ''-'';
          u = (if neg \<or> startswith t ''+'' then drop 1 t else t);
          ds = drop_hex_prefix base u
      in if base = 10 \<and> max_str_digits < length (filter (\<lambda>c. c \<noteq> CHR ''_'') ds) then None
         else map_option (\<lambda>n. if neg then - int n else int n) (parse_digits base 0 True ds))"

section \<open>Reading back what was written\<close>

lemma digit_val_char: "d < 10 \<Longrightarrow> digit_val (digit_char d) = Some d"
  by (simp add: digit_val_def digit_char_def Let_def)

lemma digit_char_not [simp]:
  "d < 10 \<Longrightarrow> digit_char d \<noteq> CHR ''_''"
  "d < 10 \<Longrightarrow> digit_char d \<noteq> CHR ''-''"
  "d < 10 \<Longrightarrow> digit_char d \<noteq> CHR ''+''"
  "d < 10 \<Longrightarrow> \<not> is_space (digit_char d)"
  by (auto simp: digit_char_def is_space_def dest!: arg_cong [where f = "of_char :: char \<Rightarrow> nat"])

lemma parse_digits_append:
  "parse_digits base acc sep ds = Some m \<Longrightarrow>
    parse_digits base acc sep (ds @ es) = parse_digits base m False es"
  by (induction ds arbitrary: acc sep) (auto split: if_splits option.splits)

definition is_digit :: "char \<Rightarrow> bool" where
  "is_digit c \<longleftrightarrow> (\<exists>d<10. c = digit_char d)"

lemma nat_to_str_digits: "\<forall>c \<in> set (nat_to_str n). is_digit c"
proof (induction n rule: nat_to_str.induct)
  case (1 n)
  then show ?case
    by (cases "n < 10") (auto simp: nat_to_str.simps [of n] is_digit_def intro!: exI [of _ "n mod 10"])
qed

lemma nat_to_str_nonempty [simp]: "nat_to_str n \<noteq> []"
  by (simp add: nat_to_str.simps [of n])

lemma parse_nat_to_str: "parse_digits 10 0 True (nat_to_str n) = Some n"
proof (induction n rule: nat_to_str.induct)
  case (1 n)
  show ?case
  proof (cases "n < 10")
    case True
    then show ?thesis
      by (simp add: nat_to_str.simps [of n] digit_val_char)
  next
    case False
    then show ?thesis
      using parse_digits_append [OF "1.IH" [OF False]]
      by (simp add: nat_to_str.simps [of n] digit_val_char)
  qed
qed

lemma length_nat_to_str: "n < 10 ^ Suc k \<Longrightarrow> length (nat_to_str n) \<le> Suc k"
proof (induction k arbitrary: n)
  case (Suc k)
  then show ?case
    by (cases "n < 10") (simp_all add: nat_to_str.simps [of n] less_mult_imp_div_less)
qed (simp add: nat_to_str.simps)

lemma strip_no_space: "\<forall>c \<in> set s. \<not> is_space c \<Longrightarrow> strip s = s"
proof -
  assume a: "\<forall>c \<in> set s. \<not> is_space c"
  have "lstrip t = t" if "\<forall>c \<in> set t. \<not> is_space c" for t
    using that by (cases t) (simp_all add: lstrip_def)
  then show ?thesis
    using a by (simp add: strip_def)
qed

lemma digit_not_sign:
  "is_digit c \<Longrightarrow> c \<noteq> CHR ''_'' \<and> c \<noteq> CHR ''-'' \<and> c \<noteq> CHR ''+'' \<and> \<not> is_space c"
  by (auto simp: is_digit_def)

lemma startswith_Cons: "startswith (c # cs) [d] \<longleftrightarrow> c = d"
  by (simp add: startswith_def)

lemma not_signed:
  "\<forall>c \<in> set s. is_digit c \<Longrightarrow> s \<noteq> [] \<Longrightarrow> \<not> startswith s ''-'' \<and> \<not> startswith s ''+''"
  by (cases s) (auto simp: startswith_Cons dest: digit_not_sign)

lemma length_nat_to_str_max: "n < 10 ^ max_str_digits \<Longrightarrow> length (nat_to_str n) \<le> max_str_digits"
proof -
  assume n: "n < 10 ^ max_str_digits"
  obtain k where "max_str_digits = Suc k"
    by (cases max_str_digits) (simp_all add: max_str_digits_def)
  then show ?thesis
    using n length_nat_to_str [of n k] by simp
qed

lemma py_int_roundtrip:
  assumes "\<bar>i\<bar> < 10 ^ max_str_digits"
  shows "py_int 10 (str_of_int i) = Some i"
proof -
  define n where "n = nat \<bar>i\<bar>"
  let ?s = "nat_to_str n"
  have "int n < int (10 ^ max_str_digits)"
    using assms unfolding n_def by simp
  then have len: "length ?s \<le> max_str_digits"
    unfolding of_nat_less_iff by (rule length_nat_to_str_max)
  have flt: "length (filter (\<lambda>c. c \<noteq> CHR ''_'') ?s) \<le> max_str_digits"
    using len length_filter_le order_trans by blast
  have sp: "\<forall>c \<in> set ?s. \<not> is_space c"
    using nat_to_str_digits digit_not_sign by blast
  show ?thesis
  proof (cases "i < 0")
    case True
    then have i: "i = - int n" and s: "str_of_int (- int n) = CHR ''-'' # ?s"
      by (simp_all add: str_of_int_def n_def)
    have "strip (CHR ''-'' # ?s) = CHR ''-'' # ?s"
      using sp by (intro strip_no_space) (auto simp: is_space_def)
    then show ?thesis
      using flt by (simp add: py_int_def i s startswith_Cons Let_def drop_hex_prefix_def parse_nat_to_str)
  next
    case False
    then have i: "i = int n" and s: "str_of_int (int n) = ?s"
      by (simp_all add: str_of_int_def n_def)
    have "strip ?s = ?s"
      using sp by (rule strip_no_space)
    then show ?thesis
      using flt not_signed [OF nat_to_str_digits [of n]]
      by (simp add: py_int_def i s Let_def drop_hex_prefix_def parse_nat_to_str)
  qed
qed

lemma small_ids [simp]: "(1 :: int) < 10 ^ max_str_digits" "(7 :: int) < 10 ^ max_str_digits" "(4711 :: int) < 10 ^ max_str_digits"
proof -
  have "(10 :: int) ^ 9 \<le> 10 ^ max_str_digits"
    by (rule power_increasing) (simp_all add: max_str_digits_def)
  then show "(1 :: int) < 10 ^ max_str_digits" "(7 :: int) < 10 ^ max_str_digits" "(4711 :: int) < 10 ^ max_str_digits"
    by simp_all
qed

end
