(* ===== verification/PyFormat.thy ===== *)
theory PyFormat
  imports PyFloat PyStr
begin

text \<open>
  The format specifications of the f-strings in the code: fixed-point numbers (\<open>.1f\<close>), field
  widths with their alignment (\<open>>8\<close>, \<open><5\<close>), and JSON values as \<open>json.loads\<close> returns and
  \<open>json.dumps\<close> takes them.
\<close>

section \<open>Fixed-point numbers and field widths\<close>

definition rjust :: "nat \<Rightarrow> string \<Rightarrow> string" where
  "rjust w s = replicate (w - length s) (CHR '' '') @ s"

definition ljust :: "nat \<Rightarrow> string \<Rightarrow> string" where
  "ljust w s = s @ replicate (w - length s) (CHR '' '')"

definition zero_pad :: "nat \<Rightarrow> string \<Rightarrow> string" where
  "zero_pad w s = replicate (w - length s) (CHR ''0'') @ s"

text \<open>\<open>format(x, '.ndf')\<close>: the exact value rounded to \<open>nd\<close> decimal places, ties to even.\<close>

definition fixed :: "nat \<Rightarrow> rat \<Rightarrow> string" where
  "fixed nd x =
     (let r = nat (rne (\<bar>x\<bar> * 10 ^ nd))
      in (if x < 0 then ''-'' else []) @ nat_to_str (r div 10 ^ nd)
         @ (if nd = 0 then [] else ''.'' @ zero_pad nd (nat_to_str (r mod 10 ^ nd))))"

definition newline :: string where
  "newline = [CHR 0x0A]"

definition em_dash :: string where
  "em_dash = [CHR 0xE2, CHR 0x80, CHR 0x94]"

definition esc :: string where
  "esc = [CHR 0x1B, CHR ''['']"

lemma nat_to_str_no_newline [simp]: "CHR 0x0A \<notin> set (nat_to_str n)"
  using nat_to_str_digits digit_not_sign by (fastforce simp: is_space_def)

lemma str_of_int_no_newline [simp]: "CHR 0x0A \<notin> set (str_of_int i)"
  by (simp add: str_of_int_def)

lemma fixed_no_newline [simp]: "CHR 0x0A \<notin> set (fixed nd x)"
  by (simp add: fixed_def Let_def zero_pad_def)

section \<open>JSON values\<close>

text \<open>
  A JSON document as Python values. A number with a fraction or an exponent is a \<open>float\<close>, any
  other an \<open>int\<close>; an object is a dictionary with string keys in the order they were set.
\<close>

datatype json =
    JNull
  | JBool bool
  | JInt int
  | JFloat rat
  | JStr string
  | JList "json list"
  | JObj "(string \<times> json) list"

type_synonym json_obj = "(string, json) dict"

text \<open>\<open>v == n\<close> for an integer literal: booleans and integral floats compare equal to integers.\<close>

fun eq_int :: "json \<Rightarrow> int \<Rightarrow> bool" where
  "eq_int (JInt i) n = (i = n)"
| "eq_int (JFloat x) n = (x = of_int n)"
| "eq_int (JBool b) n = ((if b then 1 else 0) = n)"
| "eq_int _ n = False"

fun is_str :: "json \<Rightarrow> bool" where
  "is_str (JStr _) = True"
| "is_str _ = False"

text \<open>Lists and objects are unhashable: a membership test in a set raises \<open>TypeError\<close>.\<close>

fun hashable :: "json \<Rightarrow> bool" where
  "hashable (JList _) = False"
| "hashable (JObj _) = False"
| "hashable _ = True"

definition json_opt :: "('a \<Rightarrow> json) \<Rightarrow> 'a option \<Rightarrow> json" where
  "json_opt f x = (case x of None \<Rightarrow> JNull | Some a \<Rightarrow> f a)"

text \<open>\<open>{**d, **e}\<close> and \<open>d.update(e)\<close>\<close>

definition dict_update :: "('k, 'v) dict \<Rightarrow> ('k, 'v) dict \<Rightarrow> ('k, 'v) dict" where
  "dict_update d e = foldl (\<lambda>d kv. dict_set (fst kv) (snd kv) d) d e"

text \<open>What the program writes to a stream: text, or one JSON document per line.\<close>

datatype out = Text string | JsonLine json

end
