(* ===== verification/Core.thy ===== *)
theory Core
  imports PyFloat PyStr
begin

text \<open>
  The data structures of \<open>blocksnoop/core.py\<close>: stack frames, Python stack traces, blocking and
  lost events, and the detector configuration with its \<open>__post_init__\<close>. The frozen dataclasses
  are records; \<open>dataclasses.replace\<close> is record update.
\<close>

section \<open>Stack frames\<close>

definition STDLIB_FRAME_PREFIXES :: "string list" where
  "STDLIB_FRAME_PREFIXES = [''asyncio/'', ''selectors.py'', ''threading.py'']"

text \<open>\<open>any(p in file for p in STDLIB_FRAME_PREFIXES)\<close>, the test the correlator, the reporter
  and the console sink apply to a frame's file.\<close>

definition is_stdlib_file :: "string \<Rightarrow> bool" where
  "is_stdlib_file file = list_ex (\<lambda>p. contains p file) STDLIB_FRAME_PREFIXES"

record stack_frame =
  fr_function :: string
  fr_file :: string
  fr_line :: int

record python_stack_trace =
  thread_id :: int
  thread_name :: string
  frames :: "stack_frame list"

section \<open>Events\<close>

record blocking_event =
  start_ns :: int
  end_ns :: int
  ev_pid :: int
  ev_tid :: int
  python_stacks :: "python_stack_trace list"

definition duration_ms :: "blocking_event \<Rightarrow> rat" where
  "duration_ms e = int_truediv (end_ns e - start_ns e) 1000000"

record lost_event =
  lost_count :: int
  lost_source :: string

section \<open>Detector configuration\<close>

text \<open>The field \<open>tid\<close> is optional in the constructor and set by \<open>__post_init__\<close>.\<close>

record detector_config =
  cfg_pid :: int
  cfg_threshold_ms :: rat
  cfg_tid :: "int option"
  cfg_correlation_padding_ms :: rat
  cfg_sample_interval_ms :: rat

definition DetectorConfig :: "int \<Rightarrow> rat \<Rightarrow> int option \<Rightarrow> rat \<Rightarrow> detector_config" where
  "DetectorConfig pid threshold_ms tid padding_ms =
     \<lparr>cfg_pid = pid,
      cfg_threshold_ms = threshold_ms,
      cfg_tid = (case tid of None \<Rightarrow> Some pid | Some t \<Rightarrow> Some t),
      cfg_correlation_padding_ms = padding_ms,
      cfg_sample_interval_ms = fdiv threshold_ms 3\<rparr>"

text \<open>\<open>int(threshold_ms * 1_000_000)\<close>: the threshold handed to the kernel side.\<close>

definition threshold_ns :: "rat \<Rightarrow> int" where
  "threshold_ns threshold_ms = trunc (fmul threshold_ms 1000000)"

section \<open>Durations\<close>

lemma duration_ms_mono:
  "end_ns e - start_ns e \<le> end_ns e' - start_ns e' \<Longrightarrow> duration_ms e \<le> duration_ms e'"
  unfolding duration_ms_def int_truediv_def
  by (intro fl_mono divide_right_mono) simp_all

lemma duration_ms_nonneg: "start_ns e \<le> end_ns e \<Longrightarrow> 0 \<le> duration_ms e"
  unfolding duration_ms_def int_truediv_def by (intro fl_nonneg) simp

lemma is_float_duration_ms [simp]: "is_float (duration_ms e)"
  by (simp add: duration_ms_def int_truediv_def)

text \<open>A whole number of milliseconds is computed exactly.\<close>

lemma duration_ms_whole:
  "end_ns e - start_ns e = 1000000 * n \<Longrightarrow> \<bar>n\<bar> \<le> 2 ^ 53 \<Longrightarrow> duration_ms e = of_int n"
  by (simp add: duration_ms_def int_truediv_def fl_of_int)

lemma cfg_tid_DetectorConfig [simp]:
  "cfg_tid (DetectorConfig pid th tid pad) = Some (case tid of None \<Rightarrow> pid | Some t \<Rightarrow> t)"
  by (simp add: DetectorConfig_def split: option.splits)

lemma threshold_ns_mono: "a \<le> b \<Longrightarrow> threshold_ns a \<le> threshold_ns b"
  unfolding threshold_ns_def fmul_def by (intro trunc_mono fl_mono) simp

lemma threshold_ns_whole:
  assumes "0 \<le> n" and "n * 1000000 \<le> 2 ^ 53"
  shows "threshold_ns (of_int n) = n * 1000000"
proof -
  have "\<bar>n * 1000000\<bar> \<le> 2 ^ 53"
    using assms by simp
  moreover have "of_int n * 1000000 = (of_int (n * 1000000) :: rat)"
    by simp
  ultimately show ?thesis
    unfolding threshold_ns_def fmul_def by (simp only: fl_of_int trunc_of_int)
qed

end
