(* ===== verification/ProcFs.thy ===== *)
theory ProcFs
  imports PyStr
begin

text \<open>
  What the code reads from procfs, as a parameter: \<open>os.stat(path)\<close> (device and inode, or \<open>None\<close>
  for an \<open>OSError\<close>) and the lines of a text file (\<open>None\<close> when opening it fails).
\<close>

record procfs =
  fs_stat :: "string \<Rightarrow> (int \<times> int) option"
  fs_lines :: "string \<Rightarrow> string list option"

definition status_path :: "int \<Rightarrow> string" where
  "status_path pid = ''/proc/'' @ str_of_int pid @ ''/status''"

definition pid_ns_path :: "int \<Rightarrow> string" where
  "pid_ns_path pid = ''/proc/'' @ str_of_int pid @ ''/ns/pid''"

definition mnt_ns_path :: "int \<Rightarrow> string" where
  "mnt_ns_path pid = ''/proc/'' @ str_of_int pid @ ''/ns/mnt''"

text \<open>A status line as the kernel writes it: a field name, a colon, a tab and the values.\<close>

definition nspid_line :: "int list \<Rightarrow> string" where
  "nspid_line pids = ''NSpid:'' @ concat (map (\<lambda>p. CHR 0x09 # str_of_int p) pids) @ [CHR 0x0A]"

definition tgid_line :: "int \<Rightarrow> string" where
  "tgid_line pid = ''Tgid:'' @ [CHR 0x09] @ str_of_int pid @ [CHR 0x0A]"

section \<open>Reading the lines back\<close>

lemma split_ws_Nil [simp]: "split_ws [] = []"
  by (subst split_ws.simps) (simp add: lstrip_def)

lemma split_ws_space: "is_space c \<Longrightarrow> split_ws (c # s) = split_ws s"
  by (subst (1 2) split_ws.simps) (simp add: lstrip_def)

lemma split_ws_word:
  assumes "w \<noteq> []" and "\<forall>c \<in> set w. \<not> is_space c" and "s = [] \<or> is_space (hd s)"
  shows "split_ws (w @ s) = w # split_ws s"
proof -
  obtain c cs where w: "w = c # cs"
    using assms(1) by (cases w) auto
  have "lstrip (w @ s) = w @ s"
    using assms(2) by (simp add: w lstrip_def)
  moreover have "takeWhile (\<lambda>c. \<not> is_space c) (w @ s) = w" "dropWhile (\<lambda>c. \<not> is_space c) (w @ s) = s"
    using assms(2,3) by (cases s; simp add: takeWhile_append dropWhile_append)+
  ultimately show ?thesis
    by (subst split_ws.simps) (simp add: w)
qed

lemma str_of_int_no_space: "c \<in> set (str_of_int i) \<Longrightarrow> \<not> is_space c"
  using nat_to_str_digits digit_not_sign
  by (fastforce simp: str_of_int_def is_space_def split: if_splits)

lemma str_of_int_nonempty [simp]: "str_of_int i \<noteq> []"
  by (simp add: str_of_int_def)

lemma space_tab [simp]: "is_space (CHR 0x09)" and space_newline [simp]: "is_space (CHR 0x0A)"
  by (simp_all add: is_space_def)

lemma split_ws_values:
  "split_ws (concat (map (\<lambda>p. CHR 0x09 # str_of_int p) pids) @ [CHR 0x0A]) = map str_of_int pids"
proof (induction pids)
  case Nil
  show ?case by (simp add: split_ws_space)
next
  case (Cons p pids)
  have "hd (concat (map (\<lambda>p. CHR 0x09 # str_of_int p) pids) @ [CHR 0x0A]) \<in> {CHR 0x09, CHR 0x0A}"
    by (cases pids) simp_all
  then have "split_ws (str_of_int p @ concat (map (\<lambda>p. CHR 0x09 # str_of_int p) pids) @ [CHR 0x0A]) =
      str_of_int p # map str_of_int pids"
    using Cons by (subst split_ws_word) (auto simp: str_of_int_no_space)
  then show ?case
    by (simp add: split_ws_space)
qed

lemma split_ws_nspid_line: "split_ws (nspid_line pids) = ''NSpid:'' # map str_of_int pids"
proof -
  have "hd (concat (map (\<lambda>p. CHR 0x09 # str_of_int p) pids) @ [CHR 0x0A]) \<in> {CHR 0x09, CHR 0x0A}"
    by (cases pids) simp_all
  then have "split_ws (''NSpid:'' @ concat (map (\<lambda>p. CHR 0x09 # str_of_int p) pids) @ [CHR 0x0A]) =
      ''NSpid:'' # split_ws (concat (map (\<lambda>p. CHR 0x09 # str_of_int p) pids) @ [CHR 0x0A])"
    by (intro split_ws_word) (auto simp: is_space_def)
  then show ?thesis
    by (simp add: nspid_line_def split_ws_values)
qed

lemma nspid_line_startswith [simp]: "startswith (nspid_line pids) ''NSpid:''"
  by (auto simp: nspid_line_def startswith_iff)

lemma str_7: "str_of_int 7 = ''7''"
  by code_simp

section \<open>Status files as the kernel writes them\<close>

text \<open>One \<open>NSpid\<close> line with the ids of the task, outermost namespace first, among the others.\<close>

definition lists_ids :: "string list \<Rightarrow> int list \<Rightarrow> bool" where
  "lists_ids lines ids =
     (filter (\<lambda>l. startswith l ''NSpid:'') lines = [nspid_line ids] \<and> ids \<noteq> []
      \<and> list_all (\<lambda>p. \<bar>p\<bar> < 10 ^ max_str_digits) ids)"

lemma lists_idsE:
  assumes "lists_ids lines ids"
  obtains before after where "lines = before @ nspid_line ids # after"
    and "list_all (\<lambda>l. \<not> startswith l ''NSpid:'') before" and "list_all (\<lambda>l. \<not> startswith l ''NSpid:'') after"
    and "ids \<noteq> []" and "list_all (\<lambda>p. \<bar>p\<bar> < 10 ^ max_str_digits) ids"
proof -
  from assms have "filter (\<lambda>l. startswith l ''NSpid:'') lines = nspid_line ids # []"
    by (simp add: lists_ids_def)
  then obtain before after where "lines = before @ nspid_line ids # after"
      "\<forall>l \<in> set before. \<not> startswith l ''NSpid:''" "filter (\<lambda>l. startswith l ''NSpid:'') after = []"
    by (auto simp: filter_eq_Cons_iff)
  with assms show ?thesis
    by (intro that [of before after]) (auto simp: lists_ids_def list_all_iff filter_empty_conv)
qed

lemma lstrip_spaces: "\<forall>c \<in> set w. is_space c \<Longrightarrow> lstrip w = []"
  by (simp add: lstrip_def)

lemma lstrip_append:
  "lstrip (s @ w) = (if lstrip s = [] then lstrip w else lstrip s @ w)"
  by (induction s) (auto simp: lstrip_def)

lemma split_ws_trailing:
  assumes "\<forall>c \<in> set w. is_space c"
  shows "split_ws (s @ w) = split_ws s"
  using assms
proof (induction s rule: split_ws.induct)
  case (1 s)
  show ?case
  proof (cases "lstrip s")
    case Nil
    then show ?thesis
      using 1(2) by (subst (1 2) split_ws.simps) (simp add: lstrip_append lstrip_spaces)
  next
    case (Cons c cs)
    have c: "\<not> is_space c"
      using Cons by (metis hd_dropWhile list.distinct(1) list.sel(1) lstrip_def)
    have "takeWhile (\<lambda>c. \<not> is_space c) ((c # cs) @ w) = takeWhile (\<lambda>c. \<not> is_space c) (c # cs)"
      using 1(2) by (cases w) (auto simp: takeWhile_append takeWhile_eq_all_conv [THEN iffD2])
    moreover have "split_ws (dropWhile (\<lambda>c. \<not> is_space c) ((c # cs) @ w)) =
        split_ws (dropWhile (\<lambda>c. \<not> is_space c) (c # cs))"
    proof (cases "\<forall>x \<in> set (c # cs). \<not> is_space x")
      case True
      then have "dropWhile (\<lambda>c. \<not> is_space c) ((c # cs) @ w) = dropWhile (\<lambda>c. \<not> is_space c) w"
        and e: "dropWhile (\<lambda>c. \<not> is_space c) (c # cs) = []"
        by (simp_all add: dropWhile_append)
      moreover have "split_ws (dropWhile (\<lambda>c. \<not> is_space c) w) = []"
        using 1(2) by (cases w) (auto simp: split_ws.simps [of "_ # _"] lstrip_def dropWhile_eq_Nil_conv [THEN iffD2])
      ultimately show ?thesis
        by (simp only: e split_ws_Nil)
    next
      case False
      then have "dropWhile (\<lambda>c. \<not> is_space c) ((c # cs) @ w) = dropWhile (\<lambda>c. \<not> is_space c) (c # cs) @ w"
        by (simp only: dropWhile_append) auto
      then show ?thesis
        using "1.IH" [OF Cons] 1(2) by simp
    qed
    ultimately show ?thesis
      by (subst (1 2) split_ws.simps) (simp add: Cons lstrip_append)
  qed
qed

lemma split_ws_lstrip: "split_ws (lstrip s) = split_ws s"
  by (subst (1 2) split_ws.simps) (simp add: lstrip_def)

lemma rstrip_parts: "\<exists>w. s = rev (lstrip (rev s)) @ w \<and> (\<forall>c \<in> set w. is_space c)"
  by (intro exI [of _ "rev (takeWhile is_space (rev s))"])
     (auto simp: lstrip_def rev_append [symmetric] simp del: rev_append dest: set_takeWhileD)

lemma split_ws_strip: "split_ws (strip s) = split_ws s"
proof -
  obtain w where "lstrip s = rev (lstrip (rev (lstrip s))) @ w" "\<forall>c \<in> set w. is_space c"
    using rstrip_parts by blast
  then have "split_ws (lstrip s) = split_ws (strip s)"
    by (metis split_ws_trailing strip_def)
  then show ?thesis
    by (simp add: split_ws_lstrip)
qed

end
