(* ===== verification/Losses.thy ===== *)
theory Losses
  imports Core Prelude
begin

text \<open>
  The loss ledger both detectors keep: \<open>counts[source] = counts.get(source, 0) + count\<close> under their
  loss lock. The locale is the contract; \<open>CoreBackend\<close> and \<open>BccDetector\<close> interpret it.
\<close>

definition loss_add :: "lost_event \<Rightarrow> (string, int) dict \<Rightarrow> (string, int) dict" where
  "loss_add l counts =
     dict_set (lost_source l) (dict_get_default counts (lost_source l) 0 + lost_count l) counts"

definition losses_from :: "string \<Rightarrow> lost_event list \<Rightarrow> int" where
  "losses_from src ls = sum_list (map lost_count (filter (\<lambda>l. lost_source l = src) ls))"

lemma dict_get_default_loss_add:
  "dict_get_default (loss_add l d) src 0 =
     dict_get_default d src 0 + (if lost_source l = src then lost_count l else 0)"
  by (auto simp: loss_add_def dict_get_default_def dict_set_def update_conv' split: option.splits)

lemma dict_keys_loss_add: "set (dict_keys (loss_add l d)) = insert (lost_source l) (set (dict_keys d))"
  by (simp add: loss_add_def dict_keys_set)

lemma sum_dict_set_int:
  "distinct (dict_keys d) \<Longrightarrow>
   sum_list (dict_values (dict_set k (w :: int) d)) = sum_list (dict_values d) + w - dict_get_default d k 0"
proof (induction d)
  case (Cons kv d)
  show ?case
  proof (cases "fst kv = k")
    case True
    with Cons.prems show ?thesis
      by (cases kv) (simp add: dict_set_def dict_values_def dict_get_default_def dict_keys_def)
  next
    case False
    with Cons show ?thesis
      by (cases kv) (simp add: dict_set_def dict_values_def dict_get_default_def dict_keys_def)
  qed
qed (simp add: dict_set_def dict_values_def dict_get_default_def)

lemma sum_loss_add:
  "distinct (dict_keys d) \<Longrightarrow>
   sum_list (dict_values (loss_add l d)) = sum_list (dict_values d) + lost_count l"
  by (simp add: loss_add_def sum_dict_set_int)

locale loss_ledger =
  fixes lose :: "lost_event \<Rightarrow> 's \<Rightarrow> 's" and counts :: "'s \<Rightarrow> (string, int) dict"
  assumes counts_lose: "counts (lose l s) = loss_add l (counts s)"
begin

lemma counts_all: "counts (fold lose ls s) = fold loss_add ls (counts s)"
  by (induction ls arbitrary: s) (simp_all add: counts_lose)

lemma count_by_source:
  "dict_get_default (counts (fold lose ls s)) src 0 = dict_get_default (counts s) src 0 + losses_from src ls"
  by (induction ls arbitrary: s) (simp_all add: counts_lose dict_get_default_loss_add losses_from_def)

lemma distinct_counts: "distinct (dict_keys (counts s)) \<Longrightarrow> distinct (dict_keys (counts (fold lose ls s)))"
  by (induction ls arbitrary: s) (simp_all add: counts_lose loss_add_def distinct_dict_set)

lemma total_lost:
  "distinct (dict_keys (counts s)) \<Longrightarrow>
   sum_list (dict_values (counts (fold lose ls s))) =
     sum_list (dict_values (counts s)) + sum_list (map lost_count ls)"
proof (induction ls arbitrary: s)
  case (Cons l ls)
  then have "distinct (dict_keys (counts (lose l s)))"
    by (simp add: counts_lose loss_add_def distinct_dict_set)
  from Cons.IH [OF this] Cons.prems show ?case
    by (simp add: counts_lose sum_loss_add)
qed simp

end

end
