(* ===== verification/Detector.thy ===== *)
theory Detector
  imports PyFormat Core ProcFs Losses "HOL-Library.Char_ord" "HOL-Library.List_Lexorder"
begin

text \<open>
  The legacy BCC detector of \<open>blocksnoop/detector.py\<close>: assembling the BPF program, translating the
  target's ids into its PID namespace, and the detector with its polling thread. The probe bodies
  the program text contains are modelled in \<open>Probes\<close>. The \<open>bcc\<close> module is a parameter: what
  compiling, attaching and polling do is given as outcomes.
\<close>

section \<open>The probe template and the program text\<close>

definition EPOLL_CANDIDATES :: "string list" where
  "EPOLL_CANDIDATES = [''epoll_wait'', ''epoll_pwait'', ''epoll_pwait2'']"

definition TRACEFS_EVENTS :: string where
  "TRACEFS_EVENTS = ''/sys/kernel/debug/tracing/events/syscalls''"

text \<open>\<open>isdir\<close> stands for \<open>os.path.isdir\<close>.\<close>

definition detect_epoll_syscalls :: "(string \<Rightarrow> bool) \<Rightarrow> string list result" where
  "detect_epoll_syscalls isdir =
     (let available = filter (\<lambda>name. isdir (TRACEFS_EVENTS @ ''/sys_enter_'' @ name)) EPOLL_CANDIDATES
      in if available = []
         then Inl (PyRuntimeError (''No epoll tracepoint found in '' @ TRACEFS_EVENTS
                @ ''. Ensure tracefs is mounted and the kernel supports syscall tracepoints.''))
         else Inr available)"

definition EPOLL_PROBE_TEMPLATE :: string where
  "EPOLL_PROBE_TEMPLATE = join newline
     [[],
      (''// __EPOLL_SYSCALL__ returns '' @ [CHR 0xE2, CHR 0x86, CHR 0x92] @ '' callbacks about to run''),
      ''TRACEPOINT_PROBE(syscalls, sys_exit___EPOLL_SYSCALL__) {'',
      ''#ifdef __USE_NS_PID__'',
      ''    struct bpf_pidns_info nsdata = {};'',
      ''    if (bpf_get_ns_current_pid_tgid(__PIDNS_DEV__, __PIDNS_INO__, &nsdata, sizeof(nsdata)) != 0)'',
      ''        return 0;'',
      ''    u32 tgid = nsdata.tgid;'',
      ''    u32 tid = nsdata.pid;'',
      ''#else'',
      ''    u64 pid_tgid = bpf_get_current_pid_tgid();'',
      ''    u32 tgid = pid_tgid >> 32;'',
      ''    u32 tid = (u32)pid_tgid;'',
      ''#endif'',
      [],
      ''    if (tgid != __TARGET_TGID__ || tid != __TARGET_TID__)'',
      ''        return 0;'',
      [],
      ''    u64 ts = bpf_ktime_get_ns();'',
      ''    callback_start.update(&tid, &ts);'',
      ''    return 0;'',
      ''}'',
      [],
      (''// entering __EPOLL_SYSCALL__ '' @ [CHR 0xE2, CHR 0x86, CHR 0x92] @ '' callbacks done''),
      ''TRACEPOINT_PROBE(syscalls, sys_enter___EPOLL_SYSCALL__) {'',
      ''#ifdef __USE_NS_PID__'',
      ''    struct bpf_pidns_info nsdata = {};'',
      ''    if (bpf_get_ns_current_pid_tgid(__PIDNS_DEV__, __PIDNS_INO__, &nsdata, sizeof(nsdata)) != 0)'',
      ''        return 0;'',
      ''    u32 tgid = nsdata.tgid;'',
      ''    u32 tid = nsdata.pid;'',
      ''#else'',
      ''    u64 pid_tgid = bpf_get_current_pid_tgid();'',
      ''    u32 tgid = pid_tgid >> 32;'',
      ''    u32 tid = (u32)pid_tgid;'',
      ''#endif'',
      [],
      ''    if (tgid != __TARGET_TGID__ || tid != __TARGET_TID__)'',
      ''        return 0;'',
      [],
      ''    u64 *tsp = callback_start.lookup(&tid);'',
      ''    if (!tsp)'',
      ''        return 0;'',
      [],
      ''    u64 now = bpf_ktime_get_ns();'',
      ''    u64 delta = now - *tsp;'',
      [],
      ''    if (delta > __THRESHOLD_NS__) {'',
      ''        struct event_t evt = {};'',
      ''        evt.start_ns = *tsp;'',
      ''        evt.end_ns = now;'',
      ''        evt.pid = tgid;'',
      ''        evt.tid = tid;'',
      ''        events.perf_submit(args, &evt, sizeof(evt));'',
      ''    }'',
      [],
      ''    callback_start.delete(&tid);'',
      ''    return 0;'',
      ''}'',
      []]"

definition build_bpf_source ::
  "string \<Rightarrow> rat \<Rightarrow> int \<Rightarrow> int \<Rightarrow> string list \<Rightarrow> (int \<times> int) option \<Rightarrow> string" where
  "build_bpf_source raw_source threshold_ms target_tgid target_tid epoll_syscalls pidns_info =
     (let probes = join newline (map (\<lambda>name. replace ''__EPOLL_SYSCALL__'' name EPOLL_PROBE_TEMPLATE) epoll_syscalls);
          source = replace ''__EPOLL_PROBES__'' probes raw_source;
          source = replace ''__THRESHOLD_NS__'' (str_of_int (threshold_ns threshold_ms)) source;
          source = replace ''__TARGET_TGID__'' (str_of_int target_tgid) source;
          source = replace ''__TARGET_TID__'' (str_of_int target_tid) source
      in case pidns_info of
           None \<Rightarrow> source
         | Some (dev, ino) \<Rightarrow>
             let source = ''#define __USE_NS_PID__'' @ newline @ source;
                 source = replace ''__PIDNS_DEV__'' (str_of_int dev) source
             in replace ''__PIDNS_INO__'' (str_of_int ino) source)"

section \<open>The target in its PID namespace\<close>

text \<open>Only the first \<open>NSpid\<close> line counts; an unreadable number is a \<open>ValueError\<close> here.\<close>

fun first_nspid :: "string list \<Rightarrow> int option result" where
  "first_nspid [] = Inr None"
| "first_nspid (line # lines) =
     (if startswith line ''NSpid:''
      then (let parts = split_ws line
            in if 2 \<le> length parts
               then (case py_int 10 (last parts) of Some p \<Rightarrow> Inr (Some p) | None \<Rightarrow> Inl ValueError)
               else Inr None)
      else first_nspid lines)"

definition resolve_target_ns_tgid :: "procfs \<Rightarrow> int \<Rightarrow> int result" where
  "resolve_target_ns_tgid fs host_pid =
     (case fs_lines fs (status_path host_pid) of
        None \<Rightarrow> Inr host_pid
      | Some lines \<Rightarrow> bind_result (first_nspid lines) (\<lambda>p. Inr (case p of Some q \<Rightarrow> q | None \<Rightarrow> host_pid)))"

definition resolve_target_ns_tid :: "procfs \<Rightarrow> int \<Rightarrow> int result" where
  "resolve_target_ns_tid fs host_tid = resolve_target_ns_tgid fs host_tid"

fun first_stat :: "procfs \<Rightarrow> string list \<Rightarrow> (int \<times> int) option" where
  "first_stat fs [] = None"
| "first_stat fs (path # paths) =
     (case fs_stat fs path of Some st \<Rightarrow> Some st | None \<Rightarrow> first_stat fs paths)"

definition get_pidns_info :: "procfs \<Rightarrow> int option \<Rightarrow> (int \<times> int) option" where
  "get_pidns_info fs target_pid =
     first_stat fs ((case target_pid of None \<Rightarrow> [] | Some p \<Rightarrow> [pid_ns_path p]) @ [''/proc/self/ns/pid''])"

section \<open>Kernel headers\<close>

text \<open>What \<open>_ensure_kernel_headers\<close> reads, and the links it decides to make; \<open>sorted\<close> on paths is
  the order of their strings.\<close>

record headers_env =
  he_release :: string
  he_machine :: string
  he_exists :: "string \<Rightarrow> bool"
  he_is_dir :: "string \<Rightarrow> bool"
  he_glob :: "string \<Rightarrow> string list"
  he_iterdir :: "string \<Rightarrow> string list"

datatype fs_action = Mkdir string | Symlink string string

definition ARCH_SUFFIXES :: "string list" where
  "ARCH_SUFFIXES = [''arm64'', ''amd64'', ''cloud-amd64'']"

definition machine_to_karch :: "string \<Rightarrow> string" where
  "machine_to_karch machine =
     dict_get_default [(''aarch64'', ''arm64''), (''x86_64'', ''x86'')] machine machine"

text \<open>\<open>sorted(glob(pattern))[0]\<close>, in the order of the code points.\<close>

definition first_match :: "headers_env \<Rightarrow> string \<Rightarrow> string option" where
  "first_match he pattern =
     (case he_glob he pattern of
        [] \<Rightarrow> None
      | m # ms \<Rightarrow> Some (fold min ms m))"

fun arch_headers_of :: "headers_env \<Rightarrow> string list \<Rightarrow> string option" where
  "arch_headers_of he [] = None"
| "arch_headers_of he (sfx # sfxs) =
     (case first_match he (''/usr/src/linux-headers-*-'' @ sfx) of
        Some m \<Rightarrow> Some m
      | None \<Rightarrow> arch_headers_of he sfxs)"

definition merge_common_headers :: "headers_env \<Rightarrow> string \<Rightarrow> string \<Rightarrow> fs_action list" where
  "merge_common_headers he arch_headers common_headers =
     (let include = common_headers @ ''/include'';
          subs = (if he_is_dir he include
                  then map (\<lambda>name. Symlink (arch_headers @ ''/include/'' @ name) (include @ ''/'' @ name))
                         (filter (\<lambda>name. \<not> he_exists he (arch_headers @ ''/include/'' @ name)) (he_iterdir he include))
                  else []);
          karch = machine_to_karch (he_machine he);
          asm_src = common_headers @ ''/arch/'' @ karch @ ''/include/asm'';
          asm_dst = arch_headers @ ''/include/asm'';
          uapi_asm_src = common_headers @ ''/arch/'' @ karch @ ''/include/uapi/asm'';
          uapi_asm_dst = arch_headers @ ''/include/uapi/asm''
      in subs
         @ (if he_is_dir he asm_src \<and> \<not> (he_exists he asm_dst \<or> Symlink asm_dst (include @ ''/asm'') \<in> set subs)
            then [Symlink asm_dst asm_src] else [])
         @ (if he_is_dir he uapi_asm_src \<and> \<not> he_exists he uapi_asm_dst
            then [Mkdir (arch_headers @ ''/include/uapi''), Symlink uapi_asm_dst uapi_asm_src] else []))"

definition ensure_kernel_headers :: "headers_env \<Rightarrow> fs_action list" where
  "ensure_kernel_headers he =
     (let build_dir = ''/lib/modules/'' @ he_release he @ ''/build'' in
      if he_is_dir he build_dir then []
      else let arch_headers = arch_headers_of he ARCH_SUFFIXES;
               common_headers = first_match he ''/usr/src/linux-headers-*-common''
           in case (arch_headers, common_headers) of
                (None, None) \<Rightarrow> []
              | (None, Some c) \<Rightarrow> [Mkdir (''/lib/modules/'' @ he_release he), Symlink build_dir c]
              | (Some a, None) \<Rightarrow> [Mkdir (''/lib/modules/'' @ he_release he), Symlink build_dir a]
              | (Some a, Some c) \<Rightarrow>
                  [Mkdir (''/lib/modules/'' @ he_release he), Symlink build_dir a] @ merge_common_headers he a c)"

section \<open>The detector\<close>

text \<open>The polling thread is absent, alive or dead. \<open>bd_delivered\<close> and \<open>bd_loss_calls\<close> record the
  calls of the callbacks. \<open>bd_poll_error\<close> is the text of the stored exception.\<close>

record bcc_detector =
  bd_config :: detector_config
  bd_loss_counts :: "(string, int) dict"
  bd_stop_event :: bool
  bd_thread :: "bool option"
  bd_bpf :: bool
  bd_poll_error :: "string option"
  bd_delivered :: "blocking_event list"
  bd_loss_calls :: "lost_event list"

definition BccDetector :: "detector_config \<Rightarrow> bcc_detector" where
  "BccDetector config =
     \<lparr>bd_config = config, bd_loss_counts = [], bd_stop_event = False, bd_thread = None, bd_bpf = False,
      bd_poll_error = None, bd_delivered = [], bd_loss_calls = []\<rparr>"

text \<open>What starting depends on: reading the program file, the probes that exist, procfs, preparing the
  headers, and compiling, attaching and starting the thread, which receive the program text.\<close>

record bcc_env =
  bn_read_source :: "string result"
  bn_isdir :: "string \<Rightarrow> bool"
  bn_procfs :: procfs
  bn_headers :: "exn option"
  bn_attach :: "string \<Rightarrow> exn option"

definition bcc_program :: "bcc_env \<Rightarrow> detector_config \<Rightarrow> string result" where
  "bcc_program env config =
     bind_result (bn_read_source env) (\<lambda>raw_source.
     bind_result (detect_epoll_syscalls (bn_isdir env)) (\<lambda>epoll_syscalls.
     bind_result (resolve_target_ns_tgid (bn_procfs env) (cfg_pid config)) (\<lambda>target_tgid.
     bind_result (case cfg_tid config of None \<Rightarrow> Inl AssertionError
                  | Some tid \<Rightarrow> resolve_target_ns_tid (bn_procfs env) tid) (\<lambda>target_tid.
       Inr (build_bpf_source raw_source (cfg_threshold_ms config) target_tgid target_tid epoll_syscalls
              (get_pidns_info (bn_procfs env) (Some (cfg_pid config))))))))"

definition bcc_start_inner :: "bcc_env \<Rightarrow> bcc_detector \<Rightarrow> bcc_detector \<times> exn option" where
  "bcc_start_inner env d =
     (if bd_thread d \<noteq> None then (d, None)
      else let d = d\<lparr>bd_loss_counts := [], bd_poll_error := None\<rparr> in
           case bcc_program env (bd_config d) of
             Inl e \<Rightarrow> (d, Some e)
           | Inr source \<Rightarrow>
               (case bn_headers env of
                  Some e \<Rightarrow> (d, Some e)
                | None \<Rightarrow>
                    (case bn_attach env source of
                       None \<Rightarrow> (d\<lparr>bd_bpf := True, bd_stop_event := False, bd_thread := Some True\<rparr>, None)
                     | Some e \<Rightarrow> if is_Exception e then (d\<lparr>bd_bpf := False, bd_thread := None\<rparr>, Some e)
                                 else (d, Some e))))"

text \<open>\<open>exn_text\<close> is \<open>str(exc)\<close>.\<close>

definition bcc_start :: "(exn \<Rightarrow> string) \<Rightarrow> bcc_env \<Rightarrow> bcc_detector \<Rightarrow> bcc_detector \<times> exn option" where
  "bcc_start exn_text env d =
     (case bcc_start_inner env d of
        (d', None) \<Rightarrow> (d', None)
      | (d', Some e) \<Rightarrow>
          (case e of
             BccDetectorError m \<Rightarrow> (d', Some (BccDetectorError m))
           | _ \<Rightarrow>
               if is_Exception e
               then (d'\<lparr>bd_bpf := False, bd_thread := None\<rparr>,
                     Some (BccDetectorError (''BCC failed to compile or attach its probes: '' @ exn_text e)))
               else (d', Some e)))"

definition bcc_stop :: "bcc_detector \<Rightarrow> bcc_detector" where
  "bcc_stop d = d\<lparr>bd_stop_event := True, bd_thread := None, bd_bpf := False\<rparr>"

definition bcc_check_health :: "bcc_detector \<Rightarrow> exn option" where
  "bcc_check_health d =
     (if bd_stop_event d then None
      else case bd_poll_error d of
             Some e \<Rightarrow> Some (BccDetectorError (''BCC perf buffer polling failed: '' @ e))
           | None \<Rightarrow>
               if bd_thread d = Some False
               then Some (BccDetectorError ''BCC perf buffer polling thread exited unexpectedly'')
               else None)"

section \<open>The polling thread\<close>

text \<open>A raw event as the perf buffer delivers it: two 64-bit and two 32-bit unsigned fields.\<close>

record raw_event =
  rw_start_ns :: nat
  rw_end_ns :: nat
  rw_pid :: nat
  rw_tid :: nat

definition bcc_handle_event :: "raw_event \<Rightarrow> bcc_detector \<Rightarrow> bcc_detector" where
  "bcc_handle_event r d =
     d\<lparr>bd_delivered := bd_delivered d @
        [\<lparr>start_ns = int (rw_start_ns r), end_ns = int (rw_end_ns r), ev_pid = int (rw_pid r),
          ev_tid = int (rw_tid r), python_stacks = []\<rparr>]\<rparr>"

definition bcc_lose :: "lost_event \<Rightarrow> bcc_detector \<Rightarrow> bcc_detector" where
  "bcc_lose l d = d\<lparr>bd_loss_counts := loss_add l (bd_loss_counts d)\<rparr>"

text \<open>The loss callback is optional; an \<open>Exception\<close> it raises is logged and dropped.\<close>

definition bcc_handle_lost :: "bool \<Rightarrow> int \<Rightarrow> bcc_detector \<Rightarrow> bcc_detector" where
  "bcc_handle_lost has_callback n d =
     (if n \<le> 0 then d
      else let event = \<lparr>lost_count = n, lost_source = ''perf_buffer''\<rparr>;
               d = bcc_lose event d
           in if has_callback then d\<lparr>bd_loss_calls := bd_loss_calls d @ [event]\<rparr> else d)"

datatype perf_record = Sample raw_event | Lost int

definition bcc_dispatch :: "bool \<Rightarrow> perf_record \<Rightarrow> bcc_detector \<Rightarrow> bcc_detector" where
  "bcc_dispatch has_callback r d =
     (case r of Sample e \<Rightarrow> bcc_handle_event e d | Lost n \<Rightarrow> bcc_handle_lost has_callback n d)"

text \<open>One call of \<open>perf_buffer_poll\<close>: the records it dispatches, whether the main thread sets the stop
  event meanwhile, and the exception it ends with, with its text.\<close>

record poll =
  pl_records :: "perf_record list"
  pl_stop :: bool
  pl_raises :: "(exn \<times> string) option"

text \<open>The loop ends when the stop event is set or a poll raises; a \<open>BaseException\<close> ends the thread
  without a stored error. With no polls left the loop is still running.\<close>

fun poll_loop :: "bool \<Rightarrow> poll list \<Rightarrow> bcc_detector \<Rightarrow> bcc_detector" where
  "poll_loop has_callback ps d =
     (if bd_stop_event d then d\<lparr>bd_thread := map_option (\<lambda>_. False) (bd_thread d)\<rparr>
      else case ps of
             [] \<Rightarrow> d
           | p # ps \<Rightarrow>
               let d = fold (bcc_dispatch has_callback) (pl_records p) d;
                   d = (if pl_stop p then d\<lparr>bd_stop_event := True\<rparr> else d)
               in case pl_raises p of
                    None \<Rightarrow> poll_loop has_callback ps d
                  | Some (e, msg) \<Rightarrow>
                      let d = d\<lparr>bd_thread := map_option (\<lambda>_. False) (bd_thread d)\<rparr>
                      in if is_Exception e \<and> \<not> bd_stop_event d then d\<lparr>bd_poll_error := Some msg\<rparr> else d)"

declare poll_loop.simps [simp del]

section \<open>Lemmas\<close>

interpretation bcc_ledger: loss_ledger bcc_lose bd_loss_counts
  by unfold_locales (simp add: bcc_lose_def)

text \<open>What the polls deliver, up to the one that ends the loop.\<close>

fun polled :: "bool \<Rightarrow> poll list \<Rightarrow> perf_record list" where
  "polled stopped [] = []"
| "polled stopped (p # ps) =
     (if stopped then []
      else pl_records p @ (if pl_raises p = None then polled (pl_stop p) ps else []))"

definition samples_of :: "perf_record list \<Rightarrow> raw_event list" where
  "samples_of rs = List.map_filter (\<lambda>r. case r of Sample e \<Rightarrow> Some e | Lost _ \<Rightarrow> None) rs"

definition lost_of :: "perf_record list \<Rightarrow> lost_event list" where
  "lost_of rs = List.map_filter (\<lambda>r. case r of Sample _ \<Rightarrow> None
     | Lost n \<Rightarrow> if n \<le> 0 then None else Some \<lparr>lost_count = n, lost_source = ''perf_buffer''\<rparr>) rs"

definition event_of_raw :: "raw_event \<Rightarrow> blocking_event" where
  "event_of_raw r = \<lparr>start_ns = int (rw_start_ns r), end_ns = int (rw_end_ns r), ev_pid = int (rw_pid r),
     ev_tid = int (rw_tid r), python_stacks = []\<rparr>"

lemma dispatch_all:
  "bd_delivered (fold (bcc_dispatch cb) rs d) = bd_delivered d @ map event_of_raw (samples_of rs)"
  "bd_loss_counts (fold (bcc_dispatch cb) rs d) = bd_loss_counts (fold bcc_lose (lost_of rs) d)"
  "bd_stop_event (fold (bcc_dispatch cb) rs d) = bd_stop_event d"
  "bd_thread (fold (bcc_dispatch cb) rs d) = bd_thread d"
  "bd_poll_error (fold (bcc_dispatch cb) rs d) = bd_poll_error d"
  by (induction rs arbitrary: d)
     (simp_all add: bcc_ledger.counts_all samples_of_def lost_of_def map_filter_simps bcc_dispatch_def
        bcc_handle_event_def bcc_handle_lost_def event_of_raw_def bcc_lose_def Let_def split: perf_record.split)

lemma samples_of_append [simp]: "samples_of (as @ bs) = samples_of as @ samples_of bs"
  by (simp add: samples_of_def map_filter_def)

lemma lost_of_append [simp]: "lost_of (as @ bs) = lost_of as @ lost_of bs"
  by (simp add: lost_of_def map_filter_def)

lemma poll_loop_run:
  "bd_delivered (poll_loop cb ps d) = bd_delivered d @ map event_of_raw (samples_of (polled (bd_stop_event d) ps)) \<and>
   bd_loss_counts (poll_loop cb ps d) = fold loss_add (lost_of (polled (bd_stop_event d) ps)) (bd_loss_counts d)"
proof (induction ps arbitrary: d)
  case Nil
  show ?case
    by (subst (1 2) poll_loop.simps) (simp add: samples_of_def lost_of_def map_filter_simps)
next
  case (Cons p ps)
  show ?case
  proof (cases "bd_stop_event d")
    case True
    then show ?thesis
      by (subst (1 2) poll_loop.simps) (simp add: samples_of_def lost_of_def map_filter_simps)
  next
    case False
    define d1 where "d1 = fold (bcc_dispatch cb) (pl_records p) d"
    define d2 where "d2 = (if pl_stop p then d1\<lparr>bd_stop_event := True\<rparr> else d1)"
    have d2: "bd_delivered d2 = bd_delivered d @ map event_of_raw (samples_of (pl_records p))"
      "bd_loss_counts d2 = fold loss_add (lost_of (pl_records p)) (bd_loss_counts d)"
      "bd_stop_event d2 = pl_stop p"
      using False by (simp_all add: d2_def d1_def dispatch_all bcc_ledger.counts_all)
    show ?thesis
    proof (cases "pl_raises p")
      case None
      then have "poll_loop cb (p # ps) d = poll_loop cb ps d2"
        using False by (subst poll_loop.simps) (simp add: Let_def d1_def d2_def)
      with Cons.IH [of d2] d2 None False show ?thesis
        by (simp add: fold_append)
    next
      case (Some et)
      obtain e msg where et: "et = (e, msg)"
        by fastforce
      have "poll_loop cb (p # ps) d =
          (let d = d2\<lparr>bd_thread := map_option (\<lambda>_. False) (bd_thread d2)\<rparr>
           in if is_Exception e \<and> \<not> bd_stop_event d then d\<lparr>bd_poll_error := Some msg\<rparr> else d)"
        using False Some by (subst poll_loop.simps) (simp add: Let_def d1_def d2_def et)
      with d2 False Some show ?thesis
        by (simp add: Let_def)
    qed
  qed
qed

end
