(* ===== verification/BccContract.thy ===== *)
theory BccContract
  imports Detector
begin

text \<open>
  What the BCC detector promises: the errors of starting, the delivered events and losses of the
  polling thread, and its health.
\<close>

section \<open>Starting\<close>

text \<open>Whatever fails while the program is assembled, compiled or attached, starting raises a
  \<open>BccDetectorError\<close>, unless it is one of the exceptions that are no \<open>Exception\<close>, and leaves neither
  a program nor a polling thread; a start that returns has both, and the thread is alive.\<close>

theorem bcc_start_normalised:
  assumes "bd_thread d = None" and "bcc_start exn_text env d = (d', r)"
  shows "(r = None \<longrightarrow> bd_thread d' = Some True \<and> bd_bpf d' \<and> bd_poll_error d' = None \<and>
        bcc_check_health d' = None) \<and>
    (\<forall>e. r = Some e \<longrightarrow> is_Exception e \<longrightarrow>
        (\<exists>m. e = BccDetectorError m) \<and> bd_thread d' = None)"
proof -
  obtain d1 r1 where inner: "bcc_start_inner env d = (d1, r1)"
    by fastforce
  show ?thesis
  proof (cases r1)
    case None
    then have "r = None" "d' = d1"
      using assms(2) inner by (simp_all add: bcc_start_def)
    moreover have "bd_thread d1 = Some True \<and> bd_bpf d1 \<and> bd_poll_error d1 = None \<and> \<not> bd_stop_event d1"
      using inner None assms(1)
      by (auto simp: bcc_start_inner_def Let_def split: sum.splits option.splits if_splits)
    ultimately show ?thesis
      by (simp add: bcc_check_health_def)
  next
    case (Some e)
    have th: "bd_thread d1 = None"
      using inner Some assms(1)
      by (auto simp: bcc_start_inner_def Let_def split: sum.splits option.splits if_splits)
    show ?thesis
      using assms(2) inner Some th by (cases e) (auto simp: bcc_start_def)
  qed
qed

definition idle_bcc :: bcc_detector where
  "idle_bcc = BccDetector (DetectorConfig 7 100 None 200)"

definition no_tracefs :: bcc_env where
  "no_tracefs = \<lparr>bn_read_source = Inr ''__EPOLL_PROBES__'', bn_isdir = (\<lambda>_. False),
     bn_procfs = \<lparr>fs_stat = (\<lambda>_. None), fs_lines = (\<lambda>_. None)\<rparr>, bn_headers = None, bn_attach = (\<lambda>_. None)\<rparr>"

lemma bcc_start_normalised_witness:
  "\<exists>d' m. bcc_start (\<lambda>_. ''x'') no_tracefs idle_bcc = (d', Some (BccDetectorError m)) \<and> bd_thread d' = None"
proof -
  have idle: "bd_thread idle_bcc = None"
    by (simp add: idle_bcc_def BccDetector_def)
  obtain d' e where st: "bcc_start (\<lambda>_. ''x'') no_tracefs idle_bcc = (d', Some e)" "is_Exception e"
    by (simp add: bcc_start_def bcc_start_inner_def idle bcc_program_def no_tracefs_def detect_epoll_syscalls_def
        Let_def)
  from bcc_start_normalised [OF idle st(1)] st show ?thesis
    by auto
qed

section \<open>Polling\<close>

text \<open>C38: The polling thread hands every sample it receives to the callback, in order and with the
  fields of the raw event, up to the poll that ends the loop; its ledger grows by exactly the
  positive loss counts it is told, and other counts are ignored.\<close>

theorem bcc_poll_loop_delivers:
  fixes cb ps d
  defines "d' \<equiv> poll_loop cb ps d" and "records \<equiv> polled (bd_stop_event d) ps"
  assumes "distinct (dict_keys (bd_loss_counts d))"
  shows "bd_delivered d' = bd_delivered d @ map event_of_raw (samples_of records) \<and>
    dict_get_default (bd_loss_counts d') src 0 =
      dict_get_default (bd_loss_counts d) src 0 + losses_from src (lost_of records) \<and>
    sum_list (dict_values (bd_loss_counts d')) =
      sum_list (dict_values (bd_loss_counts d)) + sum_list (map (max 0) (concat (map (\<lambda>r. case r of Lost n \<Rightarrow> [n] | _ \<Rightarrow> []) records)))"
proof -
  have "sum_list (map lost_count (lost_of rs)) =
      sum_list (map (max 0) (concat (map (\<lambda>r. case r of Lost n \<Rightarrow> [n] | _ \<Rightarrow> []) rs)))" for rs
    by (induction rs) (auto simp: lost_of_def map_filter_simps max_def split: perf_record.split)
  moreover have "bd_loss_counts d' = bd_loss_counts (fold bcc_lose (lost_of records) d)"
    using poll_loop_run [of cb ps d] by (simp add: d'_def records_def bcc_ledger.counts_all)
  ultimately show ?thesis
    using poll_loop_run [of cb ps d] bcc_ledger.count_by_source [of "lost_of records" d src]
      bcc_ledger.total_lost [OF assms(3), of "lost_of records"]
    by (simp add: d'_def records_def)
qed

lemma bcc_poll_loop_delivers_witness:
  "sum_list (dict_values (bd_loss_counts (poll_loop False
     [\<lparr>pl_records = [Lost 3, Lost (-1)], pl_stop = True, pl_raises = None\<rparr>] idle_bcc))) = 3"
proof -
  have "distinct (dict_keys (bd_loss_counts idle_bcc))" "bd_loss_counts idle_bcc = []" "\<not> bd_stop_event idle_bcc"
    by (simp_all add: idle_bcc_def BccDetector_def dict_keys_def)
  with bcc_poll_loop_delivers [OF this(1), of False "[\<lparr>pl_records = [Lost 3, Lost (-1)], pl_stop = True, pl_raises = None\<rparr>]"]
  show ?thesis
    by (simp add: dict_values_def)
qed

section \<open>Health\<close>

lemma poll_loop_raise:
  assumes "\<not> bd_stop_event d" and "pl_raises p = Some (e, msg)" and "\<not> pl_stop p"
  shows "bd_stop_event (poll_loop cb (p # ps) d) = False \<and>
    bd_thread (poll_loop cb (p # ps) d) = map_option (\<lambda>_. False) (bd_thread d) \<and>
    (is_Exception e \<longrightarrow> bd_poll_error (poll_loop cb (p # ps) d) = Some msg) \<and>
    (\<not> is_Exception e \<longrightarrow> bd_poll_error (poll_loop cb (p # ps) d) = bd_poll_error d)"
  using assms by (subst (1 2 3 4) poll_loop.simps) (simp add: Let_def dispatch_all)

text \<open>A poll that raises is never lost: as long as no stop was requested, the next health check
  raises, with the text of an \<open>Exception\<close> and otherwise because the thread is dead. Once the stop
  event is set, health checks are silent.\<close>

theorem bcc_failed_poll_unhealthy:
  assumes "\<not> bd_stop_event d" and "bd_thread d = Some True" and "bd_poll_error d = None"
    and "pl_raises p = Some (e, msg)" and "\<not> pl_stop p"
  shows "bcc_check_health (poll_loop cb (p # ps) d) =
      Some (BccDetectorError (if is_Exception e then ''BCC perf buffer polling failed: '' @ msg
              else ''BCC perf buffer polling thread exited unexpectedly'')) \<and>
    bcc_check_health (bcc_stop (poll_loop cb (p # ps) d)) = None"
  using poll_loop_raise [OF assms(1,4,5), of cb ps] assms(2,3)
  by (simp add: bcc_check_health_def bcc_stop_def)

lemma bcc_failed_poll_unhealthy_witness:
  "bcc_check_health (poll_loop False [\<lparr>pl_records = [], pl_stop = False, pl_raises = Some (OSError, ''gone'')\<rparr>]
     (idle_bcc\<lparr>bd_thread := Some True, bd_bpf := True\<rparr>)) =
   Some (BccDetectorError ''BCC perf buffer polling failed: gone'')"
  by (subst bcc_failed_poll_unhealthy [THEN conjunct1, of _ _ OSError "''gone''"])
     (simp_all add: idle_bcc_def BccDetector_def)

section \<open>The target in its namespace\<close>

text \<open>The BCC filter compares against the innermost id of the target, as the Core backend does,
  when the status file has an \<open>NSpid\<close> line, and against the host id when the file cannot be read or
  has no such line; the namespace is the target's, or blocksnoop's own when that is unreadable.\<close>

theorem bcc_target_identity:
  assumes "list_all (\<lambda>l. \<not> startswith l ''NSpid:'') before"
    and "pids \<noteq> []" and "list_all (\<lambda>p. \<bar>p\<bar> < 10 ^ max_str_digits) pids"
  shows "(fs_lines fs (status_path pid) = Some (before @ nspid_line pids # after) \<longrightarrow>
      resolve_target_ns_tgid fs pid = Inr (last pids)) \<and>
    (fs_lines fs (status_path pid) = None \<or> fs_lines fs (status_path pid) = Some before \<longrightarrow>
      resolve_target_ns_tgid fs pid = Inr pid) \<and>
    (get_pidns_info fs (Some pid) =
      (case fs_stat fs (pid_ns_path pid) of Some ns \<Rightarrow> Some ns | None \<Rightarrow> fs_stat fs ''/proc/self/ns/pid''))"
proof -
  have none: "first_nspid before = Inr None"
    using assms(1) by (induction before) simp_all
  have skip: "first_nspid (before @ nspid_line pids # after) = first_nspid (nspid_line pids # after)"
    using assms(1) by (induction before) simp_all
  have "py_int 10 (str_of_int (last pids)) = Some (last pids)"
    using assms(2,3) by (intro py_int_roundtrip) (simp add: list_all_iff)
  moreover have "last (split_ws (nspid_line pids)) = str_of_int (last pids)" "2 \<le> length (split_ws (nspid_line pids))"
    using assms(2) by (cases pids; simp add: split_ws_nspid_line last_map)+
  ultimately have "first_nspid (nspid_line pids # after) = Inr (Some (last pids))"
    by (simp add: Let_def)
  with none skip show ?thesis
    by (auto simp: resolve_target_ns_tgid_def get_pidns_info_def split: option.split)
qed

lemma bcc_target_identity_witness:
  "resolve_target_ns_tgid \<lparr>fs_stat = (\<lambda>_. None), fs_lines = (\<lambda>_. Some [nspid_line [1]])\<rparr> 4711 = Inr 1"
proof -
  have "(1 :: int) < 10 ^ max_str_digits"
    by (rule one_less_power) (simp_all add: max_str_digits_def)
  then show ?thesis
    by (intro bcc_target_identity [THEN conjunct1, rule_format, of "[]" "[1]" _ _ "[]", simplified]) simp_all
qed

end
