(* ===== verification/ArgParse.thy ===== *)
theory ArgParse
  imports PyStr
begin

text \<open>
  The part of the standard library's \<open>argparse\<close> that \<open>_parse_args\<close> of \<open>blocksnoop/cli.py\<close> uses, as in
  CPython 3.11.10 (later releases refuse an ambiguous abbreviation only when they reach it): options
  that store a value or a constant, \<open>--help\<close>, one optional positional argument, and a last one with
  \<open>nargs=REMAINDER\<close>. A parser works on a namespace \<open>'n\<close>; an action is the update it makes. Messages
  are not modelled, only the exit status: 2 for every error, 0 for \<open>--help\<close>.
\<close>

section \<open>Parsers\<close>

text \<open>A conversion of a value (\<open>type=\<close>, \<open>choices=\<close>) that fails gives \<open>None\<close>.\<close>

datatype 'n opt_action =
    Flag "'n \<Rightarrow> 'n"
  | Valued "string \<Rightarrow> 'n \<Rightarrow> 'n option"
  | ShowHelp

type_synonym 'n opt_table = "(string \<times> 'n opt_action) list"

record 'n arg_parser =
  ap_options :: "'n opt_table"
  ap_target :: "string \<Rightarrow> 'n \<Rightarrow> 'n"
  ap_remainder :: "(string list \<Rightarrow> 'n \<Rightarrow> 'n) option"

section \<open>Classifying the words\<close>

text \<open>\<open>Optional\<close> carries the action (\<open>None\<close>: an unknown option), the option string, whether a value was
  attached with an equals sign, and the attached value.\<close>

datatype 'n word_class =
    Positional
  | Dashes
  | Optional "'n opt_action option" string bool "string option"
  | Ambiguous

text \<open>\<open>^-\d+$|^-\d*\.\d+$\<close> on ASCII words; \<open>$\<close> also matches before a newline at the end.\<close>

definition ap_digit :: "char \<Rightarrow> bool" where
  "ap_digit c \<longleftrightarrow> c \<in> set ''0123456789''"

definition negative_number :: "string \<Rightarrow> bool" where
  "negative_number w =
     (case w of
        [] \<Rightarrow> False
      | c # r \<Rightarrow> c = CHR ''-'' \<and>
          (let r = (if r \<noteq> [] \<and> last r = CHR 0x0A then butlast r else r);
               whole = takeWhile ap_digit r;
               rest = dropWhile ap_digit r
           in whole \<noteq> [] \<and> rest = [] \<or>
              rest \<noteq> [] \<and> hd rest = CHR ''.'' \<and> tl rest \<noteq> [] \<and> list_all ap_digit (tl rest)))"

text \<open>\<open>_get_option_tuples\<close>: abbreviations of long options, and short options with an attached value.\<close>

definition option_tuples :: "'n opt_table \<Rightarrow> string \<Rightarrow> 'n word_class list" where
  "option_tuples tab w =
     (if startswith w ''--''
      then (case split_once (CHR ''='') w of (abbrev, attached) \<Rightarrow>
              map (\<lambda>(opt, a). Optional (Some a) opt (attached \<noteq> None) attached)
                (filter (\<lambda>(opt, a). startswith opt abbrev) tab))
      else concat (map (\<lambda>(opt, a).
              if opt = take 2 w then [Optional (Some a) opt False (Some (drop 2 w))]
              else if startswith opt w then [Optional (Some a) opt False None] else []) tab))"

text \<open>\<open>_parse_optional\<close>\<close>

definition classify :: "'n opt_table \<Rightarrow> string \<Rightarrow> 'n word_class" where
  "classify tab w =
     (if w = [] \<or> hd w \<noteq> CHR ''-'' then Positional
      else case map_of tab w of
             Some a \<Rightarrow> Optional (Some a) w False None
           | None \<Rightarrow>
               if length w = 1 then Positional
               else case split_once (CHR ''='') w of (opt, attached) \<Rightarrow>
                 case (attached, map_of tab opt) of
                   (Some v, Some a) \<Rightarrow> Optional (Some a) opt True (Some v)
                 | _ \<Rightarrow>
                     (case option_tuples tab w of
                        [] \<Rightarrow> if negative_number w \<or> CHR '' '' \<in> set w then Positional
                              else Optional None w False None
                      | [t] \<Rightarrow> t
                      | _ \<Rightarrow> Ambiguous))"

text \<open>Everything after the first \<open>--\<close> is an argument.\<close>

fun classify_words :: "'n opt_table \<Rightarrow> string list \<Rightarrow> (string \<times> 'n word_class) list" where
  "classify_words tab [] = []"
| "classify_words tab (w # ws) =
     (if w = ''--'' then (w, Dashes) # map (\<lambda>w. (w, Positional)) ws
      else (w, classify tab w) # classify_words tab ws)"

fun is_optional :: "'n word_class \<Rightarrow> bool" where
  "is_optional (Optional _ _ _ _) = True"
| "is_optional _ = False"

section \<open>Options\<close>

text \<open>A word with an attached value: the actions it stands for, in order, each with its value; what it
  leaves unrecognised; and the action that still needs the words that follow.\<close>

datatype 'n expansion =
    Rejected
  | Expansion "('n opt_action \<times> string option) list" "string list" "'n opt_action option"

fun add_action :: "'n opt_action \<times> string option \<Rightarrow> 'n expansion \<Rightarrow> 'n expansion" where
  "add_action a Rejected = Rejected"
| "add_action a (Expansion acts extras need) = Expansion (a # acts) extras need"

lemma length_tl_Cons: "tl xs = c # cs \<Longrightarrow> length xs = Suc (Suc (length cs))"
  by (cases xs) simp_all

function expand :: "'n opt_table \<Rightarrow> 'n opt_action \<Rightarrow> string \<Rightarrow> bool \<Rightarrow> string \<Rightarrow> 'n expansion" where
  "expand tab a opt eq attached =
     (case a of
        Valued f \<Rightarrow> Expansion [(a, Some attached)] [] None
      | _ \<Rightarrow>
          if opt ! 1 = CHR ''-'' \<or> attached = [] then Rejected
          else if eq \<or> hd attached = CHR ''-'' then Rejected
          else case map_of tab [CHR ''-'', hd attached] of
                 None \<Rightarrow> Expansion [(a, None)] [CHR ''-'' # attached] None
               | Some a' \<Rightarrow>
                   (case tl attached of
                      [] \<Rightarrow> Expansion [(a, None)] [] (Some a')
                    | c # cs \<Rightarrow> add_action (a, None)
                        (expand tab a' [CHR ''-'', hd attached] (c = CHR ''='')
                          (if c = CHR ''='' then cs else c # cs))))"
  by pat_completeness auto
termination
  by (relation "measure (\<lambda>(tab, a, opt, eq, attached). length attached)") (auto dest: length_tl_Cons)

declare expand.simps [simp del]

fun perform :: "('n opt_action \<times> string option) list \<Rightarrow> 'n \<Rightarrow> int + 'n" where
  "perform [] ns = Inr ns"
| "perform ((Flag f, v) # acts) ns = perform acts (f ns)"
| "perform ((Valued f, v) # acts) ns =
     (case f (case v of Some s \<Rightarrow> s | None \<Rightarrow> []) ns of None \<Rightarrow> Inl 2 | Some ns' \<Rightarrow> perform acts ns')"
| "perform ((ShowHelp, v) # acts) ns = Inl 0"

text \<open>\<open>consume_optional\<close>: the namespace, the unrecognised words and the number of following words used.\<close>

definition finish_option ::
  "('n opt_action \<times> string option) list \<Rightarrow> 'n opt_action \<Rightarrow> (string \<times> 'n word_class) list \<Rightarrow> 'n \<Rightarrow> int + 'n \<times> nat" where
  "finish_option acts a rest ns =
     (case a of
        Valued f \<Rightarrow>
          (case rest of
             (v, Positional) # _ \<Rightarrow>
               (case perform (acts @ [(a, Some v)]) ns of Inl status \<Rightarrow> Inl status | Inr ns' \<Rightarrow> Inr (ns', 1))
           | _ \<Rightarrow> Inl 2)
      | _ \<Rightarrow> (case perform (acts @ [(a, None)]) ns of Inl status \<Rightarrow> Inl status | Inr ns' \<Rightarrow> Inr (ns', 0)))"

definition consume_optional ::
  "'n opt_table \<Rightarrow> string \<times> 'n word_class \<Rightarrow> (string \<times> 'n word_class) list \<Rightarrow> 'n \<Rightarrow> int + 'n \<times> string list \<times> nat" where
  "consume_optional tab word rest ns =
     (case snd word of
        Optional None _ _ _ \<Rightarrow> Inr (ns, [fst word], 0)
      | Optional (Some a) opt eq None \<Rightarrow>
          (case finish_option [] a rest ns of Inl status \<Rightarrow> Inl status | Inr (ns', k) \<Rightarrow> Inr (ns', [], k))
      | Optional (Some a) opt eq (Some attached) \<Rightarrow>
          (case expand tab a opt eq attached of
             Rejected \<Rightarrow> Inl 2
           | Expansion acts extras None \<Rightarrow>
               (case perform acts ns of Inl status \<Rightarrow> Inl status | Inr ns' \<Rightarrow> Inr (ns', extras, 0))
           | Expansion acts extras (Some a') \<Rightarrow>
               (case finish_option acts a' rest ns of
                  Inl status \<Rightarrow> Inl status | Inr (ns', k) \<Rightarrow> Inr (ns', extras, k)))
      | _ \<Rightarrow> Inl 2)"

section \<open>Positional arguments\<close>

text \<open>\<open>(-*A?-*)\<close>, the pattern of the optional positional argument: how many words it matches.\<close>

fun is_dashes :: "'n word_class \<Rightarrow> bool" where
  "is_dashes Dashes = True"
| "is_dashes _ = False"

definition target_width :: "(string \<times> 'n word_class) list \<Rightarrow> nat" where
  "target_width ws =
     (let lead = length (takeWhile (\<lambda>w. is_dashes (snd w)) ws)
      in case drop lead ws of
           (v, Positional) # rest \<Rightarrow> Suc (lead + length (takeWhile (\<lambda>w. is_dashes (snd w)) rest))
         | _ \<Rightarrow> lead)"

text \<open>\<open>consume_positionals\<close> while both positionals are left; the first \<open>--\<close> of the target is removed, and the
  remainder takes all the words that follow.\<close>

definition consume_positionals :: "'n arg_parser \<Rightarrow> (string \<times> 'n word_class) list \<Rightarrow> 'n \<Rightarrow> 'n \<times> nat" where
  "consume_positionals p ws ns =
     (let n = target_width ws;
          ns = (case remove1 ''--'' (map fst (take n ws)) of v # _ \<Rightarrow> ap_target p v ns | [] \<Rightarrow> ns)
      in case ap_remainder p of
           None \<Rightarrow> (ns, n)
         | Some f \<Rightarrow> (f (map fst (drop n ws)) ns, length ws))"

section \<open>Parsing\<close>

text \<open>The loop of \<open>_parse_known_args\<close>; \<open>left\<close> tells whether the positionals are still to be consumed. The
  result carries the words nothing recognised.\<close>

function parse_words ::
  "'n arg_parser \<Rightarrow> bool \<Rightarrow> 'n \<Rightarrow> string list \<Rightarrow> (string \<times> 'n word_class) list \<Rightarrow> int + 'n \<times> string list" where
  "parse_words p left ns extras ws =
     (if \<not> list_ex (\<lambda>w. is_optional (snd w)) ws
      then (let (ns', n) = (if left then consume_positionals p ws ns else (ns, 0))
            in Inr (ns', extras @ map fst (drop n ws)))
      else case ws of
             [] \<Rightarrow> Inr (ns, extras)
           | w # rest \<Rightarrow>
               if is_optional (snd w)
               then (case consume_optional (ap_options p) w rest ns of
                       Inl status \<Rightarrow> Inl status
                     | Inr (ns', new, k) \<Rightarrow> parse_words p left ns' (extras @ new) (drop k rest))
               else (let (ns', n) = (if left then consume_positionals p ws ns else (ns, 0))
                     in if 0 < n then parse_words p False ns' extras (drop n ws)
                        else parse_words p left ns (extras @ map fst (takeWhile (\<lambda>w. \<not> is_optional (snd w)) ws))
                               (dropWhile (\<lambda>w. \<not> is_optional (snd w)) ws)))"
  by pat_completeness auto
termination
  by (relation "measure (\<lambda>(p, left, ns, extras, ws). length ws)")
     (auto intro: le_less_trans [OF length_dropWhile_le])

declare parse_words.simps [simp del]

definition parse_args :: "'n arg_parser \<Rightarrow> 'n \<Rightarrow> string list \<Rightarrow> int + 'n" where
  "parse_args p ns args =
     (let ws = classify_words (ap_options p) args
      in if list_ex (\<lambda>w. case snd w of Ambiguous \<Rightarrow> True | _ \<Rightarrow> False) ws then Inl 2
         else case parse_words p True ns [] ws of
                Inl status \<Rightarrow> Inl status
              | Inr (ns', extras) \<Rightarrow> if extras = [] then Inr ns' else Inl 2)"

section \<open>Words that are options\<close>

text \<open>\<open>plain_word tab w (a, v)\<close>: the word is the option of action \<open>a\<close>, carrying the value \<open>v\<close> when \<open>a\<close> takes one.\<close>

definition plain_word :: "'n opt_table \<Rightarrow> string \<Rightarrow> 'n opt_action \<times> string option \<Rightarrow> bool" where
  "plain_word tab w av \<longleftrightarrow>
     w \<noteq> ''--'' \<and> (\<exists>opt. classify tab w = Optional (Some (fst av)) opt (snd av \<noteq> None) (snd av)) \<and>
     (case fst av of Valued _ \<Rightarrow> snd av \<noteq> None | _ \<Rightarrow> snd av = None)"

text \<open>\<open>reads tab ws ns ns'\<close>: the words \<open>ws\<close> are options and turn the namespace \<open>ns\<close> into \<open>ns'\<close>.\<close>

definition reads :: "'n opt_table \<Rightarrow> string list \<Rightarrow> 'n \<Rightarrow> 'n \<Rightarrow> bool" where
  "reads tab ws ns ns' \<longleftrightarrow> (\<exists>acts. list_all2 (plain_word tab) ws acts \<and> perform acts ns = Inr ns')"

lemma perform_append:
  "perform (xs @ ys) ns = (case perform xs ns of Inl status \<Rightarrow> Inl status | Inr ns' \<Rightarrow> perform ys ns')"
  by (induction xs ns rule: perform.induct) (auto split: option.splits)

lemma reads_Nil [simp]: "reads tab [] ns ns' \<longleftrightarrow> ns' = ns"
  by (auto simp: reads_def)

lemma reads_append: "reads tab xs ns n1 \<Longrightarrow> reads tab ys n1 n2 \<Longrightarrow> reads tab (xs @ ys) ns n2"
  unfolding reads_def by (metis (no_types, lifting) list_all2_appendI perform_append sum.simps(6))

lemma reads_flag:
  assumes "map_of tab w = Some (Flag f)" and "w \<noteq> []" "hd w = CHR ''-''" "w \<noteq> ''--''"
  shows "reads tab [w] ns (f ns)"
  unfolding reads_def
  by (rule exI [of _ "[(Flag f, None)]"]) (use assms in \<open>simp add: plain_word_def classify_def\<close>)

lemma split_once_append: "c \<notin> set s \<Longrightarrow> split_once c (s @ c # t) = (s, Some t)"
  by (induction s) (auto simp: split_once_def split: if_splits)

lemma classify_attached:
  assumes "map_of tab opt = Some a" and "list_all (\<lambda>(opt, a). CHR ''='' \<notin> set opt) tab"
    and "opt \<noteq> []" "hd opt = CHR ''-''"
  shows "classify tab (opt @ CHR ''='' # v) = Optional (Some a) opt True (Some v)"
proof -
  have all: "CHR ''='' \<notin> set o'" if "map_of tab o' = Some a'" for o' a'
    using map_of_SomeD [OF that] assms(2) by (auto simp: list_all_iff)
  then have "map_of tab (opt @ CHR ''='' # v) = None"
    by (cases "map_of tab (opt @ CHR ''='' # v)") fastforce+
  moreover have "length (opt @ CHR ''='' # v) \<noteq> 1"
    using assms(3) by (cases opt) auto
  ultimately show ?thesis
    using all [OF assms(1)] assms(1,3,4) by (simp add: classify_def split_once_append)
qed

lemma reads_value:
  assumes "map_of tab opt = Some (Valued f)" and "list_all (\<lambda>(opt, a). CHR ''='' \<notin> set opt) tab"
    and "opt \<noteq> []" "hd opt = CHR ''-''" and "f v ns = Some ns'"
  shows "reads tab [opt @ CHR ''='' # v] ns ns'"
proof -
  have "opt @ CHR ''='' # v \<noteq> ''--''"
    by (auto simp: append_eq_Cons_conv)
  then show ?thesis
    unfolding reads_def
    by (intro exI [of _ "[(Valued f, Some v)]"])
      (simp add: plain_word_def classify_attached [OF assms(1-4)] assms(5))
qed

definition classified :: "'n opt_table \<Rightarrow> string list \<Rightarrow> (string \<times> 'n word_class) list" where
  "classified tab ws = map (\<lambda>w. (w, classify tab w)) ws"

lemma classify_words_append:
  "''--'' \<notin> set ws \<Longrightarrow> classify_words tab (ws @ rest) = classified tab ws @ classify_words tab rest"
  by (induction ws) (auto simp: classified_def)

lemma plain_word_optional: "plain_word tab w av \<Longrightarrow> is_optional (classify tab w)"
  by (auto simp: plain_word_def)

lemma consume_plain:
  assumes "plain_word tab w av"
  shows "consume_optional tab (w, classify tab w) rest ns =
    (case perform [av] ns of Inl status \<Rightarrow> Inl status | Inr ns' \<Rightarrow> Inr (ns', [], 0))"
proof (cases av)
  case (Pair a v)
  with assms obtain opt where opt: "classify tab w = Optional (Some a) opt (v \<noteq> None) v"
    by (auto simp: plain_word_def)
  show ?thesis
    using assms Pair
    by (cases a; cases v)
      (auto simp: plain_word_def consume_optional_def opt finish_option_def expand.simps split: option.splits)
qed

lemma parse_plain:
  assumes "list_all2 (plain_word (ap_options p)) ws acts"
  shows "parse_words p left ns extras (classified (ap_options p) ws @ rest) =
    (case perform acts ns of Inl status \<Rightarrow> Inl status | Inr ns' \<Rightarrow> parse_words p left ns' extras rest)"
  using assms
proof (induction ws acts arbitrary: ns rule: list_all2_induct)
  case (Cons w ws av acts)
  have "parse_words p left ns extras (classified (ap_options p) (w # ws) @ rest) =
      (case perform [av] ns of Inl status \<Rightarrow> Inl status
       | Inr ns' \<Rightarrow> parse_words p left ns' extras (classified (ap_options p) ws @ rest))"
    using plain_word_optional [OF Cons.hyps(1)]
    by (subst parse_words.simps) (simp add: classified_def consume_plain [OF Cons.hyps(1)] split: sum.splits)
  then show ?case
    by (simp add: Cons.IH perform_append [of "[av]" acts, simplified] split: sum.splits)
qed (simp add: classified_def)

lemma parse_reads:
  assumes "reads (ap_options p) ws ns ns'"
  shows "parse_words p left ns extras (classified (ap_options p) ws @ rest) = parse_words p left ns' extras rest"
  using assms unfolding reads_def by (metis parse_plain sum.simps(6))

lemma reads_no_dashes: "reads tab ws ns ns' \<Longrightarrow> ''--'' \<notin> set ws"
  unfolding reads_def by (auto simp: list_all2_conv_all_nth in_set_conv_nth plain_word_def)

fun is_ambiguous :: "'n word_class \<Rightarrow> bool" where
  "is_ambiguous Ambiguous = True"
| "is_ambiguous _ = False"

lemma is_ambiguous_case: "(case c of Ambiguous \<Rightarrow> True | _ \<Rightarrow> False) = is_ambiguous c"
  by (cases c) auto

lemma reads_not_ambiguous: "reads tab ws ns ns' \<Longrightarrow> w \<in> set ws \<Longrightarrow> \<not> is_ambiguous (classify tab w)"
  unfolding reads_def list_all2_conv_all_nth in_set_conv_nth plain_word_def
  by (elim exE conjE) (metis is_ambiguous.simps(4))

text \<open>Options that are read first change only the namespace the rest is parsed with.\<close>

lemma parse_args_reads:
  assumes "reads (ap_options p) ws ns ns'"
  shows "parse_args p ns (ws @ rest) = parse_args p ns' rest"
  using reads_not_ambiguous [OF assms] parse_reads [OF assms]
  by (auto simp: parse_args_def is_ambiguous_case classify_words_append [OF reads_no_dashes [OF assms]]
      classified_def list_ex_iff Let_def)

section \<open>Words that are arguments\<close>

lemma map_fst_classify_words [simp]: "map fst (classify_words tab ws) = ws"
  by (induction ws) (simp_all add: comp_def)

lemma length_classify_words [simp]: "length (classify_words tab ws) = length ws"
  by (metis length_map map_fst_classify_words)

lemma parse_nothing:
  "parse_args p ns [] = Inr (case ap_remainder p of None \<Rightarrow> ns | Some f \<Rightarrow> f [] ns)"
  by (simp add: parse_args_def parse_words.simps consume_positionals_def target_width_def split: option.split)

lemma no_leading_dashes [simp]:
  "takeWhile (\<lambda>w. is_dashes (snd w)) (map (\<lambda>w. (w, Positional)) ws) = []"
  by (cases ws) simp_all

lemma option_tuples_optional: "t \<in> set (option_tuples tab w) \<Longrightarrow> is_optional t"
  by (auto simp: option_tuples_def split: if_splits prod.splits)

lemma classify_cases:
  "classify tab w \<in> {Positional, Ambiguous} \<or> is_optional (classify tab w)"
proof (cases "option_tuples tab w")
  case Nil
  then show ?thesis
    by (simp add: classify_def Let_def split: option.split prod.split)
next
  case (Cons t ts)
  then have "is_optional t"
    using option_tuples_optional [of t tab w] by simp
  with Cons show ?thesis
    by (cases ts) (simp_all add: classify_def Let_def split: option.split prod.split)
qed

lemma classify_not_dashes: "\<not> is_dashes (classify tab w)"
  using classify_cases [of tab w] by (cases "classify tab w") simp_all

text \<open>After \<open>--\<close> every word is an argument: the first one is the target, the others are the remainder.\<close>

lemma parse_separated:
  assumes "ap_remainder p = Some f"
  shows "parse_args p ns (''--'' # target # rest) = Inr (f rest (ap_target p target ns))"
  using assms
  by (simp add: parse_args_def parse_words.simps consume_positionals_def target_width_def list_ex_iff comp_def)

text \<open>The target without a separator ends the options: whatever follows is the remainder.\<close>

lemma parse_target:
  assumes "ap_remainder p = Some f" and "classify (ap_options p) target = Positional" "target \<noteq> ''--''"
    and "rest = [] \<or> hd rest \<noteq> ''--''"
    and "\<not> list_ex (\<lambda>w. is_ambiguous (snd w)) (classify_words (ap_options p) rest)"
  shows "parse_args p ns (target # rest) = Inr (f rest (ap_target p target ns))"
proof -
  let ?ws = "classify_words (ap_options p) rest"
  have "takeWhile (\<lambda>w. is_dashes (snd w)) ?ws = []"
  proof (cases rest)
    case (Cons w ws)
    then have "w \<noteq> ''--''" using assms(4) by simp
    then show ?thesis by (simp add: Cons classify_not_dashes)
  qed simp
  then have "consume_positionals p ((target, Positional) # ?ws) ns =
      (f rest (ap_target p target ns), Suc (length rest))"
    using assms(1,3) by (simp add: consume_positionals_def target_width_def)
  then show ?thesis
    using assms(2,3,5)
    by (simp add: parse_args_def is_ambiguous_case Let_def parse_words.simps [of p _ _ _ "_ # _"] parse_words.simps [of p _ _ _ "[]"])
qed

text \<open>Without a remainder the options may stand on either side of the target.\<close>

lemma parse_target_reads:
  assumes "ap_remainder p = None" and "classify (ap_options p) target = Positional" "target \<noteq> ''--''"
    and "reads (ap_options p) ws (ap_target p target ns) ns'"
  shows "parse_args p ns (target # ws) = Inr ns'"
proof -
  let ?ws = "classified (ap_options p) ws"
  have cw: "classify_words (ap_options p) ws = ?ws"
    using classify_words_append [OF reads_no_dashes [OF assms(4)], of "ap_options p" "[]"] by simp
  have "takeWhile (\<lambda>w. is_dashes (snd w)) ?ws = []"
  proof (cases ws)
    case (Cons w ws')
    then obtain av where "plain_word (ap_options p) w av"
      using assms(4) by (auto simp: reads_def list_all2_Cons1)
    then show ?thesis
      using Cons by (auto simp: classified_def plain_word_def)
  qed (simp add: classified_def)
  then have cp: "consume_positionals p ((target, Positional) # ?ws) ns = (ap_target p target ns, 1)"
    using assms(1,3) by (simp add: consume_positionals_def target_width_def)
  have empty: "parse_words p left n extras [] = Inr (n, extras)" if "left = False" for left n extras
    using that by (simp add: parse_words.simps)
  have fin: "parse_words p False (ap_target p target ns) [] ?ws = Inr (ns', [])"
    using parse_reads [OF assms(4), of False "[]" "[]"] by (simp add: empty)
  have "parse_words p True ns [] ((target, Positional) # ?ws) = Inr (ns', [])"
  proof (cases "list_ex (\<lambda>w. is_optional (snd w)) ?ws")
    case True
    then show ?thesis
      by (subst parse_words.simps) (simp add: cp fin)
  next
    case False
    with fin have "ns' = ap_target p target ns" "?ws = []"
      by (simp_all add: parse_words.simps [of p False] classified_def)
    with False cp show ?thesis
      by (subst parse_words.simps) simp
  qed
  moreover have "\<not> list_ex (\<lambda>w. is_ambiguous (snd w)) ?ws"
    using reads_not_ambiguous [OF assms(4)] by (auto simp: classified_def list_ex_iff)
  ultimately show ?thesis
    using assms(2,3) by (simp add: parse_args_def is_ambiguous_case cw)
qed

section \<open>What every parse guarantees\<close>

text \<open>A property of namespaces that every action of the parser keeps.\<close>

fun action_keeps :: "('n \<Rightarrow> bool) \<Rightarrow> 'n opt_action \<Rightarrow> bool" where
  "action_keeps I (Flag f) = (\<forall>ns. I ns \<longrightarrow> I (f ns))"
| "action_keeps I (Valued f) = (\<forall>v ns ns'. I ns \<longrightarrow> f v ns = Some ns' \<longrightarrow> I ns')"
| "action_keeps I ShowHelp = True"

definition parser_keeps :: "('n \<Rightarrow> bool) \<Rightarrow> 'n arg_parser \<Rightarrow> bool" where
  "parser_keeps I p \<longleftrightarrow> list_all (\<lambda>(opt, a). action_keeps I a) (ap_options p) \<and>
     (\<forall>t ns. I ns \<longrightarrow> I (ap_target p t ns)) \<and>
     (\<forall>f ws ns. ap_remainder p = Some f \<longrightarrow> I ns \<longrightarrow> I (f ws ns))"

text \<open>The action a word was classified with keeps \<open>I\<close>.\<close>

fun class_keeps :: "('n \<Rightarrow> bool) \<Rightarrow> 'n word_class \<Rightarrow> bool" where
  "class_keeps I (Optional (Some a) _ _ _) = action_keeps I a"
| "class_keeps I _ = True"


lemma map_of_keeps:
  "list_all (\<lambda>(opt, a). action_keeps I a) tab \<Longrightarrow> map_of tab opt = Some a \<Longrightarrow> action_keeps I a"
  by (drule map_of_SomeD) (auto simp: list_all_iff)

lemma option_tuples_keeps:
  "list_all (\<lambda>(opt, a). action_keeps I a) tab \<Longrightarrow> t \<in> set (option_tuples tab w) \<Longrightarrow> class_keeps I t"
  by (auto simp: option_tuples_def list_all_iff split: if_splits prod.splits)

lemma classify_keeps:
  assumes "list_all (\<lambda>(opt, a). action_keeps I a) tab"
  shows "class_keeps I (classify tab w)"
proof (cases "option_tuples tab w")
  case Nil
  then show ?thesis
    using map_of_keeps [OF assms] by (auto simp: classify_def Let_def split: option.split prod.split)
next
  case (Cons t ts)
  then have "class_keeps I t"
    using option_tuples_keeps [OF assms, of t w] by simp
  with Cons show ?thesis
    using map_of_keeps [OF assms] by (cases ts) (auto simp: classify_def Let_def split: option.split prod.split)
qed

lemma classify_words_keeps:
  "list_all (\<lambda>(opt, a). action_keeps I a) tab \<Longrightarrow>
   list_all (\<lambda>w. class_keeps I (snd w)) (classify_words tab ws)"
  by (induction ws) (auto simp: classify_keeps list_all_iff)

lemma perform_keeps:
  "perform acts ns = Inr ns' \<Longrightarrow> list_all (\<lambda>(a, v). action_keeps I a) acts \<Longrightarrow> I ns \<Longrightarrow> I ns'"
proof (induction acts ns rule: perform.induct)
  case (3 f v acts ns)
  then show ?case
    by (cases "f (case v of Some s \<Rightarrow> s | None \<Rightarrow> []) ns") auto
qed auto

fun expansion_keeps :: "('n \<Rightarrow> bool) \<Rightarrow> 'n expansion \<Rightarrow> bool" where
  "expansion_keeps I Rejected = True"
| "expansion_keeps I (Expansion acts extras need) =
     (list_all (\<lambda>(a, v). action_keeps I a) acts \<and> (\<forall>a. need = Some a \<longrightarrow> action_keeps I a))"

lemma add_action_keeps: "action_keeps I (fst av) \<Longrightarrow> expansion_keeps I e \<Longrightarrow> expansion_keeps I (add_action av e)"
  by (cases e) auto

lemma expand_keeps:
  assumes "list_all (\<lambda>(opt, a). action_keeps I a) tab" and "action_keeps I a"
  shows "expansion_keeps I (expand tab a opt eq attached)"
  using assms(2)
proof (induction "length attached" arbitrary: a opt eq attached rule: less_induct)
  case less
  show ?case
  proof (cases "map_of tab [CHR ''-'', hd attached]")
    case None
    then show ?thesis
      using less.prems by (subst expand.simps) (auto split: opt_action.split)
  next
    case (Some a')
    have "expansion_keeps I (expand tab a' opt' eq' rest)" if "length rest < length attached" for opt' eq' rest
      by (rule less.hyps [OF that map_of_keeps [OF assms(1) Some]])
    then show ?thesis
      using less.prems Some map_of_keeps [OF assms(1) Some]
      by (subst expand.simps) (auto split: opt_action.split list.split intro!: add_action_keeps dest: length_tl_Cons)
  qed
qed

lemma finish_option_keeps:
  assumes "finish_option acts a rest ns = Inr (ns', k)"
    and "list_all (\<lambda>(a, v). action_keeps I a) acts" "action_keeps I a" "I ns"
  shows "I ns'"
proof -
  obtain v where "perform (acts @ [(a, v)]) ns = Inr ns'"
    using assms(1) by (auto simp: finish_option_def split: opt_action.splits list.splits prod.splits
        word_class.splits sum.splits)
  then show ?thesis
    by (rule perform_keeps) (use assms in auto)
qed

lemma consume_optional_keeps:
  assumes "consume_optional tab w rest ns = Inr (ns', new, k)"
    and "list_all (\<lambda>(opt, a). action_keeps I a) tab" "class_keeps I (snd w)" "I ns"
  shows "I ns'"
proof (cases "snd w")
  case (Optional act opt eq attached)
  show ?thesis
  proof (cases act)
    case None
    then show ?thesis using assms(1,4) Optional by (simp add: consume_optional_def)
  next
    case (Some a)
    then have a: "action_keeps I a"
      using assms(3) Optional by simp
    show ?thesis
    proof (cases attached)
      case None
      then obtain j where "finish_option [] a rest ns = Inr (ns', j)"
        using assms(1) Optional Some by (auto simp: consume_optional_def split: sum.splits)
      then show ?thesis
        by (rule finish_option_keeps) (use a assms(4) in auto)
    next
      case (Some v)
      with \<open>act = Some a\<close> Optional assms(1) obtain acts extras need
        where e: "expand tab a opt eq v = Expansion acts extras need"
        by (cases "expand tab a opt eq v") (auto simp: consume_optional_def)
      have k: "list_all (\<lambda>(a, v). action_keeps I a) acts" "\<And>a. need = Some a \<Longrightarrow> action_keeps I a"
        using expand_keeps [OF assms(2) a, of opt eq v] by (auto simp: e)
      show ?thesis
      proof (cases need)
        case None
        then have "perform acts ns = Inr ns'"
          using assms(1) Optional Some \<open>act = Some a\<close> by (auto simp: consume_optional_def e split: sum.splits)
        then show ?thesis
          by (rule perform_keeps) (use k assms(4) in auto)
      next
        case (Some a')
        then obtain j where "finish_option acts a' rest ns = Inr (ns', j)"
          using assms(1) Optional \<open>attached = Some v\<close> \<open>act = Some a\<close>
          by (auto simp: consume_optional_def e split: sum.splits)
        then show ?thesis
          by (rule finish_option_keeps) (use k Some assms(4) in auto)
      qed
    qed
  qed
qed (use assms in \<open>simp_all add: consume_optional_def\<close>)

lemma consume_positionals_keeps:
  assumes "consume_positionals p ws ns = (ns', n)" and "parser_keeps I p" and "I ns"
  shows "I ns'"
  using assms by (auto simp: consume_positionals_def parser_keeps_def Let_def split: option.splits list.splits)

lemma list_all_drop: "list_all P xs \<Longrightarrow> list_all P (drop k xs)"
  by (meson in_set_dropD list_all_iff)

text \<open>An induction rule that follows the loop: its \<open>r\<close> is the final result.\<close>

lemma parse_words_rule:
  assumes finish: "\<And>ns extras ws n1 n. n1 = ns \<or> consume_positionals p ws ns = (n1, n) \<Longrightarrow>
      P ns extras ws (Inr (n1, extras @ map fst (drop n ws)))"
    and failed: "\<And>ns extras w rest status. consume_optional (ap_options p) w rest ns = Inl status \<Longrightarrow>
      P ns extras (w # rest) (Inl status)"
    and option: "\<And>ns extras w rest n1 new k r. consume_optional (ap_options p) w rest ns = Inr (n1, new, k) \<Longrightarrow>
      P n1 (extras @ new) (drop k rest) r \<Longrightarrow> P ns extras (w # rest) r"
    and target: "\<And>ns extras ws n1 n r. consume_positionals p ws ns = (n1, n) \<Longrightarrow>
      P n1 extras (drop n ws) r \<Longrightarrow> P ns extras ws r"
    and skip: "\<And>ns extras ws r. P ns (extras @ map fst (takeWhile (\<lambda>w. \<not> is_optional (snd w)) ws))
      (dropWhile (\<lambda>w. \<not> is_optional (snd w)) ws) r \<Longrightarrow> P ns extras ws r"
  shows "P ns extras ws (parse_words p left ns extras ws)"
proof (induction "length ws" arbitrary: left ns extras ws rule: less_induct)
  case less
  obtain n1 n where p1: "(if left then consume_positionals p ws ns else (ns, 0)) = (n1, n)"
    by fastforce
  show ?case
  proof (cases "list_ex (\<lambda>w. is_optional (snd w)) ws")
    case False
    moreover have "n1 = ns \<or> consume_positionals p ws ns = (n1, n)"
      using p1 by (auto split: if_splits)
    ultimately show ?thesis
      using finish by (subst parse_words.simps) (simp add: p1)
  next
    case True
    then obtain w rest where ws: "ws = w # rest"
      by (cases ws) auto
    show ?thesis
    proof (cases "is_optional (snd w)")
      case opt: True
      show ?thesis
      proof (cases "consume_optional (ap_options p) w rest ns")
        case (Inl status)
        then show ?thesis
          using opt ws failed by (subst parse_words.simps) simp
      next
        case (Inr res)
        then obtain n2 new k where c: "consume_optional (ap_options p) w rest ns = Inr (n2, new, k)"
          by (cases res) auto
        have "P n2 (extras @ new) (drop k rest) (parse_words p left n2 (extras @ new) (drop k rest))"
          by (rule less.hyps) (simp add: ws)
        from option [OF c this] show ?thesis
          using opt ws c by (subst parse_words.simps) simp
      qed
    next
      case not_opt: False
      show ?thesis
      proof (cases "0 < n")
        case pos: True
        then have c: "consume_positionals p ws ns = (n1, n)"
          using p1 by (auto split: if_splits)
        have "P n1 extras (drop n ws) (parse_words p False n1 extras (drop n ws))"
          by (rule less.hyps) (use pos ws in simp)
        from target [OF c this] show ?thesis
          using True not_opt ws pos p1 by (subst parse_words.simps) simp
      next
        case stuck: False
        have "length (dropWhile (\<lambda>w. \<not> is_optional (snd w)) ws) < length ws"
          using ws not_opt by (simp add: le_imp_less_Suc length_dropWhile_le)
        from skip [OF less.hyps [OF this]] show ?thesis
          using True not_opt ws stuck p1 by (subst parse_words.simps) simp
      qed
    qed
  qed
qed

lemma parse_words_keeps:
  assumes "parser_keeps I p" "list_all (\<lambda>w. class_keeps I (snd w)) ws" "I ns"
  shows "case parse_words p left ns extras ws of Inl _ \<Rightarrow> True | Inr (ns', _) \<Rightarrow> I ns'"
proof -
  have tab: "list_all (\<lambda>(opt, a). action_keeps I a) (ap_options p)"
    using assms(1) by (simp add: parser_keeps_def)
  have "list_all (\<lambda>w. class_keeps I (snd w)) ws \<longrightarrow> I ns \<longrightarrow>
      (case parse_words p left ns extras ws of Inl _ \<Rightarrow> True | Inr (ns', _) \<Rightarrow> I ns')"
  proof (rule parse_words_rule [where P = "\<lambda>ns extras ws r. list_all (\<lambda>w. class_keeps I (snd w)) ws \<longrightarrow>
      I ns \<longrightarrow> (case r of Inl _ \<Rightarrow> True | Inr (ns', _) \<Rightarrow> I ns')"], goal_cases)
    case (1 ns extras ws n1 n)
    then show ?case
      using consume_positionals_keeps [OF _ assms(1)] by auto
  next
    case (3 ns extras w rest n1 new k r)
    then show ?case
      using consume_optional_keeps [OF _ tab] by (auto simp: list_all_drop)
  next
    case (4 ns extras ws n1 n r)
    then show ?case
      using consume_positionals_keeps [OF _ assms(1)] by (auto simp: list_all_drop)
  next
    case (5 ns extras ws r)
    then show ?case
      by (auto simp: list_all_iff dest: set_dropWhileD)
  qed simp
  with assms(2,3) show ?thesis by blast
qed

theorem parse_args_keeps:
  assumes "parse_args p ns args = Inr ns'" and "parser_keeps I p" and "I ns"
  shows "I ns'"
proof -
  let ?ws = "classify_words (ap_options p) args"
  have "parse_words p True ns [] ?ws = Inr (ns', [])"
    using assms(1) by (auto simp: parse_args_def Let_def split: if_splits sum.splits)
  moreover have "list_all (\<lambda>w. class_keeps I (snd w)) ?ws"
    using assms(2) by (intro classify_words_keeps) (simp add: parser_keeps_def)
  ultimately show ?thesis
    using parse_words_keeps [OF assms(2) _ assms(3), of ?ws True "[]"] by simp
qed


section \<open>Errors\<close>

lemma perform_status: "perform acts ns = Inl status \<Longrightarrow> status \<in> {0, 2}"
proof (induction acts ns rule: perform.induct)
  case (3 f v acts ns)
  then show ?case
    by (cases "f (case v of Some s \<Rightarrow> s | None \<Rightarrow> []) ns") auto
qed auto

lemma finish_option_status: "finish_option acts a rest ns = Inl status \<Longrightarrow> status \<in> {0, 2}"
  using perform_status
  by (fastforce simp: finish_option_def split: opt_action.splits list.splits prod.splits word_class.splits sum.splits)

lemma consume_optional_status: "consume_optional tab w rest ns = Inl status \<Longrightarrow> status \<in> {0, 2}"
  using perform_status finish_option_status
  by (fastforce simp: consume_optional_def split: word_class.splits option.splits expansion.splits sum.splits)

text \<open>A parse ends with status 0 or 2, or with everything unrecognised so far still unrecognised.\<close>

lemma parse_words_result:
  "case parse_words p left ns extras ws of Inl status \<Rightarrow> status \<in> {0, 2} | Inr (ns', ex') \<Rightarrow> prefix extras ex'"
  by (rule parse_words_rule [where P = "\<lambda>ns extras ws r. case r of Inl status \<Rightarrow> status \<in> {0, 2} |
      Inr (ns', ex') \<Rightarrow> prefix extras ex'"])
    (auto split: sum.splits dest: append_prefixD consume_optional_status)

theorem parse_args_status: "parse_args p ns args = Inl status \<Longrightarrow> status \<in> {0, 2}"
  using parse_words_result [where p = p and left = True and ns = ns and extras = "[]" and
    ws = "classify_words (ap_options p) args"]
  by (auto simp: parse_args_def Let_def split: if_splits sum.splits)

text \<open>An option the parser does not know is never ignored.\<close>

theorem parse_args_unknown:
  assumes "classify (ap_options p) w = Optional None w False None" and "w \<noteq> ''--''"
  shows "\<exists>status. parse_args p ns (w # rest) = Inl status"
proof -
  let ?ws = "classify_words (ap_options p) rest"
  have w: "classify_words (ap_options p) (w # rest) = (w, Optional None w False None) # ?ws"
    by (simp add: assms)
  have "parse_words p True ns [] ((w, Optional None w False None) # ?ws) = parse_words p True ns [w] ?ws"
    by (subst parse_words.simps) (simp add: consume_optional_def)
  then show ?thesis
    using parse_words_result [where p = p and left = True and ns = ns and extras = "[w]" and ws = ?ws]
    unfolding parse_args_def w by (auto split: sum.splits)
qed

end
