(* ===== verification/Process.thy ===== *)
theory Process
  imports Prelude
begin

text \<open>
  Child processes as \<open>subprocess.Popen\<close> presents them, and the terminate-then-kill sequence that
  \<open>CoreDetector._cleanup_locked\<close> (\<open>core_backend.py\<close>) and \<open>_stop_child\<close> (\<open>cli.py\<close>) both run.
  A \<open>proc_script\<close> says how the calls on one process turn out; the result lists the calls made, in
  order, and the exception that escapes, if any.
\<close>

datatype proc_call = Poll | Terminate | Wait | Kill

record proc_script =
  ps_running :: bool
  ps_terminate :: "exn option"
  ps_wait :: "exn option"
  ps_kill :: "exn option"
  ps_wait_killed :: "exn option"

text \<open>\<open>except (OSError, subprocess.TimeoutExpired)\<close>\<close>

definition reap_caught :: "exn \<Rightarrow> bool" where
  "reap_caught e \<longleftrightarrow> is_OSError e \<or> e = TimeoutExpired"

definition terminate_and_wait :: "proc_script \<Rightarrow> proc_call list \<times> exn option" where
  "terminate_and_wait p =
     (if ps_running p
      then (case ps_terminate p of
              Some e \<Rightarrow> ([Poll, Terminate], Some e)
            | None \<Rightarrow> ([Poll, Terminate, Wait], ps_wait p))
      else ([Poll, Wait], ps_wait p))"

definition kill_and_wait :: "proc_script \<Rightarrow> proc_call list \<times> exn option" where
  "kill_and_wait p =
     (case ps_kill p of
        Some e \<Rightarrow> ([Kill], Some e)
      | None \<Rightarrow> ([Kill, Wait], ps_wait_killed p))"

definition terminate_or_kill :: "proc_script \<Rightarrow> proc_call list \<times> exn option" where
  "terminate_or_kill p =
     (case terminate_and_wait p of
        (calls, None) \<Rightarrow> (calls, None)
      | (calls, Some e) \<Rightarrow>
          (if reap_caught e
           then (case kill_and_wait p of
                   (calls', Some e') \<Rightarrow> (calls @ calls', if reap_caught e' then None else Some e')
                 | (calls', None) \<Rightarrow> (calls @ calls', None))
           else (calls, Some e)))"

section \<open>What the sequence guarantees\<close>

text \<open>The failures the calls of a process have: operating system errors and timeouts.\<close>

definition proc_failures_caught :: "proc_script \<Rightarrow> bool" where
  "proc_failures_caught p \<longleftrightarrow>
     (\<forall>e. ps_terminate p = Some e \<or> ps_wait p = Some e \<or> ps_kill p = Some e \<or> ps_wait_killed p = Some e
        \<longrightarrow> reap_caught e)"

lemma terminate_or_kill_silent: "proc_failures_caught p \<Longrightarrow> snd (terminate_or_kill p) = None"
  by (auto simp: terminate_or_kill_def terminate_and_wait_def kill_and_wait_def proc_failures_caught_def
      split: option.splits if_splits prod.splits)

text \<open>The process has been reaped when one of the waits succeeded, which is then the last call.\<close>

definition reaped :: "proc_script \<Rightarrow> bool" where
  "reaped p \<longleftrightarrow> snd (terminate_and_wait p) = None \<or> snd (kill_and_wait p) = None"

lemma terminate_and_wait_last: "snd (terminate_and_wait p) = None \<Longrightarrow> last (fst (terminate_and_wait p)) = Wait"
  by (cases "ps_terminate p") (auto simp: terminate_and_wait_def)

lemma kill_and_wait_last: "snd (kill_and_wait p) = None \<Longrightarrow> last (fst (kill_and_wait p)) = Wait"
  by (cases "ps_kill p") (auto simp: kill_and_wait_def)

lemma kill_and_wait_nonempty: "fst (kill_and_wait p) \<noteq> []"
  by (cases "ps_kill p") (auto simp: kill_and_wait_def)

lemma terminate_and_wait_no_kill: "Kill \<notin> set (fst (terminate_and_wait p))"
  by (cases "ps_terminate p") (auto simp: terminate_and_wait_def)

text \<open>The process is only killed when the polite sequence fails.\<close>

lemma terminate_or_kill_cases:
  "fst (terminate_or_kill p) =
     (case snd (terminate_and_wait p) of
        None \<Rightarrow> fst (terminate_and_wait p)
      | Some e \<Rightarrow> if reap_caught e then fst (terminate_and_wait p) @ fst (kill_and_wait p)
                 else fst (terminate_and_wait p))"
  unfolding terminate_or_kill_def by (auto split: prod.split option.split)

text \<open>What it is to take a process down: it is terminated if it was still running and then waited for; when
  the termination or that wait fails it is killed, and waited for unless the kill fails too.\<close>

definition taken_down :: "proc_script \<Rightarrow> proc_call list \<Rightarrow> bool" where
  "taken_down p calls \<longleftrightarrow>
     (Terminate \<in> set calls \<longleftrightarrow> ps_running p) \<and>
     (if (ps_running p \<longrightarrow> ps_terminate p = None) \<and> ps_wait p = None
      then Kill \<notin> set calls \<and> last calls = Wait
      else Kill \<in> set calls \<and> (ps_kill p = None \<longrightarrow> last calls = Wait))"

lemma terminate_or_kill_takes_down: "proc_failures_caught p \<Longrightarrow> taken_down p (fst (terminate_or_kill p))"
  by (cases "ps_terminate p"; cases "ps_wait p"; cases "ps_kill p")
    (auto simp: taken_down_def terminate_or_kill_cases terminate_and_wait_def kill_and_wait_def proc_failures_caught_def)

lemma reaped_last_wait:
  assumes "proc_failures_caught p" and "reaped p"
  shows "last (fst (terminate_or_kill p)) = Wait"
proof (cases "snd (terminate_and_wait p)")
  case None
  then show ?thesis
    by (simp add: terminate_or_kill_cases terminate_and_wait_last)
next
  case (Some e)
  then have "reap_caught e"
    using assms(1)
    by (cases "ps_terminate p") (auto simp: terminate_and_wait_def proc_failures_caught_def split: if_splits)
  with Some assms(2) show ?thesis
    by (simp add: terminate_or_kill_cases reaped_def kill_and_wait_last kill_and_wait_nonempty)
qed

end
