(* ===== verification/CoreBackend.thy ===== *)
theory CoreBackend
  imports PyFormat Core ProcFs Process Losses
begin

text \<open>
  The Core detector of \<open>blocksnoop/core_backend.py\<close>: finding and starting the native sidecar, the
  versioned NDJSON protocol on its standard output, health checks and teardown.

  The reader thread and the main thread meet in the fields of one record. A run of the reader is
  a list of inputs, into which the main thread's \<open>_stop_requested.set()\<close> is interleaved; one
  input is handled atomically. What lies outside the source is an argument: the result of
  \<open>json.loads\<close> on a line, the callbacks, the process table, and the text of \<open>repr\<close> and of the
  \<open>g\<close> float format, which only appear in messages.
\<close>

section \<open>Finding the sidecar\<close>

definition PROTOCOL_VERSION :: int where "PROTOCOL_VERSION = 2"
definition DEFAULT_SIDECAR :: string where "DEFAULT_SIDECAR = ''blocksnoop-ebpf''"
definition STDERR_TAIL_LIMIT :: nat where "STDERR_TAIL_LIMIT = 4096"
definition UINT64_MAX :: int where "UINT64_MAX = 2 ^ 64 - 1"
definition LOSS_SOURCES :: "string list" where "LOSS_SOURCES = [''perf_buffer'']"

text \<open>The host: the environment variable, \<open>sys.platform\<close>, \<open>shutil.which\<close> and the packaged file
  with the two tests the code makes on it.\<close>

record host_env =
  env_BLOCKSNOOP_EBPF :: "string option"
  env_platform :: string
  env_which :: "string \<Rightarrow> string option"
  env_packaged :: string
  env_packaged_is_file :: bool
  env_packaged_executable :: bool

definition packaged_sidecar :: "host_env \<Rightarrow> string option" where
  "packaged_sidecar env =
     (if env_platform env \<noteq> ''linux'' then None
      else if env_packaged_is_file env \<and> env_packaged_executable env then Some (env_packaged env)
      else None)"

definition find_sidecar :: "host_env \<Rightarrow> string \<Rightarrow> string option" where
  "find_sidecar env executable =
     (case env_BLOCKSNOOP_EBPF env of
        Some configured \<Rightarrow>
          if configured \<noteq> [] then env_which env configured
          else if executable = DEFAULT_SIDECAR \<and> packaged_sidecar env \<noteq> None then packaged_sidecar env
          else env_which env executable
      | None \<Rightarrow>
          if executable = DEFAULT_SIDECAR \<and> packaged_sidecar env \<noteq> None then packaged_sidecar env
          else env_which env executable)"

section \<open>The state\<close>

text \<open>\<open>cd_delivered\<close> and \<open>cd_loss_calls\<close> record the calls of the two callbacks, \<open>cd_proc_calls\<close>
  those on the sidecar process.\<close>

record core_detector =
  cd_config :: detector_config
  cd_executable :: string
  cd_ready_timeout_s :: rat
  cd_process :: "proc_script option"
  cd_stderr_tail :: string
  cd_ready :: bool
  cd_stop_requested :: bool
  cd_startup_error :: "string option"
  cd_runtime_error :: "string option"
  cd_loss_counts :: "(string, int) dict"
  cd_expected_pid :: int
  cd_expected_tid :: "int option"
  cd_pidns_dev :: "int option"
  cd_pidns_ino :: "int option"
  cd_delivered :: "blocking_event list"
  cd_loss_calls :: "lost_event list"
  cd_proc_calls :: "proc_call list"

definition CoreDetector :: "detector_config \<Rightarrow> string \<Rightarrow> rat \<Rightarrow> core_detector" where
  "CoreDetector config executable ready_timeout_s =
     \<lparr>cd_config = config, cd_executable = executable, cd_ready_timeout_s = ready_timeout_s,
      cd_process = None, cd_stderr_tail = [], cd_ready = False, cd_stop_requested = False,
      cd_startup_error = None, cd_runtime_error = None, cd_loss_counts = [],
      cd_expected_pid = cfg_pid config, cd_expected_tid = cfg_tid config,
      cd_pidns_dev = None, cd_pidns_ino = None, cd_delivered = [], cd_loss_calls = [],
      cd_proc_calls = []\<rparr>"

section \<open>Protocol messages\<close>

text \<open>What \<open>json.loads\<close> makes of a line: a value, a \<open>JSONDecodeError\<close>, or another exception (an
  integer literal beyond the conversion limit, nesting beyond the recursion limit).\<close>

datatype line_input = Parsed json | DecodeError | LoadsRaises exn

definition set_error :: "string \<Rightarrow> core_detector \<Rightarrow> core_detector" where
  "set_error err d =
     (if cd_ready d
      then (if cd_runtime_error d = None then d\<lparr>cd_runtime_error := Some err\<rparr> else d)
      else d\<lparr>cd_startup_error := Some err, cd_ready := True\<rparr>)"

definition require_event_int :: "json_obj \<Rightarrow> string \<Rightarrow> int result" where
  "require_event_int message field =
     (case dict_get message field of
        None \<Rightarrow> Inl KeyError
      | Some (JInt i) \<Rightarrow> Inr i
      | Some _ \<Rightarrow> Inl ValueError)"

definition require_pidns :: "json_obj \<Rightarrow> (int \<times> int) result" where
  "require_pidns message =
     bind_result (require_event_int message ''pidns_dev'') (\<lambda>dev.
     bind_result (require_event_int message ''pidns_ino'') (\<lambda>ino. Inr (dev, ino)))"

definition expects_pidns :: "core_detector \<Rightarrow> int \<times> int \<Rightarrow> bool" where
  "expects_pidns d pidns \<longleftrightarrow> (Some (fst pidns), Some (snd pidns)) = (cd_pidns_dev d, cd_pidns_ino d)"

definition tracepoints_ok :: "json \<Rightarrow> bool" where
  "tracepoints_ok tracepoints =
     (case tracepoints of JList ts \<Rightarrow> ts \<noteq> [] \<and> list_all is_str ts | _ \<Rightarrow> False)"

definition expected_threshold_ns :: "core_detector \<Rightarrow> int" where
  "expected_threshold_ns d = threshold_ns (cfg_threshold_ms (cd_config d))"

definition field_or_none :: "json_obj \<Rightarrow> string \<Rightarrow> json" where
  "field_or_none message field = dict_get_default message field JNull"

definition handle_ready :: "json_obj \<Rightarrow> core_detector \<Rightarrow> core_detector" where
  "handle_ready message d =
     (case bind_result (require_event_int message ''pid'') (\<lambda>pid.
           bind_result (require_event_int message ''tid'') (\<lambda>tid.
           bind_result (require_event_int message ''threshold_ns'') (\<lambda>threshold.
           bind_result (require_pidns message) (\<lambda>pidns. Inr (pid, tid, threshold, pidns))))) of
        Inl _ \<Rightarrow> set_error ''ready message has invalid pid, tid, PID namespace or threshold_ns'' d
      | Inr (pid, tid, threshold, pidns) \<Rightarrow>
          if pid \<noteq> cd_expected_pid d \<or> Some tid \<noteq> cd_expected_tid d \<or> threshold \<noteq> expected_threshold_ns d
             \<or> \<not> expects_pidns d pidns \<or> \<not> tracepoints_ok (field_or_none message ''tracepoints'')
          then set_error ''ready message does not match requested target or tracepoints'' d
          else d\<lparr>cd_ready := True\<rparr>)"

text \<open>The callback may raise: exceptions are logged and swallowed, the two \<open>BaseException\<close>s escape.\<close>

definition swallowed :: "exn option \<Rightarrow> exn option" where
  "swallowed x = (case x of Some e \<Rightarrow> if is_Exception e then None else Some e | None \<Rightarrow> None)"

definition event_of_message :: "json_obj \<Rightarrow> core_detector \<Rightarrow> blocking_event option" where
  "event_of_message message d =
     (case bind_result (require_event_int message ''start_ns'') (\<lambda>start.
           bind_result (require_event_int message ''end_ns'') (\<lambda>stop.
           bind_result (require_event_int message ''pid'') (\<lambda>pid.
           bind_result (require_event_int message ''tid'') (\<lambda>tid.
           bind_result (require_pidns message) (\<lambda>pidns. Inr (start, stop, pid, tid, pidns)))))) of
        Inl _ \<Rightarrow> None
      | Inr (start, stop, pid, tid, pidns) \<Rightarrow>
          if start < 0 \<or> stop < start \<or> pid \<noteq> cd_expected_pid d \<or> Some tid \<noteq> cd_expected_tid d
             \<or> \<not> expects_pidns d pidns
          then None
          else Some \<lparr>start_ns = start, end_ns = stop, ev_pid = pid, ev_tid = tid, python_stacks = []\<rparr>)"

type_synonym 'a callback = "'a \<Rightarrow> exn option"

definition handle_event ::
  "blocking_event callback \<Rightarrow> json_obj \<Rightarrow> core_detector \<Rightarrow> core_detector \<times> exn option" where
  "handle_event callback message d =
     (case event_of_message message d of
        None \<Rightarrow> (d, None)
      | Some event \<Rightarrow> (d\<lparr>cd_delivered := cd_delivered d @ [event]\<rparr>, swallowed (callback event)))"

text \<open>\<open>source not in _LOSS_SOURCES\<close> hashes the source: a list or an object raises \<open>TypeError\<close>.\<close>

definition source_known :: "json \<Rightarrow> bool result" where
  "source_known src =
     (if \<not> hashable src then Inl TypeError
      else case src of JStr s \<Rightarrow> Inr (s \<in> set LOSS_SOURCES) | _ \<Rightarrow> Inr False)"

definition core_lose :: "lost_event \<Rightarrow> core_detector \<Rightarrow> core_detector" where
  "core_lose l d = d\<lparr>cd_loss_counts := loss_add l (cd_loss_counts d)\<rparr>"

definition note_loss :: "lost_event callback option \<Rightarrow> lost_event \<Rightarrow> core_detector \<Rightarrow> core_detector \<times> exn option" where
  "note_loss loss_callback event d =
     (case loss_callback of
        None \<Rightarrow> (core_lose event d, None)
      | Some cb \<Rightarrow> ((core_lose event d)\<lparr>cd_loss_calls := cd_loss_calls d @ [event]\<rparr>, swallowed (cb event)))"

definition handle_lost ::
  "lost_event callback option \<Rightarrow> json_obj \<Rightarrow> core_detector \<Rightarrow> core_detector \<times> exn option" where
  "handle_lost loss_callback message d =
     (case bind_result (require_event_int message ''count'') (\<lambda>n.
           bind_result (require_pidns message) (\<lambda>pidns. Inr (n, pidns))) of
        Inl _ \<Rightarrow> (set_error ''received malformed lost record'' d, None)
      | Inr (n, pidns) \<Rightarrow>
          let src = field_or_none message ''source'';
              invalid = (set_error ''received invalid lost record'' d, None)
          in if n < 0 \<or> UINT64_MAX < n then invalid
             else case source_known src of
                    Inl e \<Rightarrow> (d, Some e)
                  | Inr known \<Rightarrow>
                      if \<not> known \<or> \<not> expects_pidns d pidns then invalid
                      else (case src of
                              JStr s \<Rightarrow> note_loss loss_callback \<lparr>lost_count = n, lost_source = s\<rparr> d
                            | _ \<Rightarrow> invalid))"

record py_text =
  repr_json :: "json \<Rightarrow> string"
  format_g :: "rat \<Rightarrow> string"

definition str_json :: "py_text \<Rightarrow> json \<Rightarrow> string" where
  "str_json pt v = (case v of JStr s \<Rightarrow> s | _ \<Rightarrow> repr_json pt v)"

record callbacks =
  on_blocking :: "blocking_event callback"
  on_loss :: "lost_event callback option"
  texts :: py_text

definition handle_message :: "callbacks \<Rightarrow> json_obj \<Rightarrow> core_detector \<Rightarrow> core_detector \<times> exn option" where
  "handle_message cb message d =
     (let message_type = field_or_none message ''type'' in
      if message_type = JStr ''ready'' then (handle_ready message d, None)
      else if message_type = JStr ''event'' then handle_event (on_blocking cb) message d
      else if message_type = JStr ''lost'' then handle_lost (on_loss cb) message d
      else if message_type = JStr ''fatal''
        then (set_error (str_json (texts cb)
               (dict_get_default message ''message'' (JStr ''unknown sidecar error''))) d, None)
      else (set_error (''received unknown message type '' @ repr_json (texts cb) message_type) d, None))"

definition handle_line :: "callbacks \<Rightarrow> line_input \<Rightarrow> core_detector \<Rightarrow> core_detector \<times> exn option" where
  "handle_line cb line d =
     (case line of
        LoadsRaises e \<Rightarrow> (d, Some e)
      | DecodeError \<Rightarrow> (set_error ''received invalid NDJSON'' d, None)
      | Parsed v \<Rightarrow>
          (case v of
             JObj message \<Rightarrow>
               if \<not> eq_int (field_or_none message ''version'') PROTOCOL_VERSION
               then (set_error (''unsupported protocol version ''
                       @ repr_json (texts cb) (field_or_none message ''version'')) d, None)
               else handle_message cb message d
           | _ \<Rightarrow> (set_error ''received a non-object NDJSON message'' d, None)))"

section \<open>The reader threads\<close>

datatype reader_input = Line line_input | StopRequested

fun read_lines :: "callbacks \<Rightarrow> reader_input list \<Rightarrow> core_detector \<Rightarrow> core_detector \<times> exn option" where
  "read_lines cb [] d = (d, None)"
| "read_lines cb (Line l # is) d =
     (case handle_line cb l d of
        (d', None) \<Rightarrow> read_lines cb is d'
      | (d', Some e) \<Rightarrow> (d', Some e))"
| "read_lines cb (StopRequested # is) d = read_lines cb is (d\<lparr>cd_stop_requested := True\<rparr>)"

definition reader_finally :: "core_detector \<Rightarrow> core_detector" where
  "reader_finally d =
     (if \<not> cd_stop_requested d \<and> cd_startup_error d = None \<and> cd_runtime_error d = None
      then (if \<not> cd_ready d then set_error ''sidecar exited before sending ready'' d
            else set_error ''sidecar exited unexpectedly after ready'' d)
      else d)"

text \<open>A whole run of the reader thread, up to the end of the stream or an escaping exception.\<close>

definition read_messages :: "callbacks \<Rightarrow> reader_input list \<Rightarrow> core_detector \<Rightarrow> core_detector \<times> exn option" where
  "read_messages cb is d =
     (if cd_process d = None then (set_error ''sidecar stdout is unavailable'' d, None)
      else (let (d', e) = read_lines cb is d in (reader_finally d', e)))"

definition last_n :: "nat \<Rightarrow> 'a list \<Rightarrow> 'a list" where
  "last_n n xs = drop (length xs - n) xs"

fun read_stderr :: "string list \<Rightarrow> core_detector \<Rightarrow> core_detector" where
  "read_stderr [] d = d"
| "read_stderr (chunk # chunks) d =
     (if chunk = [] then d
      else read_stderr chunks (d\<lparr>cd_stderr_tail := last_n STDERR_TAIL_LIMIT (cd_stderr_tail d @ chunk)\<rparr>))"

section \<open>The sidecar command\<close>

definition pid_namespace :: "procfs \<Rightarrow> int option \<Rightarrow> (int \<times> int) option" where
  "pid_namespace fs pid =
     fs_stat fs (case pid of None \<Rightarrow> ''/proc/self/ns/pid'' | Some p \<Rightarrow> pid_ns_path p)"

text \<open>The first \<open>NSpid\<close> line with values decides; an unreadable number raises inside the loop.\<close>

fun nspid_value :: "string list \<Rightarrow> int option" where
  "nspid_value [] = None"
| "nspid_value (line # lines) =
     (if startswith line ''NSpid:''
      then (let vals = tl (split_ws line)
            in if vals \<noteq> [] then py_int 10 (last vals) else nspid_value lines)
      else nspid_value lines)"

definition resolve_namespace_pid :: "procfs \<Rightarrow> int \<Rightarrow> int result" where
  "resolve_namespace_pid fs host_pid =
     (case Option.bind (fs_lines fs (status_path host_pid)) nspid_value of
        Some p \<Rightarrow> Inr p
      | None \<Rightarrow> Inl (CoreDetectorError (''Could not resolve NSpid for target task '' @ str_of_int host_pid
                 @ ''. Ensure the target is still running and /proc is readable.'')))"

definition add_status_field :: "(string, string) dict \<Rightarrow> string \<Rightarrow> (string, string) dict" where
  "add_status_field d line =
     (case split_once (CHR '':'') line of (k, Some v) \<Rightarrow> dict_set k (strip v) d | (_, None) \<Rightarrow> d)"

definition status_fields :: "string list \<Rightarrow> (string, string) dict" where
  "status_fields lines = foldl add_status_field [] lines"

definition validate_target_tid :: "procfs \<Rightarrow> int \<Rightarrow> int \<times> int \<Rightarrow> core_detector \<Rightarrow> unit result" where
  "validate_target_tid fs tid target_namespace d =
     (case fs_lines fs (status_path tid) of
        None \<Rightarrow> Inl (CoreDetectorError (''Could not inspect target TID '' @ str_of_int tid
                   @ ''; ensure it is still running.''))
      | Some lines \<Rightarrow>
          if dict_get (status_fields lines) ''Tgid'' \<noteq> Some (str_of_int (cfg_pid (cd_config d)))
             \<or> pid_namespace fs (Some tid) \<noteq> Some target_namespace
          then Inl (CoreDetectorError (''TID '' @ str_of_int tid @ '' does not belong to PID ''
                 @ str_of_int (cfg_pid (cd_config d)) @ '' in its PID namespace.''))
          else Inr ())"

definition command_line :: "string \<Rightarrow> int \<Rightarrow> int \<Rightarrow> int \<times> int \<Rightarrow> int \<Rightarrow> string list" where
  "command_line sidecar pid tid pidns threshold =
     [sidecar, ''--protocol-version'', str_of_int PROTOCOL_VERSION,
      ''--pid'', str_of_int pid, ''--tid'', str_of_int tid,
      ''--pidns-dev'', str_of_int (fst pidns), ''--pidns-ino'', str_of_int (snd pidns),
      ''--threshold-ns'', str_of_int threshold]"

definition build_command :: "procfs \<Rightarrow> string \<Rightarrow> core_detector \<Rightarrow> core_detector \<times> string list result" where
  "build_command fs sidecar d =
     (case pid_namespace fs (Some (cfg_pid (cd_config d))) of
        None \<Rightarrow> (d, Inl (CoreDetectorError (''Could not resolve the target PID namespace from /proc. ''
                  @ ''Ensure the target is still running and /proc/<pid>/ns/pid is readable.'')))
      | Some target_ns \<Rightarrow>
          let d = d\<lparr>cd_pidns_dev := Some (fst target_ns), cd_pidns_ino := Some (snd target_ns)\<rparr> in
          case resolve_namespace_pid fs (cfg_pid (cd_config d)) of
            Inl e \<Rightarrow> (d, Inl e)
          | Inr pid \<Rightarrow>
              let d = d\<lparr>cd_expected_pid := pid\<rparr> in
              case cfg_tid (cd_config d) of
                None \<Rightarrow> (d, Inl AssertionError)
              | Some host_tid \<Rightarrow>
                  case validate_target_tid fs host_tid target_ns d of
                    Inl e \<Rightarrow> (d, Inl e)
                  | Inr _ \<Rightarrow>
                      case resolve_namespace_pid fs host_tid of
                        Inl e \<Rightarrow> (d, Inl e)
                      | Inr tid \<Rightarrow> (d\<lparr>cd_expected_tid := Some tid\<rparr>,
                          Inr (command_line sidecar pid tid target_ns (expected_threshold_ns d))))"

section \<open>Start, health and stop\<close>

text \<open>Joining the readers changes no state of the detector by itself; what they still read before
  they end is a continuation of \<^const>\<open>read_lines\<close>.\<close>

definition cleanup_locked :: "core_detector \<Rightarrow> core_detector \<times> exn option" where
  "cleanup_locked d =
     (case cd_process d of
        None \<Rightarrow> (d, None)
      | Some p \<Rightarrow>
          let (calls, e) = terminate_or_kill p
          in (d\<lparr>cd_process := None, cd_proc_calls := cd_proc_calls d @ calls\<rparr>, e))"

definition core_stop :: "core_detector \<Rightarrow> core_detector \<times> exn option" where
  "core_stop d = cleanup_locked (d\<lparr>cd_stop_requested := True\<rparr>)"

text \<open>The outcome of launching: the process with its reader threads, or an exception before the
  process exists, or one from starting a reader; for an \<open>OSError\<close> with its \<open>strerror\<close>.\<close>

datatype spawn = Spawned proc_script | SpawnRaises exn string | ReaderRaises proc_script exn string

definition reset_session :: "core_detector \<Rightarrow> core_detector" where
  "reset_session d = d\<lparr>cd_ready := False, cd_stop_requested := False, cd_startup_error := None,
     cd_runtime_error := None, cd_stderr_tail := [], cd_loss_counts := []\<rparr>"

definition raise_after_cleanup :: "exn \<Rightarrow> core_detector \<Rightarrow> core_detector \<times> exn option" where
  "raise_after_cleanup e d =
     (case cleanup_locked d of (d', None) \<Rightarrow> (d', Some e) | (d', Some e') \<Rightarrow> (d', Some e'))"

definition start_error :: "string \<Rightarrow> string \<Rightarrow> exn \<Rightarrow> exn" where
  "start_error sidecar detail e =
     (if is_OSError e
      then CoreDetectorError (''Could not start '' @ sidecar @ '': '' @ detail
             @ ''. Check that the sidecar is executable and matches this platform.'')
      else e)"

definition launch ::
  "procfs \<Rightarrow> (string list \<Rightarrow> spawn) \<Rightarrow> string \<Rightarrow> core_detector \<Rightarrow> core_detector \<times> exn option" where
  "launch fs popen sidecar d =
     (case build_command fs sidecar (reset_session d) of
        (d', Inl e) \<Rightarrow> raise_after_cleanup e d'
      | (d', Inr command) \<Rightarrow>
          (case popen command of
             Spawned p \<Rightarrow> (d'\<lparr>cd_process := Some p\<rparr>, None)
           | SpawnRaises e detail \<Rightarrow>
               if is_Exception e then raise_after_cleanup (start_error sidecar detail e) d' else (d', Some e)
           | ReaderRaises p e detail \<Rightarrow>
               let d'' = d'\<lparr>cd_process := Some p\<rparr> in
               if is_Exception e then raise_after_cleanup (start_error sidecar detail e) d'' else (d'', Some e)))"

definition not_found_error :: "core_detector \<Rightarrow> exn" where
  "not_found_error d = CoreDetectorError (cd_executable d @ '' sidecar was not found in PATH. ''
     @ ''Install a blocksnoop release that includes the Core sidecar '' @ ''or run with --backend bcc.'')"

text \<open>The locked first half of \<open>start\<close>: \<open>Inr False\<close> when the detector already runs.\<close>

definition start_locked ::
  "host_env \<Rightarrow> procfs \<Rightarrow> (string list \<Rightarrow> spawn) \<Rightarrow> core_detector \<Rightarrow> core_detector \<times> bool result" where
  "start_locked env fs popen d =
     (if cd_process d \<noteq> None then (d, Inr False)
      else case find_sidecar env (cd_executable d) of
             None \<Rightarrow> (d, Inl (not_found_error d))
           | Some sidecar \<Rightarrow>
               if cfg_tid (cd_config d) = None then (d, Inl AssertionError)
               else (case launch fs popen sidecar d of
                       (d', None) \<Rightarrow> (d', Inr True)
                     | (d', Some e) \<Rightarrow> (d', Inl e)))"

definition handshake_error :: "core_detector \<Rightarrow> string \<Rightarrow> exn" where
  "handshake_error d err =
     (let stderr = strip (cd_stderr_tail d)
      in CoreDetectorError (cd_executable d @ '' handshake failed: '' @ err
           @ ''. Check that its protocol version matches blocksnoop.''
           @ (if stderr \<noteq> [] then '' Sidecar stderr: '' @ stderr else [])))"

definition timeout_error :: "py_text \<Rightarrow> core_detector \<Rightarrow> exn" where
  "timeout_error pt d = CoreDetectorError (cd_executable d @ '' did not send a ready handshake within ''
     @ format_g pt (cd_ready_timeout_s d) @ ''s. Check sidecar logs and protocol version.'')"

definition raise_after_stop :: "(core_detector \<Rightarrow> exn) \<Rightarrow> core_detector \<Rightarrow> core_detector \<times> exn option" where
  "raise_after_stop err d =
     (case core_stop d of (d', None) \<Rightarrow> (d', Some (err d')) | (d', Some e) \<Rightarrow> (d', Some e))"

text \<open>The second half, in the state the wait for \<open>ready\<close> ends in.\<close>

definition start_wait :: "py_text \<Rightarrow> core_detector \<Rightarrow> core_detector \<times> exn option" where
  "start_wait pt d =
     (if \<not> cd_ready d then raise_after_stop (timeout_error pt) d
      else case cd_startup_error d of
             Some err \<Rightarrow> raise_after_stop (\<lambda>d. handshake_error d err) d
           | None \<Rightarrow> (d, None))"

text \<open>\<open>start\<close> as a whole: \<open>inputs\<close> are the lines the reader handles until the wait ends, and
  \<open>ended\<close> tells whether the stream has ended by then.\<close>

definition reader_until ::
  "callbacks \<Rightarrow> reader_input list \<Rightarrow> bool \<Rightarrow> core_detector \<Rightarrow> core_detector" where
  "reader_until cb is ended d =
     (if ended then fst (read_messages cb is d)
      else case read_lines cb is d of (d', None) \<Rightarrow> d' | (d', Some _) \<Rightarrow> reader_finally d')"

definition core_start ::
  "host_env \<Rightarrow> procfs \<Rightarrow> (string list \<Rightarrow> spawn) \<Rightarrow> callbacks \<Rightarrow> reader_input list \<Rightarrow> bool \<Rightarrow> core_detector
     \<Rightarrow> core_detector \<times> exn option" where
  "core_start env fs popen cb is ended d =
     (case start_locked env fs popen d of
        (d', Inl e) \<Rightarrow> (d', Some e)
      | (d', Inr False) \<Rightarrow> (d', None)
      | (d', Inr True) \<Rightarrow> start_wait (texts cb) (reader_until cb is ended d'))"

definition core_check_health :: "bool \<Rightarrow> core_detector \<Rightarrow> exn option" where
  "core_check_health exited d =
     (let stderr = strip (cd_stderr_tail d);
          tail = (if stderr \<noteq> [] then stderr else ''(empty)'')
      in case cd_runtime_error d of
           Some err \<Rightarrow> Some (CoreDetectorError (cd_executable d @ '' stopped collecting: '' @ err
                         @ ''. Sidecar stderr: '' @ tail))
         | None \<Rightarrow>
             if cd_process d \<noteq> None \<and> exited \<and> \<not> cd_stop_requested d
             then Some (CoreDetectorError (cd_executable d @ '' exited unexpectedly. Sidecar stderr: '' @ tail))
             else None)"

section \<open>What a message may change\<close>

text \<open>The fields the protocol handlers never touch.\<close>

definition identity :: "core_detector \<Rightarrow> detector_config \<times> int \<times> int option \<times> int option \<times> int option" where
  "identity d = (cd_config d, cd_expected_pid d, cd_expected_tid d, cd_pidns_dev d, cd_pidns_ino d)"

lemma set_error_fields [simp]:
  "identity (set_error e d) = identity d" "cd_delivered (set_error e d) = cd_delivered d"
  "cd_loss_counts (set_error e d) = cd_loss_counts d" "cd_process (set_error e d) = cd_process d"
  "cd_proc_calls (set_error e d) = cd_proc_calls d"
  "cd_stop_requested (set_error e d) = cd_stop_requested d" "cd_ready (set_error e d)"
  "cd_executable (set_error e d) = cd_executable d"
  by (simp_all add: set_error_def identity_def)

text \<open>The losses and events a message carries, for a detector that expects \<open>i\<close>.\<close>

definition ready_matches :: "json_obj \<Rightarrow> core_detector \<Rightarrow> bool" where
  "ready_matches m d \<longleftrightarrow>
     dict_get m ''pid'' = Some (JInt (cd_expected_pid d)) \<and>
     (\<exists>tid. dict_get m ''tid'' = Some (JInt tid) \<and> cd_expected_tid d = Some tid) \<and>
     dict_get m ''threshold_ns'' = Some (JInt (expected_threshold_ns d)) \<and>
     (\<exists>dev ino. dict_get m ''pidns_dev'' = Some (JInt dev) \<and> dict_get m ''pidns_ino'' = Some (JInt ino) \<and>
        cd_pidns_dev d = Some dev \<and> cd_pidns_ino d = Some ino) \<and>
     (\<exists>ts. dict_get m ''tracepoints'' = Some (JList ts) \<and> ts \<noteq> [] \<and> list_all is_str ts)"

lemma require_event_int_Inr: "require_event_int m f = Inr i \<longleftrightarrow> dict_get m f = Some (JInt i)"
  by (auto simp: require_event_int_def split: option.splits json.splits)

lemma require_pidns_Inr:
  "require_pidns m = Inr (a, b) \<longleftrightarrow> dict_get m ''pidns_dev'' = Some (JInt a) \<and> dict_get m ''pidns_ino'' = Some (JInt b)"
  by (auto simp: require_pidns_def bind_result_Inr_iff require_event_int_Inr)

lemma field_JList: "field_or_none m f = JList ts \<longleftrightarrow> dict_get m f = Some (JList ts)"
  by (auto simp: field_or_none_def dict_get_default_def dict_get_def split: option.splits)

lemma tracepoints_ok_iff: "tracepoints_ok j \<longleftrightarrow> (\<exists>ts. j = JList ts \<and> ts \<noteq> [] \<and> list_all is_str ts)"
  by (cases j) (auto simp: tracepoints_ok_def)

lemma handle_ready_cases:
  "(ready_matches m d \<and> handle_ready m d = d\<lparr>cd_ready := True\<rparr>) \<or>
   (\<not> ready_matches m d \<and> (\<exists>e. handle_ready m d = set_error e d))"
proof (cases "ready_matches m d")
  case True
  then obtain tid dev ino ts where f:
    "require_event_int m ''pid'' = Inr (cd_expected_pid d)" "require_event_int m ''tid'' = Inr tid"
    "cd_expected_tid d = Some tid" "require_event_int m ''threshold_ns'' = Inr (expected_threshold_ns d)"
    "require_pidns m = Inr (dev, ino)" "cd_pidns_dev d = Some dev" "cd_pidns_ino d = Some ino"
    "tracepoints_ok (field_or_none m ''tracepoints'')"
    by (auto simp: ready_matches_def require_event_int_Inr require_pidns_Inr tracepoints_ok_iff field_JList)
  then have "handle_ready m d = d\<lparr>cd_ready := True\<rparr>"
    by (simp add: handle_ready_def expects_pidns_def)
  with True show ?thesis by simp
next
  case False
  define r where "r = bind_result (require_event_int m ''pid'') (\<lambda>pid.
           bind_result (require_event_int m ''tid'') (\<lambda>tid.
           bind_result (require_event_int m ''threshold_ns'') (\<lambda>threshold.
           bind_result (require_pidns m) (\<lambda>pidns. Inr (pid, tid, threshold, pidns)))))"
  have "\<exists>e. handle_ready m d = set_error e d"
  proof (cases r)
    case (Inl e)
    then show ?thesis by (auto simp: handle_ready_def simp flip: r_def)
  next
    case (Inr q)
    obtain pid tid th dev ino where q: "q = (pid, tid, th, dev, ino)"
      by (metis prod_cases5)
    with Inr have "dict_get m ''pid'' = Some (JInt pid)" "dict_get m ''tid'' = Some (JInt tid)"
      "dict_get m ''threshold_ns'' = Some (JInt th)" "dict_get m ''pidns_dev'' = Some (JInt dev)"
      "dict_get m ''pidns_ino'' = Some (JInt ino)"
      by (auto simp: r_def bind_result_Inr_iff require_event_int_Inr require_pidns_Inr)
    with False have "pid \<noteq> cd_expected_pid d \<or> Some tid \<noteq> cd_expected_tid d \<or> th \<noteq> expected_threshold_ns d
             \<or> \<not> expects_pidns d (dev, ino) \<or> \<not> tracepoints_ok (field_or_none m ''tracepoints'')"
      by (auto simp: ready_matches_def expects_pidns_def tracepoints_ok_iff field_JList)
    then show ?thesis
      using Inr by (auto simp: handle_ready_def q simp flip: r_def)
  qed
  with False show ?thesis by blast
qed

text \<open>The loss a message is accepted as, if any.\<close>

definition loss_of_message :: "json_obj \<Rightarrow> core_detector \<Rightarrow> lost_event option" where
  "loss_of_message m d =
     (case (dict_get m ''count'', dict_get m ''pidns_dev'', dict_get m ''pidns_ino'', dict_get m ''source'') of
        (Some (JInt n), Some (JInt dev), Some (JInt ino), Some (JStr src)) \<Rightarrow>
          if 0 \<le> n \<and> n \<le> UINT64_MAX \<and> src \<in> set LOSS_SOURCES
             \<and> cd_pidns_dev d = Some dev \<and> cd_pidns_ino d = Some ino
          then Some \<lparr>lost_count = n, lost_source = src\<rparr> else None
      | _ \<Rightarrow> None)"

lemma note_loss_eq:
  "note_loss cb l d =
     ((core_lose l d)\<lparr>cd_loss_calls := cd_loss_calls d @ (if cb = None then [] else [l])\<rparr>,
      case cb of None \<Rightarrow> None | Some f \<Rightarrow> swallowed (f l))"
  by (cases cb) (simp_all add: note_loss_def core_lose_def)

lemma loss_of_message_Some:
  "loss_of_message m d = Some l \<longleftrightarrow>
   dict_get m ''count'' = Some (JInt (lost_count l)) \<and> dict_get m ''source'' = Some (JStr (lost_source l)) \<and>
   0 \<le> lost_count l \<and> lost_count l \<le> UINT64_MAX \<and> lost_source l \<in> set LOSS_SOURCES \<and>
   (\<exists>dev ino. dict_get m ''pidns_dev'' = Some (JInt dev) \<and> dict_get m ''pidns_ino'' = Some (JInt ino) \<and>
      cd_pidns_dev d = Some dev \<and> cd_pidns_ino d = Some ino)"
  unfolding loss_of_message_def
  by (cases l) (auto split: option.splits json.splits if_splits)

lemma handle_lost_accept:
  assumes "loss_of_message m d = Some l"
  shows "handle_lost cb m d = note_loss cb l d"
proof -
  from assms obtain dev ino where f: "require_event_int m ''count'' = Inr (lost_count l)"
    "require_pidns m = Inr (dev, ino)" "dict_get m ''source'' = Some (JStr (lost_source l))"
    "cd_pidns_dev d = Some dev" "cd_pidns_ino d = Some ino"
    and ok: "0 \<le> lost_count l" "lost_count l \<le> UINT64_MAX" "lost_source l \<in> set LOSS_SOURCES"
    by (auto simp: loss_of_message_Some require_event_int_Inr require_pidns_Inr)
  have src: "field_or_none m ''source'' = JStr (lost_source l)"
    using f(3) by (simp add: field_or_none_def dict_get_default_def dict_get_def)
  have "\<lparr>lost_count = lost_count l, lost_source = lost_source l\<rparr> = l"
    by (cases l) simp
  moreover have "handle_lost cb m d = note_loss cb \<lparr>lost_count = lost_count l, lost_source = lost_source l\<rparr> d"
    using ok f(4,5) by (simp add: handle_lost_def f(1,2) src source_known_def expects_pidns_def Let_def)
  ultimately show ?thesis
    by (simp only:)
qed

lemma handle_lost_reject:
  assumes "loss_of_message m d = None"
  shows "(\<exists>e. handle_lost cb m d = (set_error e d, None)) \<or> handle_lost cb m d = (d, Some TypeError)"
proof -
  define r where "r = bind_result (require_event_int m ''count'') (\<lambda>n.
           bind_result (require_pidns m) (\<lambda>pidns. Inr (n, pidns)))"
  show ?thesis
  proof (cases r)
    case (Inl e)
    then show ?thesis by (auto simp: handle_lost_def simp flip: r_def)
  next
    case (Inr q)
    obtain n dev ino where q: "q = (n, dev, ino)"
      by (metis prod_cases3)
    with Inr have "dict_get m ''count'' = Some (JInt n)" "dict_get m ''pidns_dev'' = Some (JInt dev)"
      "dict_get m ''pidns_ino'' = Some (JInt ino)"
      by (auto simp: r_def bind_result_Inr_iff require_event_int_Inr require_pidns_Inr)
    with assms Inr show ?thesis
      by (cases "field_or_none m ''source''")
         (auto simp: handle_lost_def q source_known_def loss_of_message_def expects_pidns_def field_or_none_def
            dict_get_default_def dict_get_def Let_def simp flip: r_def split: option.splits if_splits)
  qed
qed

definition message_of_line :: "line_input \<Rightarrow> json_obj option" where
  "message_of_line l =
     (case l of
        Parsed (JObj m) \<Rightarrow> if eq_int (field_or_none m ''version'') PROTOCOL_VERSION then Some m else None
      | _ \<Rightarrow> None)"

definition typed_message :: "string \<Rightarrow> line_input \<Rightarrow> json_obj option" where
  "typed_message t l =
     (case message_of_line l of
        Some m \<Rightarrow> if field_or_none m ''type'' = JStr t then Some m else None
      | None \<Rightarrow> None)"

definition ready_line :: "line_input \<Rightarrow> core_detector \<Rightarrow> bool" where
  "ready_line l d \<longleftrightarrow> (\<exists>m. typed_message ''ready'' l = Some m \<and> ready_matches m d)"

definition event_of_line :: "line_input \<Rightarrow> core_detector \<Rightarrow> blocking_event option" where
  "event_of_line l d = Option.bind (typed_message ''event'' l) (\<lambda>m. event_of_message m d)"

definition loss_of_line :: "line_input \<Rightarrow> core_detector \<Rightarrow> lost_event option" where
  "loss_of_line l d = Option.bind (typed_message ''lost'' l) (\<lambda>m. loss_of_message m d)"

lemma handle_line_no_message:
  "message_of_line l = None \<Longrightarrow>
   (\<exists>e. handle_line cb l d = (set_error e d, None)) \<or> (\<exists>e. handle_line cb l d = (d, Some e))"
  by (cases l) (auto simp: handle_line_def message_of_line_def split: json.splits if_splits)

lemma handle_line_message:
  "message_of_line l = Some m \<Longrightarrow> handle_line cb l d = handle_message cb m d"
  by (auto simp: handle_line_def message_of_line_def split: line_input.splits json.splits if_splits)

text \<open>A line is a matching handshake, an event, a loss, or none of these; then it changes nothing
  but the errors.\<close>

lemma handle_line_cases:
  obtains (ready) "ready_line l d" "event_of_line l d = None" "loss_of_line l d = None"
      "handle_line cb l d = (d\<lparr>cd_ready := True\<rparr>, None)"
    | (event) e where "event_of_line l d = Some e" "loss_of_line l d = None" "\<not> ready_line l d"
      "handle_line cb l d = (d\<lparr>cd_delivered := cd_delivered d @ [e]\<rparr>, swallowed (on_blocking cb e))"
    | (loss) ls where "loss_of_line l d = Some ls" "event_of_line l d = None" "\<not> ready_line l d"
      "handle_line cb l d = note_loss (on_loss cb) ls d"
    | (error) e where "event_of_line l d = None" "loss_of_line l d = None" "\<not> ready_line l d"
      "handle_line cb l d = (set_error e d, None)"
    | (none) x where "event_of_line l d = None" "loss_of_line l d = None" "\<not> ready_line l d"
      "handle_line cb l d = (d, x)"
proof (cases "message_of_line l")
  case None
  then have "event_of_line l d = None" "loss_of_line l d = None" "\<not> ready_line l d"
    by (simp_all add: event_of_line_def loss_of_line_def ready_line_def typed_message_def)
  with handle_line_no_message [OF None, of cb d] error none show ?thesis
    by blast
next
  case (Some m)
  note hl = handle_line_message [OF Some, of cb d]
  consider "field_or_none m ''type'' = JStr ''ready''" | "field_or_none m ''type'' = JStr ''event''"
    | "field_or_none m ''type'' = JStr ''lost''"
    | "field_or_none m ''type'' \<noteq> JStr ''ready''" "field_or_none m ''type'' \<noteq> JStr ''event''"
      "field_or_none m ''type'' \<noteq> JStr ''lost''"
    by blast
  then show ?thesis
  proof cases
    case 1
    then have t: "event_of_line l d = None" "loss_of_line l d = None" "ready_line l d \<longleftrightarrow> ready_matches m d"
      "handle_message cb m d = (handle_ready m d, None)"
      by (simp_all add: event_of_line_def loss_of_line_def ready_line_def typed_message_def Some handle_message_def)
    with handle_ready_cases [of m d] show ?thesis
      using ready error hl by metis
  next
    case 2
    then have t: "event_of_line l d = event_of_message m d" "loss_of_line l d = None" "\<not> ready_line l d"
      "handle_message cb m d = handle_event (on_blocking cb) m d"
      by (simp_all add: event_of_line_def loss_of_line_def ready_line_def typed_message_def Some handle_message_def)
    then show ?thesis
      using event none hl by (cases "event_of_message m d") (auto simp: handle_event_def)
  next
    case 3
    then have t: "event_of_line l d = None" "loss_of_line l d = loss_of_message m d" "\<not> ready_line l d"
      "handle_message cb m d = handle_lost (on_loss cb) m d"
      by (simp_all add: event_of_line_def loss_of_line_def ready_line_def typed_message_def Some handle_message_def)
    show ?thesis
    proof (cases "loss_of_message m d")
      case None
      with handle_lost_reject [OF None, of "on_loss cb"] show ?thesis
        using error none hl t by metis
    next
      case (Some ls)
      with handle_lost_accept [OF Some, of "on_loss cb"] show ?thesis
        using loss hl t by metis
    qed
  next
    case 4
    then have "event_of_line l d = None" "loss_of_line l d = None" "\<not> ready_line l d"
      "\<exists>e. handle_message cb m d = (set_error e d, None)"
      by (auto simp: event_of_line_def loss_of_line_def ready_line_def typed_message_def Some handle_message_def Let_def)
    then show ?thesis
      using error hl by metis
  qed
qed

section \<open>Invariants of the reader\<close>

lemma note_loss_fields [simp]:
  "identity (fst (note_loss cb l d)) = identity d"
  "cd_delivered (fst (note_loss cb l d)) = cd_delivered d"
  "cd_loss_counts (fst (note_loss cb l d)) = loss_add l (cd_loss_counts d)"
  "cd_process (fst (note_loss cb l d)) = cd_process d"
  "cd_stop_requested (fst (note_loss cb l d)) = cd_stop_requested d"
  "cd_ready (fst (note_loss cb l d)) = cd_ready d"
  "cd_startup_error (fst (note_loss cb l d)) = cd_startup_error d"
  "cd_runtime_error (fst (note_loss cb l d)) = cd_runtime_error d"
  "cd_executable (fst (note_loss cb l d)) = cd_executable d"
  by (simp_all add: note_loss_eq core_lose_def identity_def)

lemma handle_line_identity: "identity (fst (handle_line cb l d)) = identity d"
  by (cases rule: handle_line_cases [of l d cb]) (simp_all, simp_all add: identity_def)

text \<open>What a line carries depends on the detector only through its identity.\<close>

lemma ready_matches_cong: "identity d = identity d' \<Longrightarrow> ready_matches m d = ready_matches m d'"
  by (simp add: identity_def ready_matches_def expected_threshold_ns_def)

lemma line_cong:
  assumes "identity d = identity d'"
  shows "ready_line l d = ready_line l d'" "event_of_line l d = event_of_line l d'"
    "loss_of_line l d = loss_of_line l d'"
proof -
  have eqs: "cd_expected_pid d = cd_expected_pid d'" "cd_expected_tid d = cd_expected_tid d'"
    "cd_pidns_dev d = cd_pidns_dev d'" "cd_pidns_ino d = cd_pidns_ino d'"
    using assms by (simp_all add: identity_def)
  have "event_of_message m d = event_of_message m d'" "loss_of_message m d = loss_of_message m d'" for m
    unfolding event_of_message_def loss_of_message_def expects_pidns_def eqs by (rule refl)+
  then show "ready_line l d = ready_line l d'" "event_of_line l d = event_of_line l d'"
    "loss_of_line l d = loss_of_line l d'"
    using ready_matches_cong [OF assms]
    by (simp_all add: ready_line_def event_of_line_def loss_of_line_def)
qed

text \<open>An error is only recorded once the ready flag is set, and errors are never replaced.\<close>

definition core_inv :: "core_detector \<Rightarrow> bool" where
  "core_inv d \<longleftrightarrow> (cd_startup_error d \<noteq> None \<or> cd_runtime_error d \<noteq> None \<longrightarrow> cd_ready d)
     \<and> distinct (dict_keys (cd_loss_counts d)) \<and> set (dict_keys (cd_loss_counts d)) \<subseteq> set LOSS_SOURCES
     \<and> (\<forall>n \<in> set (dict_values (cd_loss_counts d)). 0 \<le> n)"

lemma core_inv_set_error [simp]: "core_inv d \<Longrightarrow> core_inv (set_error e d)"
  by (auto simp: core_inv_def set_error_def)

lemma loss_add_nonneg:
  assumes "\<forall>n \<in> set (dict_values d). 0 \<le> n" "0 \<le> lost_count l"
  shows "\<forall>n \<in> set (dict_values (loss_add l d)). 0 \<le> n"
proof -
  have g: "\<forall>n \<in> set (dict_values (dict_set k w d)). 0 \<le> n" if "0 \<le> w" for k and w :: int
    using assms(1) that
    by (induction d) (auto simp: dict_set_def dict_values_def split: if_splits)
  have "0 \<le> dict_get_default d (lost_source l) 0"
    using assms(1) by (fastforce simp: dict_get_default_def dict_values_def dest: map_of_SomeD split: option.splits)
  then show ?thesis
    unfolding loss_add_def using assms(2) by (intro g) simp
qed

lemma loss_of_line_ok:
  "loss_of_line l d = Some ls \<Longrightarrow> lost_source ls \<in> set LOSS_SOURCES \<and> 0 \<le> lost_count ls"
  by (auto simp: loss_of_line_def bind_eq_Some_conv loss_of_message_Some)

lemma core_inv_handle_line:
  assumes "core_inv d"
  shows "core_inv (fst (handle_line cb l d))"
proof (cases rule: handle_line_cases [of l d cb])
  case (loss ls)
  have "distinct (dict_keys (loss_add ls (cd_loss_counts d)))"
    using assms by (simp add: loss_add_def distinct_dict_set core_inv_def)
  moreover have "\<forall>n \<in> set (dict_values (loss_add ls (cd_loss_counts d))). 0 \<le> n"
    using assms loss_of_line_ok [OF loss(1)] by (intro loss_add_nonneg) (simp_all add: core_inv_def)
  ultimately show ?thesis
    using assms loss_of_line_ok [OF loss(1)] by (simp add: loss core_inv_def dict_keys_loss_add)
qed (use assms in \<open>auto simp: core_inv_def set_error_def\<close>)

section \<open>Runs of the reader\<close>

fun lines_of :: "reader_input list \<Rightarrow> line_input list" where
  "lines_of [] = []"
| "lines_of (Line l # is) = l # lines_of is"
| "lines_of (StopRequested # is) = lines_of is"

definition events_in :: "reader_input list \<Rightarrow> core_detector \<Rightarrow> blocking_event list" where
  "events_in is d = List.map_filter (\<lambda>l. event_of_line l d) (lines_of is)"

definition losses_in :: "reader_input list \<Rightarrow> core_detector \<Rightarrow> lost_event list" where
  "losses_in is d = List.map_filter (\<lambda>l. loss_of_line l d) (lines_of is)"

interpretation core_ledger: loss_ledger core_lose cd_loss_counts
  by unfold_locales (simp add: core_lose_def)

lemma events_in_simps [simp]:
  "events_in [] d = []"
  "events_in (Line l # is) d = (case event_of_line l d of None \<Rightarrow> [] | Some e \<Rightarrow> [e]) @ events_in is d"
  "events_in (StopRequested # is) d = events_in is d"
  by (simp_all add: events_in_def map_filter_simps split: option.split)

lemma losses_in_simps [simp]:
  "losses_in [] d = []"
  "losses_in (Line l # is) d = (case loss_of_line l d of None \<Rightarrow> [] | Some e \<Rightarrow> [e]) @ losses_in is d"
  "losses_in (StopRequested # is) d = losses_in is d"
  by (simp_all add: losses_in_def map_filter_simps split: option.split)

lemma events_in_cong: "identity d = identity d' \<Longrightarrow> events_in is d = events_in is d'"
  by (simp add: events_in_def line_cong(2) [of d d'])

lemma losses_in_cong: "identity d = identity d' \<Longrightarrow> losses_in is d = losses_in is d'"
  by (simp add: losses_in_def line_cong(3) [of d d'])

lemma identity_stop [simp]: "identity (d\<lparr>cd_stop_requested := b\<rparr>) = identity d"
  by (simp add: identity_def)

text \<open>One line: what it delivers and what it adds to the ledger.\<close>

lemma handle_line_delivers:
  "cd_delivered (fst (handle_line cb l d)) =
     cd_delivered d @ (case event_of_line l d of None \<Rightarrow> [] | Some e \<Rightarrow> [e])"
  by (cases rule: handle_line_cases [of l d cb]) simp_all

lemma handle_line_losses:
  "cd_loss_counts (fst (handle_line cb l d)) =
     fold loss_add (case loss_of_line l d of None \<Rightarrow> [] | Some e \<Rightarrow> [e]) (cd_loss_counts d)"
  by (cases rule: handle_line_cases [of l d cb]) simp_all

lemma read_lines_identity: "identity (fst (read_lines cb is d)) = identity d"
proof (induction "is" arbitrary: d)
  case (Cons i "is")
  show ?case
  proof (cases i)
    case (Line l)
    obtain d1 x where hl: "handle_line cb l d = (d1, x)"
      by fastforce
    have "identity d1 = identity d"
      using handle_line_identity [of cb l d] by (simp add: hl)
    with Cons show ?thesis
      by (cases x) (simp_all add: Line hl)
  qed (simp add: Cons)
qed simp

lemma read_lines_run:
  "read_lines cb is d = (d', None) \<Longrightarrow>
   cd_delivered d' = cd_delivered d @ events_in is d \<and>
   cd_loss_counts d' = fold loss_add (losses_in is d) (cd_loss_counts d)"
proof (induction "is" arbitrary: d)
  case (Cons i "is")
  show ?case
  proof (cases i)
    case (Line l)
    obtain d1 x where hl: "handle_line cb l d = (d1, x)"
      by fastforce
    with Cons.prems Line have x: "x = None" and rest: "read_lines cb is d1 = (d', None)"
      by (cases x; simp)+
    have id: "identity d1 = identity d"
      using handle_line_identity [of cb l d] by (simp add: hl)
    show ?thesis
      using Cons.IH [OF rest] handle_line_delivers [of cb l d] handle_line_losses [of cb l d]
        events_in_cong [OF id] losses_in_cong [OF id]
      by (simp add: Line hl)
  next
    case StopRequested
    with Cons.IH [of "d\<lparr>cd_stop_requested := True\<rparr>"] Cons.prems show ?thesis
      using events_in_cong [of "d\<lparr>cd_stop_requested := True\<rparr>" d] losses_in_cong [of "d\<lparr>cd_stop_requested := True\<rparr>" d]
      by simp
  qed
qed simp

lemma core_inv_read_lines: "core_inv d \<Longrightarrow> core_inv (fst (read_lines cb is d))"
proof (induction "is" arbitrary: d)
  case (Cons i "is")
  show ?case
  proof (cases i)
    case (Line l)
    obtain d1 x where hl: "handle_line cb l d = (d1, x)"
      by fastforce
    have "core_inv d1"
      using core_inv_handle_line [OF Cons.prems, of cb l] by (simp add: hl)
    with Cons.IH show ?thesis
      by (cases x) (simp_all add: Line hl)
  next
    case StopRequested
    have "core_inv (d\<lparr>cd_stop_requested := True\<rparr>)"
      using Cons.prems by (simp add: core_inv_def)
    from Cons.IH [OF this] show ?thesis
      by (simp add: StopRequested)
  qed
qed simp

lemma core_inv_reader_finally: "core_inv d \<Longrightarrow> core_inv (reader_finally d)"
  by (simp add: reader_finally_def)

text \<open>Errors are never replaced.\<close>

lemma handle_line_errors_kept:
  "cd_startup_error d = Some e \<Longrightarrow> cd_ready d \<Longrightarrow>
     cd_startup_error (fst (handle_line cb l d)) = Some e \<and> cd_ready (fst (handle_line cb l d))"
  "cd_runtime_error d = Some e' \<Longrightarrow> cd_runtime_error (fst (handle_line cb l d)) = Some e'"
  by (cases rule: handle_line_cases [of l d cb]; auto simp: set_error_def)+

lemma startup_error_kept:
  "cd_startup_error d = Some e \<Longrightarrow> cd_ready d \<Longrightarrow> cd_startup_error (fst (read_lines cb is d)) = Some e"
proof (induction "is" arbitrary: d)
  case (Cons i "is")
  show ?case
  proof (cases i)
    case (Line l)
    obtain d1 x where hl: "handle_line cb l d = (d1, x)"
      by fastforce
    with handle_line_errors_kept(1) [OF Cons.prems, of cb l] Cons.IH [of d1] show ?thesis
      by (cases x) (simp_all add: Line)
  qed (use Cons in simp)
qed simp

lemma runtime_error_kept:
  "cd_runtime_error d = Some e \<Longrightarrow> cd_runtime_error (fst (read_lines cb is d)) = Some e"
proof (induction "is" arbitrary: d)
  case (Cons i "is")
  show ?case
  proof (cases i)
    case (Line l)
    obtain d1 x where hl: "handle_line cb l d = (d1, x)"
      by fastforce
    with handle_line_errors_kept(2) [OF Cons.prems, of cb l] Cons.IH [of d1] show ?thesis
      by (cases x) (simp_all add: Line)
  qed (use Cons in simp)
qed simp

text \<open>The handshake: a flag without an error comes from a matching ready message.\<close>

lemma read_lines_ready:
  "cd_ready (fst (read_lines cb is d)) \<Longrightarrow> cd_startup_error (fst (read_lines cb is d)) = None \<Longrightarrow>
   \<not> cd_ready d \<Longrightarrow> \<exists>l \<in> set (lines_of is). ready_line l d"
proof (induction "is" arbitrary: d)
  case (Cons i "is")
  show ?case
  proof (cases i)
    case (Line l)
    obtain d1 x where hl: "handle_line cb l d = (d1, x)"
      by fastforce
    have id: "identity d1 = identity d"
      using handle_line_identity [of cb l d] by (simp add: hl)
    show ?thesis
    proof (cases "ready_line l d")
      case True
      then show ?thesis by (auto simp: Line)
    next
      case False
      show ?thesis
      proof (cases "cd_ready d1")
        case True
        then have err: "cd_startup_error d1 \<noteq> None"
          using False Cons.prems(3) hl
          by (cases rule: handle_line_cases [of l d cb])
             (auto simp: set_error_def note_loss_eq core_lose_def)
        then obtain y where "cd_startup_error d1 = Some y"
          by blast
        from startup_error_kept [OF this True] Cons.prems(2) show ?thesis
          by (cases x) (simp_all add: Line hl \<open>cd_startup_error d1 = Some y\<close>)
      next
        case False
        then have "x = None"
          using Cons.prems(1) by (cases x) (simp_all add: Line hl)
        with Cons.IH [of d1] Cons.prems False line_cong(1) [OF id] show ?thesis
          by (auto simp: Line hl)
      qed
    qed
  next
    case StopRequested
    with Cons.IH [of "d\<lparr>cd_stop_requested := True\<rparr>"] Cons.prems
      line_cong(1) [of "d\<lparr>cd_stop_requested := True\<rparr>" d] show ?thesis
      by simp
  qed
qed simp

section \<open>Teardown\<close>

text \<open>The calls on the process of a detector that take it down.\<close>

definition teardown :: "proc_script option \<Rightarrow> proc_call list" where
  "teardown process = (case process of None \<Rightarrow> [] | Some p \<Rightarrow> fst (terminate_or_kill p))"

lemma cleanup_locked_ok:
  "(\<And>p. cd_process d = Some p \<Longrightarrow> proc_failures_caught p) \<Longrightarrow>
   cleanup_locked d = (d\<lparr>cd_process := None, cd_proc_calls := cd_proc_calls d @ teardown (cd_process d)\<rparr>, None)"
proof (cases "cd_process d")
  case None
  then show ?thesis
    by (simp add: cleanup_locked_def teardown_def)
next
  case (Some p)
  moreover assume "\<And>p. cd_process d = Some p \<Longrightarrow> proc_failures_caught p"
  ultimately have "snd (terminate_or_kill p) = None"
    by (intro terminate_or_kill_silent) simp
  then show ?thesis
    using Some by (cases "terminate_or_kill p") (auto simp: cleanup_locked_def teardown_def)
qed

lemma core_stop_ok:
  assumes "\<And>p. cd_process d = Some p \<Longrightarrow> proc_failures_caught p"
  shows "core_stop d = (d\<lparr>cd_stop_requested := True, cd_process := None,
    cd_proc_calls := cd_proc_calls d @ teardown (cd_process d)\<rparr>, None)"
  using cleanup_locked_ok [of "d\<lparr>cd_stop_requested := True\<rparr>"] assms by (simp add: core_stop_def)

section \<open>Launching\<close>

lemma build_command_fields:
  assumes "build_command fs sidecar d = (d', r)"
  shows "cd_process d' = cd_process d" "cd_ready d' = cd_ready d" "cd_startup_error d' = cd_startup_error d"
    "cd_runtime_error d' = cd_runtime_error d" "cd_delivered d' = cd_delivered d"
    "cd_loss_counts d' = cd_loss_counts d" "cd_stop_requested d' = cd_stop_requested d"
    "cd_config d' = cd_config d" "cd_executable d' = cd_executable d" "cd_proc_calls d' = cd_proc_calls d"
  using assms
  by (auto simp: build_command_def Let_def split: option.splits sum.splits)

lemma reset_session_fields [simp]:
  "cd_process (reset_session d) = cd_process d" "cd_config (reset_session d) = cd_config d"
  "\<not> cd_ready (reset_session d)" "cd_startup_error (reset_session d) = None"
  "cd_runtime_error (reset_session d) = None" "cd_loss_counts (reset_session d) = []"
  "\<not> cd_stop_requested (reset_session d)" "cd_delivered (reset_session d) = cd_delivered d"
  "cd_executable (reset_session d) = cd_executable d" "cd_proc_calls (reset_session d) = cd_proc_calls d"
  by (simp_all add: reset_session_def)

lemma raise_after_cleanup_not_None: "raise_after_cleanup e d \<noteq> (d', None)"
  by (cases "cleanup_locked d"; cases "snd (cleanup_locked d)") (auto simp: raise_after_cleanup_def)

lemma launch_ok:
  assumes "launch fs popen sidecar d = (d', None)"
  shows "\<exists>d1 command p. build_command fs sidecar (reset_session d) = (d1, Inr command) \<and>
    popen command = Spawned p \<and> d' = d1\<lparr>cd_process := Some p\<rparr>"
proof -
  obtain d1 r where b: "build_command fs sidecar (reset_session d) = (d1, r)"
    by fastforce
  show ?thesis
  proof (cases r)
    case (Inl e)
    with assms b show ?thesis
      by (simp add: launch_def raise_after_cleanup_not_None)
  next
    case (Inr command)
    with assms b raise_after_cleanup_not_None show ?thesis
      by (cases "popen command") (auto simp: launch_def Let_def split: if_splits)
  qed
qed

text \<open>Everything the process table and the launch do fails in the ways the code handles.\<close>

definition spawn_ok :: "spawn \<Rightarrow> bool" where
  "spawn_ok s = (case s of
     Spawned p \<Rightarrow> proc_failures_caught p
   | SpawnRaises e _ \<Rightarrow> is_Exception e
   | ReaderRaises p e _ \<Rightarrow> proc_failures_caught p \<and> is_Exception e)"

lemma raise_after_cleanup_ok:
  assumes "\<And>p. cd_process d = Some p \<Longrightarrow> proc_failures_caught p"
  shows "raise_after_cleanup e d =
    (d\<lparr>cd_process := None, cd_proc_calls := cd_proc_calls d @ teardown (cd_process d)\<rparr>, Some e)"
  by (simp add: raise_after_cleanup_def cleanup_locked_ok [OF assms])

text \<open>The process a launch creates, whether or not its readers can be started.\<close>

definition launched :: "procfs \<Rightarrow> (string list \<Rightarrow> spawn) \<Rightarrow> string \<Rightarrow> core_detector \<Rightarrow> proc_script option" where
  "launched fs popen sidecar d =
     (case build_command fs sidecar (reset_session d) of
        (_, Inl _) \<Rightarrow> None
      | (_, Inr command) \<Rightarrow>
          (case popen command of Spawned p \<Rightarrow> Some p | SpawnRaises _ _ \<Rightarrow> None | ReaderRaises p _ _ \<Rightarrow> Some p))"

lemma launch_raises:
  assumes "launch fs popen sidecar d = (d', Some e)" and "cd_process d = None" and "\<And>c. spawn_ok (popen c)"
  shows "cd_process d' = None \<and> cd_proc_calls d' = cd_proc_calls d @ teardown (launched fs popen sidecar d)"
proof -
  obtain d1 r where b: "build_command fs sidecar (reset_session d) = (d1, r)"
    by fastforce
  have p1: "cd_process d1 = None" "cd_proc_calls d1 = cd_proc_calls d"
    using build_command_fields(1,10) [OF b] assms(2) by simp_all
  show ?thesis
  proof (cases r)
    case (Inl x)
    with assms(1) b p1 raise_after_cleanup_ok [of d1 x] show ?thesis
      by (auto simp: launch_def launched_def teardown_def)
  next
    case (Inr command)
    show ?thesis
    proof (cases "popen command")
      case (Spawned p)
      with Inr b assms(1) show ?thesis by (simp add: launch_def)
    next
      case (SpawnRaises x detail)
      with Inr b assms(1) p1 assms(3) [of command] raise_after_cleanup_ok [of d1 "start_error sidecar detail x"]
      show ?thesis
        by (auto simp: launch_def spawn_ok_def launched_def teardown_def)
    next
      case (ReaderRaises p x detail)
      with Inr b p1 assms(1) assms(3) [of command]
        raise_after_cleanup_ok [of "d1\<lparr>cd_process := Some p\<rparr>" "start_error sidecar detail x"]
      show ?thesis
        by (auto simp: launch_def spawn_ok_def launched_def)
    qed
  qed
qed

lemma read_lines_process:
  "cd_process (fst (read_lines cb is d)) = cd_process d \<and> cd_proc_calls (fst (read_lines cb is d)) = cd_proc_calls d"
proof (induction "is" arbitrary: d)
  case (Cons i "is")
  show ?case
  proof (cases i)
    case (Line l)
    obtain d1 x where hl: "handle_line cb l d = (d1, x)"
      by fastforce
    have "cd_process d1 = cd_process d" "cd_proc_calls d1 = cd_proc_calls d"
      using hl by (cases rule: handle_line_cases [of l d cb]; auto simp: note_loss_eq core_lose_def)+
    with Cons show ?thesis
      by (cases x) (simp_all add: Line hl)
  qed (simp add: Cons)
qed simp

lemma reader_finally_fields [simp]:
  "cd_process (reader_finally d) = cd_process d" "cd_proc_calls (reader_finally d) = cd_proc_calls d" "identity (reader_finally d) = identity d"
  "cd_delivered (reader_finally d) = cd_delivered d" "cd_loss_counts (reader_finally d) = cd_loss_counts d"
  by (simp_all add: reader_finally_def)

lemma reader_until_cases:
  assumes "cd_process d \<noteq> None"
  shows "reader_until cb is ended d = reader_finally (fst (read_lines cb is d)) \<or>
         reader_until cb is ended d = fst (read_lines cb is d)"
  using assms
  by (cases "read_lines cb is d"; cases "snd (read_lines cb is d)")
     (auto simp: reader_until_def read_messages_def Let_def)

lemma reader_until_process:
  "cd_process d \<noteq> None \<Longrightarrow> cd_process (reader_until cb is ended d) = cd_process d \<and>
   cd_proc_calls (reader_until cb is ended d) = cd_proc_calls d"
  using reader_until_cases [of d cb "is" ended] by (auto simp: read_lines_process)

end
