(* ===== verification/Backends.thy ===== *)
theory Backends
  imports CoreBackend Detector
begin

text \<open>
  Backend selection of \<open>blocksnoop/backends.py\<close>. The backend is the string of the command line;
  \<open>bcc_importable\<close> tells whether \<open>import bcc\<close> succeeds.
\<close>

definition bcc_missing :: string where
  "bcc_missing = ''BCC is the explicit legacy backend, but its Python module is not installed. ''
     @ ''Install it from https://github.com/iovisor/bcc/blob/master/INSTALL.md, or omit ''
     @ ''`--backend bcc` to use the default Core backend.''"

definition core_missing :: string where
  "core_missing = ''Core sidecar `blocksnoop-ebpf` was not found. Install a native Linux ''
     @ ''blocksnoop wheel or use the official Docker image; alternatively set ''
     @ ''BLOCKSNOOP_EBPF to a compatible sidecar. The portable wheel does not ''
     @ ''include native Core assets.''"

definition validate_backend_available :: "bool \<Rightarrow> host_env \<Rightarrow> string \<Rightarrow> exn option" where
  "validate_backend_available bcc_importable env backend =
     (if backend = ''bcc''
      then (if bcc_importable then None else Some (BackendUnavailableError bcc_missing))
      else if find_sidecar env DEFAULT_SIDECAR = None then Some (BackendUnavailableError core_missing)
      else None)"

datatype detector = Bcc bcc_detector | Core core_detector

definition create_detector :: "string \<Rightarrow> detector_config \<Rightarrow> detector result" where
  "create_detector backend config =
     (if backend = ''bcc'' then Inr (Bcc (BccDetector config))
      else if backend = ''core'' then Inr (Core (CoreDetector config DEFAULT_SIDECAR 5))
      else Inl ValueError)"

fun detector_loss_counts :: "detector \<Rightarrow> (string, int) dict" where
  "detector_loss_counts (Bcc d) = bd_loss_counts d"
| "detector_loss_counts (Core d) = cd_loss_counts d"

fun detector_stop :: "detector \<Rightarrow> detector \<times> exn option" where
  "detector_stop (Bcc d) = (Bcc (bcc_stop d), None)"
| "detector_stop (Core d) = (let (d', e) = core_stop d in (Core d', e))"

fun detector_check_health :: "bool \<Rightarrow> detector \<Rightarrow> exn option" where
  "detector_check_health exited (Bcc d) = bcc_check_health d"
| "detector_check_health exited (Core d) = core_check_health exited d"

text \<open>The protocol both detectors implement, as the CLI relies on it: stopping keeps the ledger, and
  a stopped detector stays stopped.\<close>

locale detector_api =
  fixes stop :: "'d \<Rightarrow> 'd \<times> exn option" and counts :: "'d \<Rightarrow> (string, int) dict"
    and usable :: "'d \<Rightarrow> bool"
  assumes stop_ok: "usable d \<Longrightarrow> snd (stop d) = None \<and> usable (fst (stop d))"
    and stop_keeps_counts: "usable d \<Longrightarrow> counts (fst (stop d)) = counts d"
    and stop_again: "usable d \<Longrightarrow> stop (fst (stop d)) = (fst (stop d), None)"
begin

lemma stops_ok: "usable d \<Longrightarrow> stop ((fst \<circ> stop) ((fst \<circ> stop) d)) = (fst (stop d), None)"
  by (simp add: stop_again)

lemma counts_after_stops: "usable d \<Longrightarrow> counts (((fst \<circ> stop) ^^ n) d) = counts d \<and> usable (((fst \<circ> stop) ^^ n) d)"
  by (induction n) (simp_all add: stop_ok stop_keeps_counts)

end

definition detector_usable :: "detector \<Rightarrow> bool" where
  "detector_usable d = (case d of Bcc _ \<Rightarrow> True
     | Core c \<Rightarrow> (case cd_process c of None \<Rightarrow> True | Some p \<Rightarrow> proc_failures_caught p))"

lemma core_stop_fields:
  assumes "detector_usable (Core c)"
  shows "\<exists>calls. core_stop c = (c\<lparr>cd_stop_requested := True, cd_process := None, cd_proc_calls := calls\<rparr>, None)"
proof (cases "cd_process c")
  case None
  then show ?thesis
    by (intro exI [of _ "cd_proc_calls c"]) (simp add: core_stop_def cleanup_locked_def)
next
  case (Some p)
  with assms have "snd (terminate_or_kill p) = None"
    by (intro terminate_or_kill_silent) (simp add: detector_usable_def)
  with Some show ?thesis
    by (cases "terminate_or_kill p") (auto simp: core_stop_def cleanup_locked_def)
qed

lemma detector_stop_ok:
  assumes "detector_usable d"
  shows "snd (detector_stop d) = None \<and> detector_usable (fst (detector_stop d)) \<and>
    detector_loss_counts (fst (detector_stop d)) = detector_loss_counts d \<and>
    detector_stop (fst (detector_stop d)) = (fst (detector_stop d), None)"
proof (cases d)
  case (Bcc b)
  then show ?thesis
    by (simp add: detector_usable_def bcc_stop_def)
next
  case (Core c)
  obtain calls where
    "core_stop c = (c\<lparr>cd_stop_requested := True, cd_process := None, cd_proc_calls := calls\<rparr>, None)"
    using core_stop_fields assms Core by blast
  then show ?thesis
    by (auto simp: Core detector_usable_def core_stop_def cleanup_locked_def)
qed

interpretation any_detector: detector_api detector_stop detector_loss_counts detector_usable
  by unfold_locales (simp_all add: detector_stop_ok)

text \<open>Stopping a detector of either backend, any number of times, raises nothing and leaves the
  loss counts the summary reads as they were.\<close>

theorem detector_stop_keeps_losses:
  assumes "case d of Bcc b \<Rightarrow> True | Core c \<Rightarrow> \<forall>p. cd_process c = Some p \<longrightarrow> proc_failures_caught p"
  shows "snd (detector_stop d) = None \<and>
    detector_loss_counts (((fst \<circ> detector_stop) ^^ n) d) = detector_loss_counts d \<and>
    detector_stop (fst (detector_stop d)) = (fst (detector_stop d), None)"
proof -
  have "detector_usable d"
    using assms by (auto simp: detector_usable_def split: detector.splits option.splits)
  then show ?thesis
    using any_detector.stop_ok any_detector.counts_after_stops any_detector.stop_again by blast
qed

lemma detector_stop_keeps_losses_witness:
  "detector_loss_counts (((fst \<circ> detector_stop) ^^ 3)
     (Bcc ((BccDetector (DetectorConfig 7 100 None 200))\<lparr>bd_loss_counts := [(''perf_buffer'', 2)]\<rparr>))) = [(''perf_buffer'', 2)]"
  using detector_stop_keeps_losses
    [of "Bcc ((BccDetector (DetectorConfig 7 100 None 200))\<lparr>bd_loss_counts := [(''perf_buffer'', 2)]\<rparr>)" 3]
  by simp

end
