(* ===== verification/RunLoop.thy ===== *)
theory RunLoop
  imports Process
begin

text \<open>
  The signal and wait loop \<open>_run_loop\<close> of \<open>blocksnoop/cli.py\<close>, shared by both modes, with the
  cleanup it runs at most once and \<open>_stop_child\<close>. The calls the loop makes turn out as a script
  says; a call may be interrupted by a signal, and then the installed handler runs in it. The
  result carries the actions in order, so a property can speak of what was done and when. A script
  whose turns are used up leaves the loop running.
\<close>

section \<open>Calls and their outcomes\<close>

datatype outcome = Returns | Raises exn | Signal int

datatype action =
    InstallHandlers
  | CallStart
  | PollChild
  | CallHealth
  | Sleep
  | ReapChild
  | CallStop
  | OnExit string
  | StopChild "proc_call list"
  | RestoreHandlers

text \<open>One turn of the wait loop: what \<open>poll()\<close> says of the child, the health check, the sleep.\<close>

record turn =
  tn_exited :: "int option"
  tn_health :: outcome
  tn_sleep :: outcome

record loop_script =
  ls_child :: "proc_script option"
  ls_install :: outcome
  ls_start :: outcome
  ls_turns :: "turn list"
  ls_reap :: outcome
  ls_stop :: outcome
  ls_exit :: outcome

type_synonym loop_state = "bool \<times> action list"

definition act :: "action \<Rightarrow> loop_state \<Rightarrow> loop_state" where
  "act a st = (fst st, snd st @ [a])"

section \<open>Cleanup\<close>

definition stop_child :: "proc_script option \<Rightarrow> proc_call list \<times> exn option" where
  "stop_child child = (case child of None \<Rightarrow> ([], None) | Some p \<Rightarrow> terminate_or_kill p)"

text \<open>A signal inside the cleanup finds it already begun: the handler only raises \<open>SystemExit\<close>.\<close>

fun raised_in_cleanup :: "outcome \<Rightarrow> exn option" where
  "raised_in_cleanup Returns = None"
| "raised_in_cleanup (Raises e) = Some e"
| "raised_in_cleanup (Signal n) = Some (SystemExit (128 + n))"

definition or_else :: "'a option \<Rightarrow> 'a option \<Rightarrow> 'a option" where
  "or_else x y = (case x of Some a \<Rightarrow> Some a | None \<Rightarrow> y)"

text \<open>\<open>try: on_exit(reason) finally: _stop_child(child)\<close>; a later exception replaces an earlier one.\<close>

definition exit_and_stop_child :: "loop_script \<Rightarrow> string \<Rightarrow> loop_state \<Rightarrow> loop_state \<times> exn option" where
  "exit_and_stop_child w reason st =
     (let (calls, child_error) = stop_child (ls_child w)
      in (act (StopChild calls) (act (OnExit reason) st),
          or_else child_error (raised_in_cleanup (ls_exit w))))"

definition cleanup :: "loop_script \<Rightarrow> string \<Rightarrow> loop_state \<Rightarrow> loop_state \<times> exn option" where
  "cleanup w termination_reason st =
     (if fst st then (st, None)
      else let st = act CallStop (True, snd st)
           in case raised_in_cleanup (ls_stop w) of
                Some e \<Rightarrow>
                  (let (st, e') = exit_and_stop_child w ''runtime_error'' st in (st, or_else e' (Some e)))
              | None \<Rightarrow> exit_and_stop_child w termination_reason st)"

text \<open>The installed signal handler: cleanup, then \<open>SystemExit(128 + signum)\<close>.\<close>

definition shutdown :: "loop_script \<Rightarrow> int \<Rightarrow> loop_state \<Rightarrow> loop_state \<times> exn" where
  "shutdown w signum st =
     (let (st, e) = cleanup w ''signal'' st
      in (st, case e of Some e \<Rightarrow> e | None \<Rightarrow> SystemExit (128 + signum)))"

definition call :: "loop_script \<Rightarrow> action \<Rightarrow> outcome \<Rightarrow> loop_state \<Rightarrow> loop_state \<times> exn option" where
  "call w a res st =
     (case res of
        Returns \<Rightarrow> (act a st, None)
      | Raises e \<Rightarrow> (act a st, Some e)
      | Signal n \<Rightarrow> (let (st, e) = shutdown w n (act a st) in (st, Some e)))"

section \<open>The loop\<close>

datatype progress = Running | Finished "int option" | Stopped exn

definition and_then ::
  "loop_state \<times> exn option \<Rightarrow> (loop_state \<Rightarrow> loop_state \<times> progress) \<Rightarrow> loop_state \<times> progress" where
  "and_then r k = (case r of (st, None) \<Rightarrow> k st | (st, Some e) \<Rightarrow> (st, Stopped e))"

fun wait_child :: "loop_script \<Rightarrow> turn list \<Rightarrow> loop_state \<Rightarrow> loop_state \<times> progress" where
  "wait_child w [] st = (st, Running)"
| "wait_child w (t # ts) st =
     (let st = act PollChild st
      in case tn_exited t of
           Some returncode \<Rightarrow>
             and_then (call w ReapChild (ls_reap w) st) (\<lambda>st. (st, Finished (Some returncode)))
         | None \<Rightarrow>
             and_then (call w CallHealth (tn_health t) st) (\<lambda>st.
             and_then (call w Sleep (tn_sleep t) st) (wait_child w ts)))"

fun wait_forever :: "loop_script \<Rightarrow> turn list \<Rightarrow> loop_state \<Rightarrow> loop_state \<times> progress" where
  "wait_forever w [] st = (st, Running)"
| "wait_forever w (t # ts) st =
     and_then (call w CallHealth (tn_health t) st) (\<lambda>st.
     and_then (call w Sleep (tn_sleep t) st) (wait_forever w ts))"

definition loop_body :: "loop_script \<Rightarrow> loop_state \<Rightarrow> loop_state \<times> progress" where
  "loop_body w st =
     and_then (call w CallStart (ls_start w) st)
       (if ls_child w \<noteq> None then wait_child w (ls_turns w) else wait_forever w (ls_turns w))"

datatype loop_result =
    StillRunning "action list"
  | Returned "int option" "action list"
  | Escaped exn "action list"

definition restored :: "loop_state \<Rightarrow> action list" where
  "restored st = snd st @ [RestoreHandlers]"

definition raise_or :: "loop_state \<times> exn option \<Rightarrow> exn \<Rightarrow> loop_result" where
  "raise_or r e = (case r of (st, Some e') \<Rightarrow> Escaped e' (restored st) | (st, None) \<Rightarrow> Escaped e (restored st))"

definition termination_reason_of :: "loop_script \<Rightarrow> int option \<Rightarrow> string" where
  "termination_reason_of w returncode =
     (if ls_child w = None \<or> returncode = Some 0 then ''clean'' else ''child_exit'')"

text \<open>The three clauses around the body: \<open>KeyboardInterrupt\<close>, every other exception, and \<open>else\<close>.\<close>

definition conclude :: "loop_script \<Rightarrow> loop_state \<times> progress \<Rightarrow> loop_result" where
  "conclude w r =
     (case r of
        (st, Running) \<Rightarrow> StillRunning (snd st)
      | (st, Stopped e) \<Rightarrow>
          if e = KeyboardInterrupt then raise_or (cleanup w ''signal'' st) (SystemExit 130)
          else raise_or (cleanup w ''runtime_error'' st) e
      | (st, Finished returncode) \<Rightarrow>
          (case cleanup w (termination_reason_of w returncode) st of
             (st, Some e) \<Rightarrow> Escaped e (restored st)
           | (st, None) \<Rightarrow> Returned (if ls_child w \<noteq> None then returncode else None) (restored st)))"

definition run_loop :: "loop_script \<Rightarrow> loop_result" where
  "run_loop w =
     (case call w InstallHandlers (ls_install w) (False, []) of
        (st, Some e) \<Rightarrow> Escaped e (restored st)
      | (st, None) \<Rightarrow> conclude w (loop_body w st))"

section \<open>Shape of the action traces\<close>

text \<open>The actions of a cleanup, and the traces before and after it.\<close>

fun cleanup_action :: "action \<Rightarrow> bool" where
  "cleanup_action CallStop = True"
| "cleanup_action (OnExit _) = True"
| "cleanup_action (StopChild _) = True"
| "cleanup_action RestoreHandlers = True"
| "cleanup_action _ = False"

definition effective_reason :: "loop_script \<Rightarrow> string \<Rightarrow> string" where
  "effective_reason w reason = (if raised_in_cleanup (ls_stop w) = None then reason else ''runtime_error'')"

definition cleanup_actions :: "loop_script \<Rightarrow> string \<Rightarrow> action list" where
  "cleanup_actions w reason =
     [CallStop, OnExit (effective_reason w reason), StopChild (fst (stop_child (ls_child w)))]"

definition pending :: "loop_state \<Rightarrow> bool" where
  "pending st \<longleftrightarrow> \<not> fst st \<and> list_all (\<lambda>a. \<not> cleanup_action a) (snd st)"

text \<open>Cleaned up because of \<open>reason\<close>.\<close>

definition cleaned :: "loop_script \<Rightarrow> string \<Rightarrow> loop_state \<Rightarrow> bool" where
  "cleaned w reason st \<longleftrightarrow> fst st \<and>
     (\<exists>before. list_all (\<lambda>a. \<not> cleanup_action a) before \<and> snd st = before @ cleanup_actions w reason)"

text \<open>The exception a cleanup ends with.\<close>

definition cleanup_error :: "loop_script \<Rightarrow> exn option" where
  "cleanup_error w = or_else (snd (stop_child (ls_child w)))
     (or_else (raised_in_cleanup (ls_exit w)) (raised_in_cleanup (ls_stop w)))"

lemma or_else_simps [simp]: "or_else None y = y" "or_else (Some a) y = Some a" "or_else x None = x"
  by (simp_all add: or_else_def split: option.split)

lemma act_simps [simp]: "fst (act a st) = fst st" "snd (act a st) = snd st @ [a]"
  by (simp_all add: act_def)

lemma pending_act: "pending st \<Longrightarrow> \<not> cleanup_action a \<Longrightarrow> pending (act a st)"
  by (simp add: pending_def)

lemma pending_initial [simp]: "pending (False, [])"
  by (simp add: pending_def)

lemma cleanup_again: "cleaned w reason st \<Longrightarrow> cleanup w reason' st = (st, None)"
  by (simp add: cleaned_def cleanup_def)

lemma cleanup_pending:
  assumes "pending st"
  shows "\<exists>st'. cleanup w reason st = (st', cleanup_error w) \<and> cleaned w reason st'"
proof -
  obtain b tr where st: "st = (b, tr)"
    by fastforce
  obtain calls e where sc: "stop_child (ls_child w) = (calls, e)"
    by fastforce
  from assms have "\<not> b" "list_all (\<lambda>a. \<not> cleanup_action a) tr"
    by (simp_all add: st pending_def)
  then show ?thesis
    by (cases "raised_in_cleanup (ls_stop w)"; cases "raised_in_cleanup (ls_exit w)"; cases e)
       (auto simp: cleanup_def st exit_and_stop_child_def sc cleanup_error_def cleaned_def act_def
          cleanup_actions_def effective_reason_def)
qed

section \<open>The body never half cleans up\<close>

text \<open>The outcomes the script holds for the calls of the body.\<close>

definition body_outcomes :: "loop_script \<Rightarrow> outcome list" where
  "body_outcomes w = [ls_start w, ls_reap w] @ concat (map (\<lambda>t. [tn_health t, tn_sleep t]) (ls_turns w))"

definition interrupted :: "loop_script \<Rightarrow> int \<Rightarrow> exn \<Rightarrow> bool" where
  "interrupted w n e \<longleftrightarrow> e = (case cleanup_error w of Some e' \<Rightarrow> e' | None \<Rightarrow> SystemExit (128 + n))"

text \<open>How a stopped body is left: by an exception of a call, nothing cleaned up yet, or by a signal
  whose handler has cleaned up.\<close>

definition stopped_ok :: "loop_script \<Rightarrow> outcome set \<Rightarrow> loop_state \<Rightarrow> exn \<Rightarrow> bool" where
  "stopped_ok w outs st e \<longleftrightarrow>
     (pending st \<and> Raises e \<in> outs) \<or>
     (cleaned w ''signal'' st \<and> (\<exists>n. Signal n \<in> outs \<and> interrupted w n e))"

definition body_ok :: "loop_script \<Rightarrow> outcome set \<Rightarrow> int option set \<Rightarrow> loop_state \<times> progress \<Rightarrow> bool" where
  "body_ok w outs codes r \<longleftrightarrow>
     (case snd r of
        Running \<Rightarrow> pending (fst r)
      | Finished rc \<Rightarrow> pending (fst r) \<and> rc \<in> codes
      | Stopped e \<Rightarrow> stopped_ok w outs (fst r) e)"

lemma shutdown_pending:
  "pending st \<Longrightarrow> \<exists>st' e. shutdown w n st = (st', e) \<and> cleaned w ''signal'' st' \<and> interrupted w n e"
  using cleanup_pending [of st w "''signal''"]
  by (auto simp: shutdown_def interrupted_def split: option.splits)

lemma call_body_ok:
  assumes "pending st" "\<not> cleanup_action a" "res \<in> outs"
    and "\<And>st'. pending st' \<Longrightarrow> body_ok w outs codes (k st')"
  shows "body_ok w outs codes (and_then (call w a res st) k)"
proof (cases res)
  case (Signal n)
  obtain st' e where "shutdown w n (act a st) = (st', e)" "cleaned w ''signal'' st'" "interrupted w n e"
    using shutdown_pending [OF pending_act [OF assms(1,2)]] by blast
  with Signal assms(3) show ?thesis
    by (auto simp: call_def and_then_def body_ok_def stopped_ok_def)
qed (use assms in \<open>auto simp: call_def and_then_def body_ok_def stopped_ok_def pending_act\<close>)

lemma body_ok_mono:
  "body_ok w outs codes r \<Longrightarrow> outs \<subseteq> outs' \<Longrightarrow> codes \<subseteq> codes' \<Longrightarrow> body_ok w outs' codes' r"
  by (auto simp: body_ok_def stopped_ok_def split: progress.splits)

definition turn_outcomes :: "turn list \<Rightarrow> outcome set" where
  "turn_outcomes ts = (\<Union>t \<in> set ts. {tn_health t, tn_sleep t})"

lemma wait_child_ok:
  "pending st \<Longrightarrow> body_ok w (insert (ls_reap w) (turn_outcomes ts))
     {Some rc |rc. \<exists>t \<in> set ts. tn_exited t = Some rc} (wait_child w ts st)"
proof (induction ts arbitrary: st)
  case Nil
  then show ?case by (simp add: body_ok_def)
next
  case (Cons t ts)
  have p: "pending (act PollChild st)"
    using Cons.prems by (simp add: pending_act)
  let ?outs = "insert (ls_reap w) (turn_outcomes (t # ts))"
  let ?codes = "{Some rc |rc. \<exists>t \<in> set (t # ts). tn_exited t = Some rc}"
  show ?case
  proof (cases "tn_exited t")
    case None
    have IH: "body_ok w ?outs ?codes (wait_child w ts st')" if "pending st'" for st'
      by (rule body_ok_mono [OF Cons.IH [OF that]]) (auto simp: turn_outcomes_def)
    have "body_ok w ?outs ?codes (and_then (call w CallHealth (tn_health t) (act PollChild st)) (\<lambda>st.
        and_then (call w Sleep (tn_sleep t) st) (wait_child w ts)))"
      by (intro call_body_ok p IH) (simp_all add: turn_outcomes_def)
    then show ?thesis
      by (simp add: None)
  next
    case (Some rc)
    have "body_ok w ?outs ?codes (and_then (call w ReapChild (ls_reap w) (act PollChild st))
        (\<lambda>st. (st, Finished (Some rc))))"
      by (intro call_body_ok p) (auto simp: body_ok_def Some)
    then show ?thesis
      by (simp add: Some)
  qed
qed

lemma wait_forever_ok:
  "pending st \<Longrightarrow> body_ok w (turn_outcomes ts) {} (wait_forever w ts st)"
proof (induction ts arbitrary: st)
  case Nil
  then show ?case by (simp add: body_ok_def)
next
  case (Cons t ts)
  have IH: "body_ok w (turn_outcomes (t # ts)) {} (wait_forever w ts st')" if "pending st'" for st'
    by (rule body_ok_mono [OF Cons.IH [OF that]]) (auto simp: turn_outcomes_def)
  show ?case
    unfolding wait_forever.simps
    by (intro call_body_ok Cons.prems IH) (simp_all add: turn_outcomes_def)
qed

definition exit_codes :: "loop_script \<Rightarrow> int option set" where
  "exit_codes w = {Some rc |rc. ls_child w \<noteq> None \<and> (\<exists>t \<in> set (ls_turns w). tn_exited t = Some rc)}"

lemma loop_body_ok: "pending st \<Longrightarrow> body_ok w (set (body_outcomes w)) (exit_codes w) (loop_body w st)"
proof -
  assume p: "pending st"
  have outs: "turn_outcomes (ls_turns w) \<subseteq> set (body_outcomes w)" "ls_start w \<in> set (body_outcomes w)"
    "ls_reap w \<in> set (body_outcomes w)"
    by (auto simp: body_outcomes_def turn_outcomes_def)
  show ?thesis
  proof (cases "ls_child w = None")
    case True
    have "body_ok w (set (body_outcomes w)) (exit_codes w) (wait_forever w (ls_turns w) st')" if "pending st'" for st'
      by (rule body_ok_mono [OF wait_forever_ok [OF that]]) (use outs in auto)
    with True p outs(2) show ?thesis
      unfolding loop_body_def by (auto intro: call_body_ok)
  next
    case False
    have "body_ok w (set (body_outcomes w)) (exit_codes w) (wait_child w (ls_turns w) st')" if "pending st'" for st'
      by (rule body_ok_mono [OF wait_child_ok [OF that]]) (use outs False in \<open>auto simp: exit_codes_def\<close>)
    with False p outs(2) show ?thesis
      unfolding loop_body_def by (auto intro: call_body_ok)
  qed
qed

section \<open>How a run ends\<close>

text \<open>Every way a run of the loop can end, with its reason, its exception and its trace.\<close>

datatype ending = Exited int | Failed exn | Interrupted int

definition reason_of :: "ending \<Rightarrow> string" where
  "reason_of x = (case x of
     Exited rc \<Rightarrow> if rc = 0 then ''clean'' else ''child_exit''
   | Failed e \<Rightarrow> if e = KeyboardInterrupt then ''signal'' else ''runtime_error''
   | Interrupted n \<Rightarrow> ''signal'')"

definition possible :: "loop_script \<Rightarrow> ending \<Rightarrow> bool" where
  "possible w x = (case x of
     Exited rc \<Rightarrow> ls_child w \<noteq> None \<and> (\<exists>t \<in> set (ls_turns w). tn_exited t = Some rc)
   | Failed e \<Rightarrow> Raises e \<in> set (body_outcomes w)
   | Interrupted n \<Rightarrow> Signal n \<in> insert (ls_install w) (set (body_outcomes w)))"

definition final_trace :: "loop_script \<Rightarrow> ending \<Rightarrow> action list \<Rightarrow> bool" where
  "final_trace w x tr \<longleftrightarrow> (\<exists>before. list_all (\<lambda>a. \<not> cleanup_action a) before \<and>
     tr = before @ cleanup_actions w (reason_of x) @ [RestoreHandlers])"

text \<open>An error of the cleanup takes precedence. A \<open>KeyboardInterrupt\<close> out of a cleanup the signal
  handler ran is turned into \<open>SystemExit(130)\<close> by the loop.\<close>

definition ends_with :: "loop_script \<Rightarrow> ending \<Rightarrow> loop_result \<Rightarrow> bool" where
  "ends_with w x res \<longleftrightarrow> possible w x \<and>
     (case x of
        Exited rc \<Rightarrow>
          (case cleanup_error w of
             None \<Rightarrow> \<exists>tr. res = Returned (Some rc) tr \<and> final_trace w x tr
           | Some e \<Rightarrow> \<exists>tr. res = Escaped e tr \<and> final_trace w x tr)
      | Failed e \<Rightarrow> \<exists>tr. res = Escaped (case cleanup_error w of Some e' \<Rightarrow> e' | None \<Rightarrow>
          if e = KeyboardInterrupt then SystemExit 130 else e) tr \<and> final_trace w x tr
      | Interrupted n \<Rightarrow> \<exists>e tr. res = Escaped e tr \<and> final_trace w x tr \<and>
          (case cleanup_error w of
             None \<Rightarrow> e = SystemExit (128 + n)
           | Some e' \<Rightarrow> e = e' \<or> (e' = KeyboardInterrupt \<and> e = SystemExit 130)))"

lemma final_trace_restored: "cleaned w (reason_of x) st \<Longrightarrow> final_trace w x (restored st)"
  by (auto simp: cleaned_def final_trace_def restored_def)

lemma raise_or_eq: "raise_or (st, x) e = Escaped (case x of Some e' \<Rightarrow> e' | None \<Rightarrow> e) (restored st)"
  by (simp add: raise_or_def split: option.split)

lemma conclude_ends:
  assumes "body_ok w (set (body_outcomes w)) (exit_codes w) r" and "snd r \<noteq> Running"
  shows "\<exists>x. ends_with w x (conclude w r)"
proof -
  obtain st p where r: "r = (st, p)"
    by fastforce
  show ?thesis
  proof (cases p)
    case Running
    with assms(2) r show ?thesis by simp
  next
    case (Finished rc0)
    then have p: "pending st" and "rc0 \<in> exit_codes w"
      using assms(1) by (simp_all add: r body_ok_def)
    then obtain rc where rc: "rc0 = Some rc" "possible w (Exited rc)" "ls_child w \<noteq> None"
      by (auto simp: exit_codes_def possible_def)
    have tr: "termination_reason_of w rc0 = reason_of (Exited rc)"
      using rc by (auto simp: termination_reason_of_def reason_of_def)
    obtain st' where cl: "cleanup w (termination_reason_of w rc0) st = (st', cleanup_error w)"
      and "cleaned w (reason_of (Exited rc)) st'"
      using cleanup_pending [OF p, of w "reason_of (Exited rc)"] by (auto simp: tr)
    then have "final_trace w (Exited rc) (restored st')"
      by (simp add: final_trace_restored)
    with cl rc(2,3) have "ends_with w (Exited rc) (conclude w r)"
      by (cases "cleanup_error w") (simp_all add: conclude_def r Finished ends_with_def, simp_all add: rc(1))
    then show ?thesis by blast
  next
    case (Stopped e)
    then have "stopped_ok w (set (body_outcomes w)) st e"
      using assms(1) by (simp add: r body_ok_def)
    then consider "pending st" "Raises e \<in> set (body_outcomes w)"
      | n where "cleaned w ''signal'' st" "Signal n \<in> set (body_outcomes w)" "interrupted w n e"
      by (auto simp: stopped_ok_def)
    then show ?thesis
    proof cases
      case 1
      obtain st' where "cleanup w (reason_of (Failed e)) st = (st', cleanup_error w)"
        "cleaned w (reason_of (Failed e)) st'"
        using cleanup_pending [OF 1(1)] by blast
      then have "ends_with w (Failed e) (conclude w r)"
        using 1(2) final_trace_restored [of w "Failed e" st']
        by (auto simp: conclude_def r Stopped raise_or_eq ends_with_def reason_of_def possible_def
            split: option.splits)
      then show ?thesis by blast
    next
      case 2
      from 2(1) have f: "final_trace w (Interrupted n) (restored st)"
        using final_trace_restored [of w "Interrupted n" st] by (simp add: reason_of_def)
      have "conclude w r = Escaped (if e = KeyboardInterrupt then SystemExit 130 else e) (restored st)"
        by (simp add: conclude_def r Stopped raise_or_eq cleanup_again [OF 2(1)])
      with f 2(2,3) have "ends_with w (Interrupted n) (conclude w r)"
        by (auto simp: ends_with_def possible_def interrupted_def split: option.splits)
      then show ?thesis by blast
    qed
  qed
qed

fun is_running :: "loop_result \<Rightarrow> bool" where
  "is_running (StillRunning _) = True"
| "is_running _ = False"

lemma run_loop_ends:
  assumes "\<forall>e. ls_install w \<noteq> Raises e" and "\<not> is_running (run_loop w)"
  shows "\<exists>x. ends_with w x (run_loop w)"
proof (cases "ls_install w")
  case Returns
  have p: "pending (act InstallHandlers (False, []))"
    by (simp add: pending_def)
  have rl: "run_loop w = conclude w (loop_body w (act InstallHandlers (False, [])))"
    by (simp add: run_loop_def call_def Returns)
  have "snd (loop_body w (act InstallHandlers (False, []))) \<noteq> Running"
    using assms(2) unfolding rl by (cases "loop_body w (act InstallHandlers (False, []))") (auto simp: conclude_def)
  with loop_body_ok [OF p] show ?thesis
    unfolding rl by (intro conclude_ends)
next
  case (Signal n)
  have p: "pending (act InstallHandlers (False, []))"
    by (simp add: pending_def)
  obtain st' e where sd: "shutdown w n (act InstallHandlers (False, [])) = (st', e)"
    "cleaned w ''signal'' st'" "interrupted w n e"
    using shutdown_pending [OF p] by blast
  then have "final_trace w (Interrupted n) (restored st')"
    using final_trace_restored [of w "Interrupted n" st'] by (simp add: reason_of_def)
  with sd have "ends_with w (Interrupted n) (run_loop w)"
    by (auto simp: run_loop_def call_def Signal ends_with_def possible_def interrupted_def split: option.splits)
  then show ?thesis by blast
qed (use assms(1) in blast)

lemma ends_with_trace:
  "ends_with w x res \<Longrightarrow> \<exists>tr. final_trace w x tr \<and> (\<forall>rc tr'. res = Returned rc tr' \<longrightarrow> tr' = tr)
     \<and> (\<forall>e tr'. res = Escaped e tr' \<longrightarrow> tr' = tr)"
  by (cases x) (auto simp: ends_with_def split: option.splits)

lemma final_trace_OnExit:
  "final_trace w x tr \<Longrightarrow> OnExit r \<in> set tr \<longleftrightarrow> r = effective_reason w (reason_of x)"
  by (fastforce simp: final_trace_def cleanup_actions_def list_all_iff)

section \<open>Properties\<close>

text \<open>C13: However a run of the loop ends once its handlers are in place (the child exits, a call
  raises, a signal arrives in any call, also in the cleanup itself), the session is stopped
  exactly once, then its summary is emitted exactly once, then the child is stopped, and last the
  handlers are restored; nothing else comes in between or after.\<close>

theorem run_loop_cleans_up_once:
  assumes "\<forall>e. ls_install w \<noteq> Raises e"
    and "run_loop w = Returned rc tr \<or> run_loop w = Escaped e tr"
  shows "\<exists>before reason.
    tr = before @ [CallStop, OnExit reason, StopChild (fst (stop_child (ls_child w))), RestoreHandlers] \<and>
    list_all (\<lambda>a. a \<notin> {CallStop, RestoreHandlers} \<and> (\<forall>r. a \<noteq> OnExit r) \<and> (\<forall>c. a \<noteq> StopChild c)) before"
proof -
  have "\<not> is_running (run_loop w)"
    using assms(2) by auto
  from run_loop_ends [OF assms(1) this] obtain x where "ends_with w x (run_loop w)"
    by blast
  then have "final_trace w x tr"
    using assms(2) ends_with_trace by blast
  moreover have "\<not> cleanup_action a \<longleftrightarrow>
      a \<notin> {CallStop, RestoreHandlers} \<and> (\<forall>r. a \<noteq> OnExit r) \<and> (\<forall>c. a \<noteq> StopChild c)" for a
    by (cases a) simp_all
  ultimately show ?thesis
    by (auto simp: final_trace_def cleanup_actions_def)
qed

text \<open>C24: The reason the summary is given is true. \<open>clean\<close> and \<open>child_exit\<close> are only reported when the
  launched child has exited, with status 0 or another one, \<open>signal\<close> only when a signal or a
  keyboard interrupt came, and all three only when stopping the session succeeded;
  \<open>runtime_error\<close> only when stopping it or a call of the loop raised.\<close>

theorem run_loop_reason_truthful:
  assumes "\<forall>e. ls_install w \<noteq> Raises e"
    and "run_loop w = Returned rc tr \<or> run_loop w = Escaped e tr" and "OnExit reason \<in> set tr"
  shows "(reason = ''clean'' \<and> ls_stop w = Returns \<and> (\<exists>t \<in> set (ls_turns w). tn_exited t = Some 0)) \<or>
    (reason = ''child_exit'' \<and> ls_stop w = Returns \<and>
       (\<exists>t \<in> set (ls_turns w). \<exists>code. tn_exited t = Some code \<and> code \<noteq> 0)) \<or>
    (reason = ''signal'' \<and> ls_stop w = Returns \<and>
       (Raises KeyboardInterrupt \<in> set (body_outcomes w) \<or>
        (\<exists>n. Signal n \<in> insert (ls_install w) (set (body_outcomes w))))) \<or>
    (reason = ''runtime_error'' \<and>
       (ls_stop w \<noteq> Returns \<or> (\<exists>x. x \<noteq> KeyboardInterrupt \<and> Raises x \<in> set (body_outcomes w))))"
proof -
  have "\<not> is_running (run_loop w)"
    using assms(2) by auto
  from run_loop_ends [OF assms(1) this] obtain x where x: "ends_with w x (run_loop w)"
    by blast
  then have "final_trace w x tr"
    using assms(2) ends_with_trace by blast
  then have r: "reason = effective_reason w (reason_of x)"
    using assms(3) by (simp add: final_trace_OnExit)
  have stop: "raised_in_cleanup (ls_stop w) = None \<longleftrightarrow> ls_stop w = Returns"
    by (cases "ls_stop w") simp_all
  have pos: "possible w x"
    using x by (simp add: ends_with_def)
  show ?thesis
  proof (cases "ls_stop w = Returns")
    case False
    then show ?thesis by (simp add: r effective_reason_def stop)
  next
    case True
    then have r: "reason = reason_of x"
      by (simp add: r effective_reason_def stop)
    show ?thesis
      using pos True by (cases x) (auto simp: r reason_of_def possible_def)
  qed
qed

text \<open>What the loop returns or raises, when the cleanup itself raises nothing: the exit code of
  the child, \<open>SystemExit(130)\<close> for a keyboard interrupt, \<open>SystemExit(128 + n)\<close> for signal \<open>n\<close>, or
  the very exception a call of the loop raised.\<close>

theorem run_loop_result:
  assumes "\<forall>e. ls_install w \<noteq> Raises e" and "cleanup_error w = None"
  shows "case run_loop w of
      StillRunning tr \<Rightarrow> True
    | Returned rc tr \<Rightarrow> ls_child w \<noteq> None \<and> (\<exists>t \<in> set (ls_turns w). tn_exited t = rc \<and> rc \<noteq> None)
    | Escaped e tr \<Rightarrow>
        (e = SystemExit 130 \<and> Raises KeyboardInterrupt \<in> set (body_outcomes w)) \<or>
        (\<exists>n. e = SystemExit (128 + n) \<and> Signal n \<in> insert (ls_install w) (set (body_outcomes w))) \<or>
        (e \<noteq> KeyboardInterrupt \<and> Raises e \<in> set (body_outcomes w))"
proof (cases "is_running (run_loop w)")
  case True
  then show ?thesis by (cases "run_loop w") simp_all
next
  case False
  from run_loop_ends [OF assms(1) this] obtain x where "ends_with w x (run_loop w)"
    by blast
  with assms(2) show ?thesis
    by (cases x) (auto simp: ends_with_def possible_def split: if_splits)
qed

lemma wait_child_returns:
  assumes "list_all (\<lambda>t. tn_exited t = None \<and> tn_health t = Returns \<and> tn_sleep t = Returns) ts"
    and "tn_exited t = Some code" and "ls_reap w = Returns" and "pending st"
  shows "\<exists>st'. wait_child w (ts @ t # us) st = (st', Finished (Some code)) \<and> pending st'"
  using assms(1,4)
proof (induction ts arbitrary: st)
  case Nil
  then show ?case
    using assms(2,3) by (auto simp: call_def and_then_def pending_act)
next
  case (Cons a ts)
  then have p: "pending (act Sleep (act CallHealth (act PollChild st)))"
    by (simp add: pending_act)
  from Cons.IH [OF _ this] Cons.prems show ?case
    by (simp add: call_def and_then_def)
qed

lemma run_loop_child_status:
  assumes "ls_turns w = ts @ t # us" and "ls_child w \<noteq> None"
    and "list_all (\<lambda>t. tn_exited t = None \<and> tn_health t = Returns \<and> tn_sleep t = Returns) ts"
    and "tn_exited t = Some code"
    and "ls_install w = Returns" "ls_start w = Returns" "ls_reap w = Returns"
    and "cleanup_error w = None"
  shows "\<exists>tr. run_loop w = Returned (Some code) tr \<and>
    OnExit (if code = 0 then ''clean'' else ''child_exit'') \<in> set tr"
proof -
  have p: "pending (act CallStart (act InstallHandlers (False, [])))"
    by (simp add: pending_def)
  obtain st' where st': "wait_child w (ls_turns w) (act CallStart (act InstallHandlers (False, []))) =
      (st', Finished (Some code))" "pending st'"
    using wait_child_returns [OF assms(3,4,7) p, of us] unfolding assms(1) by blast
  then have lb: "loop_body w (act InstallHandlers (False, [])) = (st', Finished (Some code))"
    using assms(2,6) by (simp add: loop_body_def call_def and_then_def)
  define reason where "reason = termination_reason_of w (Some code)"
  obtain st2 where st2: "cleanup w reason st' = (st2, None)" "cleaned w reason st2"
    using cleanup_pending [OF st'(2), of w reason] assms(8) by auto
  have "raised_in_cleanup (ls_stop w) = None"
    using assms(8) by (auto simp: cleanup_error_def or_else_def split: option.splits)
  then have "OnExit reason \<in> set (restored st2)"
    using st2(2) by (auto simp: cleaned_def restored_def cleanup_actions_def effective_reason_def)
  moreover have "run_loop w = Returned (Some code) (restored st2)"
    using st2(1) assms(2) by (simp add: run_loop_def call_def assms(5) lb conclude_def flip: reason_def)
  ultimately show ?thesis
    using assms(2) by (auto simp: reason_def termination_reason_of_def)
qed

text \<open>While every call returns, the loop returns as soon as the child has exited, with its status,
  reporting \<open>clean\<close> for status 0 and \<open>child_exit\<close> for any other.\<close>

theorem run_loop_returns_child_status:
  assumes "ls_turns w = ts @ t # us" and "ls_child w \<noteq> None"
    and "list_all (\<lambda>t. tn_exited t = None \<and> tn_health t = Returns \<and> tn_sleep t = Returns) ts"
    and "tn_exited t = Some code"
    and "ls_install w = Returns" "ls_start w = Returns" "ls_reap w = Returns"
    and "cleanup_error w = None"
  shows "\<exists>tr. run_loop w = Returned (Some code) tr \<and>
    OnExit (if code = 0 then ''clean'' else ''child_exit'') \<in> set tr"
  using assms by (rule run_loop_child_status)

section \<open>Concrete runs\<close>

definition example_child :: proc_script where
  "example_child = \<lparr>ps_running = False, ps_terminate = None, ps_wait = None, ps_kill = None, ps_wait_killed = None\<rparr>"

definition example_loop :: loop_script where
  "example_loop = \<lparr>ls_child = Some example_child, ls_install = Returns, ls_start = Returns,
     ls_turns = [\<lparr>tn_exited = None, tn_health = Returns, tn_sleep = Returns\<rparr>,
                 \<lparr>tn_exited = Some 2, tn_health = Returns, tn_sleep = Returns\<rparr>],
     ls_reap = Returns, ls_stop = Returns, ls_exit = Returns\<rparr>"

definition interrupted_loop :: loop_script where
  "interrupted_loop = example_loop\<lparr>ls_turns := [\<lparr>tn_exited = None, tn_health = Returns, tn_sleep = Signal 15\<rparr>]\<rparr>"

lemmas loop_eval = run_loop_def call_def loop_body_def and_then_def conclude_def cleanup_def
  exit_and_stop_child_def stop_child_def terminate_or_kill_def terminate_and_wait_def shutdown_def
  act_def restored_def termination_reason_of_def example_loop_def example_child_def interrupted_loop_def
  raise_or_def

lemma example_loop_run:
  "run_loop example_loop = Returned (Some 2)
     [InstallHandlers, CallStart, PollChild, CallHealth, Sleep, PollChild, ReapChild,
      CallStop, OnExit ''child_exit'', StopChild [Poll, Wait], RestoreHandlers]"
  by (simp add: loop_eval)

lemma interrupted_loop_run:
  "run_loop interrupted_loop = Escaped (SystemExit 143)
     [InstallHandlers, CallStart, PollChild, CallHealth, Sleep,
      CallStop, OnExit ''signal'', StopChild [Poll, Wait], RestoreHandlers]"
  by (simp add: loop_eval)

lemma run_loop_cleans_up_once_witness:
  "\<exists>tr before reason. run_loop interrupted_loop = Escaped (SystemExit 143) tr \<and>
     tr = before @ [CallStop, OnExit reason, StopChild [Poll, Wait], RestoreHandlers]"
proof -
  have "stop_child (ls_child interrupted_loop) = ([Poll, Wait], None)"
    by (simp add: loop_eval)
  moreover have "\<forall>e. ls_install interrupted_loop \<noteq> Raises e"
    by (simp add: interrupted_loop_def example_loop_def)
  from run_loop_cleans_up_once [OF this, of None _ "SystemExit 143"] interrupted_loop_run
  obtain before reason where "[InstallHandlers, CallStart, PollChild, CallHealth, Sleep,
      CallStop, OnExit ''signal'', StopChild [Poll, Wait], RestoreHandlers] =
      before @ [CallStop, OnExit reason, StopChild (fst (stop_child (ls_child interrupted_loop))), RestoreHandlers]"
    by blast
  ultimately show ?thesis
    using interrupted_loop_run by auto
qed

lemma run_loop_reason_truthful_witness:
  "\<exists>t \<in> set (ls_turns example_loop). \<exists>code. tn_exited t = Some code \<and> code \<noteq> 0"
proof -
  have "\<forall>e. ls_install example_loop \<noteq> Raises e"
    by (simp add: example_loop_def)
  from run_loop_reason_truthful [OF this, of "Some 2" _ undefined "''child_exit''"] example_loop_run
  show ?thesis by force
qed

lemma example_cleanup_error: "cleanup_error example_loop = None" "cleanup_error interrupted_loop = None"
  by (simp_all add: cleanup_error_def loop_eval)

lemma run_loop_result_witness: "\<exists>n. SystemExit 143 = SystemExit (128 + n) \<and> run_loop interrupted_loop \<noteq> StillRunning []"
proof -
  have "\<forall>e. ls_install interrupted_loop \<noteq> Raises e"
    by (simp add: interrupted_loop_def example_loop_def)
  from run_loop_result [OF this example_cleanup_error(2)] show ?thesis
    by (auto simp: interrupted_loop_run)
qed

lemma run_loop_returns_child_status_witness:
  "\<exists>tr. run_loop example_loop = Returned (Some 2) tr \<and> OnExit ''child_exit'' \<in> set tr"
  using run_loop_returns_child_status
    [of example_loop "[\<lparr>tn_exited = None, tn_health = Returns, tn_sleep = Returns\<rparr>]"
        "\<lparr>tn_exited = Some 2, tn_health = Returns, tn_sleep = Returns\<rparr>" "[]" 2]
  by (simp add: example_cleanup_error, simp add: example_loop_def)

end
