(* ===== verification/Sinks.thy ===== *)
theory Sinks
  imports Core PyFormat "HOL-Library.Char_ord" "HOL-Library.List_Lexorder"
begin

text \<open>
  The output sinks of \<open>blocksnoop/sinks.py\<close>. A record is a JSON object, as the code passes
  dictionaries; reading an absent key is a \<open>KeyError\<close>. A sink's output is the list of what it has
  written: text for the console, JSON documents (keys sorted, as \<open>json.dumps(sort_keys=True)\<close>
  writes them) for the two JSON sinks. Operating system errors on the streams are not modelled.
\<close>

section \<open>Reading records\<close>

definition item :: "json_obj \<Rightarrow> string \<Rightarrow> json result" where
  "item d k = (case dict_get d k of None \<Rightarrow> Inl KeyError | Some v \<Rightarrow> Inr v)"

definition get_or :: "json_obj \<Rightarrow> string \<Rightarrow> json \<Rightarrow> json" where
  "get_or d k v = dict_get_default d k v"

fun as_num :: "json \<Rightarrow> rat result" where
  "as_num (JInt i) = Inr (of_int i)"
| "as_num (JFloat x) = Inr x"
| "as_num (JBool b) = Inr (if b then 1 else 0)"
| "as_num (JStr _) = Inl ValueError"
| "as_num _ = Inl TypeError"

text \<open>The text an f-string inserts for a value: the records only hold strings and integers in the
  places where no format specification is given; other kinds are outside the model.\<close>

fun fmt :: "json \<Rightarrow> string result" where
  "fmt (JStr s) = Inr s"
| "fmt (JInt i) = Inr (str_of_int i)"
| "fmt JNull = Inr ''None''"
| "fmt _ = Inl OtherException"

fun truthy :: "json \<Rightarrow> bool" where
  "truthy JNull = False"
| "truthy (JBool b) = b"
| "truthy (JInt i) = (i \<noteq> 0)"
| "truthy (JFloat x) = (x \<noteq> 0)"
| "truthy (JStr s) = (s \<noteq> [])"
| "truthy (JList xs) = (xs \<noteq> [])"
| "truthy (JObj kvs) = (kvs \<noteq> [])"

fun as_obj :: "json \<Rightarrow> json_obj result" where
  "as_obj (JObj kvs) = Inr kvs"
| "as_obj _ = Inl TypeError"

fun as_list :: "json \<Rightarrow> json list result" where
  "as_list (JList xs) = Inr xs"
| "as_list _ = Inl TypeError"

fun map_result :: "('a \<Rightarrow> 'b result) \<Rightarrow> 'a list \<Rightarrow> 'b list result" where
  "map_result f [] = Inr []"
| "map_result f (x # xs) = bind_result (f x) (\<lambda>y. bind_result (map_result f xs) (\<lambda>ys. Inr (y # ys)))"

primrec sorted_keys :: "json \<Rightarrow> json" where
  "sorted_keys JNull = JNull"
| "sorted_keys (JBool b) = JBool b"
| "sorted_keys (JInt i) = JInt i"
| "sorted_keys (JFloat x) = JFloat x"
| "sorted_keys (JStr s) = JStr s"
| "sorted_keys (JList xs) = JList (map sorted_keys xs)"
| "sorted_keys (JObj kvs) = JObj (sort_key fst (map (map_prod id sorted_keys) kvs))"

section \<open>Severity\<close>

datatype level = Warning | Error

instantiation level :: linorder
begin

definition less_eq_level :: "level \<Rightarrow> level \<Rightarrow> bool" where
  "less_eq_level a b \<longleftrightarrow> a = Warning \<or> b = Error"

definition less_level :: "level \<Rightarrow> level \<Rightarrow> bool" where
  "less_level a b \<longleftrightarrow> a = Warning \<and> b = Error"

instance
proof
  fix x y z :: level
  show "x < y \<longleftrightarrow> x \<le> y \<and> \<not> y \<le> x" "x \<le> x" "x \<le> y \<or> y \<le> x"
    by (cases x; cases y; simp add: less_eq_level_def less_level_def)+
  show "x \<le> z" if "x \<le> y" "y \<le> z"
    using that by (auto simp: less_eq_level_def)
  show "x = y" if "x \<le> y" "y \<le> x"
    using that by (auto simp: less_eq_level_def)
qed

end

definition level_for_duration :: "rat \<Rightarrow> rat \<Rightarrow> level" where
  "level_for_duration dur error_threshold_ms =
     (if error_threshold_ms \<le> dur then Error else Warning)"

fun level_str :: "level \<Rightarrow> string" where
  "level_str Warning = ''warning''"
| "level_str Error = ''error''"

lemma level_for_duration_mono: "d \<le> d' \<Longrightarrow> level_for_duration d t \<le> level_for_duration d' t"
  by (auto simp: level_for_duration_def less_eq_level_def)

section \<open>ConsoleSink\<close>

record console_sink =
  cs_stream :: "out list"
  cs_color :: bool
  cs_error_threshold_ms :: rat
  cs_summary_only :: bool

definition RESET :: string where "RESET = esc @ ''0m''"
definition YELLOW :: string where "YELLOW = esc @ ''33m''"
definition RED :: string where "RED = esc @ ''31m''"
definition DIM :: string where "DIM = esc @ ''2m''"

text \<open>With \<open>color=None\<close> the colours follow the stream's \<open>isatty()\<close>.\<close>

definition ConsoleSink :: "bool option \<Rightarrow> bool \<Rightarrow> rat \<Rightarrow> bool \<Rightarrow> console_sink" where
  "ConsoleSink color isatty error_threshold_ms summary_only =
     \<lparr>cs_stream = [], cs_color = (case color of None \<Rightarrow> isatty | Some c \<Rightarrow> c),
      cs_error_threshold_ms = error_threshold_ms, cs_summary_only = summary_only\<rparr>"

definition paint :: "bool \<Rightarrow> string \<Rightarrow> string \<Rightarrow> string" where
  "paint color code line = (if color then code @ line @ RESET else line)"

definition console_header :: "console_sink \<Rightarrow> json_obj \<Rightarrow> string result" where
  "console_header s record =
     bind_result (bind_result (item record ''duration_ms'') as_num) (\<lambda>dur.
     bind_result (bind_result (item record ''timestamp_s'') as_num) (\<lambda>timestamp_s.
     bind_result (bind_result (item record ''event_number'') fmt) (\<lambda>event_number.
     bind_result (bind_result (item record ''tid'') fmt) (\<lambda>tid.
       let lvl = level_for_duration dur (cs_error_threshold_ms s);
           header = ''['' @ rjust 7 (fixed 2 timestamp_s) @ ''s] #'' @ ljust 3 event_number
             @ '' BLOCKED  '' @ rjust 8 (fixed 1 dur) @ ''ms  tid='' @ tid
       in Inr (paint (cs_color s) (if lvl = Error then RED else YELLOW) header)))))"

definition frame_file :: "json \<Rightarrow> string result" where
  "frame_file f = bind_result (bind_result (as_obj f) (\<lambda>d. item d ''file'')) fmt"

definition frame_texts :: "bool \<Rightarrow> json \<Rightarrow> string list result" where
  "frame_texts color frame =
     bind_result (as_obj frame) (\<lambda>d.
     bind_result (bind_result (item d ''file'') fmt) (\<lambda>file.
     bind_result (bind_result (item d ''line'') fmt) (\<lambda>line.
     bind_result (bind_result (item d ''function'') fmt) (\<lambda>fname.
       let l = paint color DIM (''    '' @ file @ '':'' @ line @ '' in '' @ fname) @ newline;
           source = get_or d ''source'' JNull
       in if truthy source
          then bind_result (fmt source) (\<lambda>src.
            Inr [l, paint color DIM (''      '' @ src) @ newline])
          else Inr [l]))))"

text \<open>Application frames when there are any, otherwise all of them.\<close>

definition frames_to_show :: "json list \<Rightarrow> string list \<Rightarrow> json list" where
  "frames_to_show stack files =
     (let app_frames = map fst (filter (\<lambda>ff. \<not> is_stdlib_file (snd ff)) (zip stack files))
      in if app_frames \<noteq> [] then app_frames else stack)"

definition hidden_note :: "bool \<Rightarrow> nat \<Rightarrow> string list" where
  "hidden_note color hidden =
     (if 0 < hidden
      then [paint color DIM (''    ... '' @ str_of_int (int hidden) @ '' asyncio/stdlib frames hidden'') @ newline]
      else [])"

definition stack_title :: "nat \<Rightarrow> string" where
  "stack_title i = (if i = 0 then ''  Python stack (most recent call last):'' else ''  ---'') @ newline"

definition stack_texts :: "bool \<Rightarrow> nat \<Rightarrow> json \<Rightarrow> string list result" where
  "stack_texts color i stack =
     bind_result (as_list stack) (\<lambda>fs.
     bind_result (map_result frame_file fs) (\<lambda>files.
     bind_result (map_result (frame_texts color) (frames_to_show fs files)) (\<lambda>ts.
       Inr ([stack_title i] @ concat ts
            @ hidden_note color (length fs - length (frames_to_show fs files))))))"

definition console_body :: "console_sink \<Rightarrow> json_obj \<Rightarrow> string list result" where
  "console_body s record =
     (let stacks = get_or record ''python_stacks'' JNull
      in if truthy stacks
         then bind_result (as_list stacks) (\<lambda>sts.
              bind_result (map_result (\<lambda>p. stack_texts (cs_color s) (fst p) (snd p)) (enumerate 0 sts))
                (\<lambda>ts. Inr (concat ts @ [newline])))
         else Inr [''  (no Python stack captured)'' @ newline])"

definition console_emit :: "json_obj \<Rightarrow> console_sink \<Rightarrow> console_sink result" where
  "console_emit record s =
     (if cs_summary_only s then Inr s
      else bind_result (console_header s record) (\<lambda>header.
           bind_result (console_body s record) (\<lambda>body.
             Inr (s\<lparr>cs_stream := cs_stream s @ map Text ((header @ newline) # body)\<rparr>))))"

definition loss_text :: "json_obj \<Rightarrow> string result" where
  "loss_text losses =
     bind_result (map_result (\<lambda>kv. bind_result (fmt (snd kv)) (\<lambda>c. Inr (fst kv @ ''='' @ c)))
                    (sort_key fst losses))
       (\<lambda>parts. Inr (''Lost detector events by source: '' @ join '', '' parts @ newline))"

definition signature_text :: "nat \<times> json \<Rightarrow> string result" where
  "signature_text p =
     bind_result (as_obj (snd p)) (\<lambda>d.
     bind_result (bind_result (item d ''location'') fmt) (\<lambda>location.
     bind_result (bind_result (item d ''count'') fmt) (\<lambda>cnt.
     bind_result (bind_result (item d ''total_blocked_ms'') as_num) (\<lambda>total.
     bind_result (bind_result (item d ''max_blocked_ms'') as_num) (\<lambda>mx.
       Inr (''  '' @ str_of_int (int (fst p)) @ ''. '' @ location @ '' '' @ em_dash @ '' '' @ cnt
            @ '' events, '' @ fixed 1 total @ ''ms total, '' @ fixed 1 mx @ ''ms max'' @ newline))))))"

definition console_summary_texts :: "json_obj \<Rightarrow> string list result" where
  "console_summary_texts summary =
     bind_result (bind_result (item summary ''duration_s'') as_num) (\<lambda>duration_s.
     bind_result (bind_result (item summary ''event_count'') fmt) (\<lambda>event_count.
     bind_result (as_num (get_or summary ''total_blocked_ms'' (JFloat 0))) (\<lambda>total.
     bind_result (as_num (get_or summary ''max_blocked_ms'' (JFloat 0))) (\<lambda>mx.
     bind_result (bind_result (item summary ''lost_event_count'') fmt) (\<lambda>lost.
     bind_result (item summary ''lost_events_by_source'') (\<lambda>losses.
     bind_result (if truthy losses
                  then bind_result (as_obj losses) (\<lambda>d. bind_result (loss_text d) (\<lambda>t. Inr [t]))
                  else Inr []) (\<lambda>loss_lines.
     let sigs = get_or summary ''top_signatures'' (JList [])
     in bind_result (if truthy sigs
                     then bind_result (as_list sigs) (\<lambda>l.
                          bind_result (map_result signature_text (enumerate 1 l)) (\<lambda>ts.
                            Inr ((''Top blocking call sites (by total blocked time):'' @ newline) # ts)))
                     else Inr []) (\<lambda>sig_lines.
          Inr ([''--- blocksnoop session ---'' @ newline,
                ''Duration: '' @ fixed 1 duration_s @ ''s'' @ newline,
                ''Blocking events detected: '' @ event_count @ newline,
                ''Total blocked time: '' @ fixed 1 total @ ''ms'' @ newline,
                ''Longest blocking event: '' @ fixed 1 mx @ ''ms'' @ newline,
                ''Lost detector events: '' @ lost @ newline] @ loss_lines @ sig_lines)))))))))"

definition console_emit_summary :: "json_obj \<Rightarrow> console_sink \<Rightarrow> console_sink result" where
  "console_emit_summary summary s =
     bind_result (console_summary_texts summary) (\<lambda>ts.
       Inr (s\<lparr>cs_stream := cs_stream s @ map Text ts\<rparr>))"

section \<open>JsonStreamSink\<close>

record json_stream_sink =
  js_stream :: "out list"
  js_error_threshold_ms :: rat

definition JsonStreamSink :: "rat \<Rightarrow> json_stream_sink" where
  "JsonStreamSink error_threshold_ms =
     \<lparr>js_stream = [], js_error_threshold_ms = error_threshold_ms\<rparr>"

definition json_stream_write :: "json_obj \<Rightarrow> json_stream_sink \<Rightarrow> json_stream_sink" where
  "json_stream_write record s =
     s\<lparr>js_stream := js_stream s @ [JsonLine (sorted_keys (JObj record))]\<rparr>"

definition level_of_record :: "json_obj \<Rightarrow> rat \<Rightarrow> json result" where
  "level_of_record output error_threshold_ms =
     bind_result (bind_result (item output ''duration_ms'') as_num) (\<lambda>dur.
       Inr (JStr (level_str (level_for_duration dur error_threshold_ms))))"

definition json_stream_emit :: "json_obj \<Rightarrow> json_stream_sink \<Rightarrow> json_stream_sink result" where
  "json_stream_emit record s =
     (if dict_get record ''duration_ms'' \<noteq> None
      then bind_result (level_of_record record (js_error_threshold_ms s)) (\<lambda>lvl.
        Inr (json_stream_write (dict_set ''level'' lvl record) s))
      else Inr (json_stream_write record s))"

section \<open>JsonFileSink\<close>

record json_file_sink =
  jf_service :: string
  jf_env :: string
  jf_error_threshold_ms :: rat
  jf_lines :: "out list"
  jf_closed :: bool

definition JsonFileSink :: "string \<Rightarrow> string \<Rightarrow> rat \<Rightarrow> json_file_sink" where
  "JsonFileSink service env error_threshold_ms =
     \<lparr>jf_service = service, jf_env = env, jf_error_threshold_ms = error_threshold_ms,
      jf_lines = [], jf_closed = False\<rparr>"

text \<open>The argument \<open>utcnow\<close> is the formatted current time.\<close>

definition json_file_write :: "string \<Rightarrow> json_obj \<Rightarrow> json_file_sink \<Rightarrow> json_file_sink" where
  "json_file_write utcnow record s =
     (let output = dict_update record
            [(''timestamp'', get_or record ''observed_at'' (JStr utcnow)),
             (''service'', JStr (jf_service s)),
             (''env'', JStr (jf_env s)),
             (''source'', JStr ''blocksnoop''),
             (''dd'', JObj [(''service'', JStr (jf_service s)), (''env'', JStr (jf_env s))])]
      in s\<lparr>jf_lines := jf_lines s @ [JsonLine (sorted_keys (JObj output))]\<rparr>)"

definition json_file_session_start :: "string \<Rightarrow> json_obj \<Rightarrow> json_file_sink \<Rightarrow> json_file_sink" where
  "json_file_session_start utcnow record s =
     (let output = dict_setdefault ''level'' (JStr ''info'') record;
          output = dict_setdefault ''message'' (JStr ''blocksnoop session started'') output
      in json_file_write utcnow output s)"

definition json_file_emit :: "string \<Rightarrow> json_obj \<Rightarrow> json_file_sink \<Rightarrow> json_file_sink result" where
  "json_file_emit utcnow record s =
     (if dict_get record ''duration_ms'' \<noteq> None
      then bind_result (bind_result (item record ''duration_ms'') as_num) (\<lambda>dur.
           bind_result (bind_result (item record ''tid'') fmt) (\<lambda>tid.
             let output = dict_set ''level''
                   (JStr (level_str (level_for_duration dur (jf_error_threshold_ms s)))) record;
                 output = dict_setdefault ''message''
                   (JStr (''Blocking call detected: '' @ fixed 1 dur @ ''ms on tid='' @ tid)) output
             in Inr (json_file_write utcnow output s)))
      else Inr (json_file_write utcnow record s))"

definition json_file_emit_summary :: "string \<Rightarrow> json_obj \<Rightarrow> json_file_sink \<Rightarrow> json_file_sink result" where
  "json_file_emit_summary utcnow summary s =
     bind_result (bind_result (item summary ''event_count'') fmt) (\<lambda>event_count.
     bind_result (bind_result (item summary ''duration_s'') as_num) (\<lambda>duration_s.
       let output = dict_setdefault ''level'' (JStr ''info'') summary;
           output = dict_setdefault ''message''
             (JStr (''blocksnoop session ended: '' @ event_count @ '' blocking events in ''
                    @ fixed 1 duration_s @ ''s'')) output
       in Inr (json_file_write utcnow output s)))"

section \<open>The sink protocol\<close>

datatype sink =
    Console console_sink
  | JsonStream json_stream_sink
  | JsonFile json_file_sink

fun emit_session_start :: "string \<Rightarrow> json_obj \<Rightarrow> sink \<Rightarrow> sink result" where
  "emit_session_start utcnow record (Console s) = Inr (Console s)"
| "emit_session_start utcnow record (JsonStream s) = Inr (JsonStream (json_stream_write record s))"
| "emit_session_start utcnow record (JsonFile s) = Inr (JsonFile (json_file_session_start utcnow record s))"

fun emit :: "string \<Rightarrow> json_obj \<Rightarrow> sink \<Rightarrow> sink result" where
  "emit utcnow record (Console s) = bind_result (console_emit record s) (\<lambda>s. Inr (Console s))"
| "emit utcnow record (JsonStream s) = bind_result (json_stream_emit record s) (\<lambda>s. Inr (JsonStream s))"
| "emit utcnow record (JsonFile s) = bind_result (json_file_emit utcnow record s) (\<lambda>s. Inr (JsonFile s))"

fun emit_summary :: "string \<Rightarrow> json_obj \<Rightarrow> sink \<Rightarrow> sink result" where
  "emit_summary utcnow summary (Console s) =
     bind_result (console_emit_summary summary s) (\<lambda>s. Inr (Console s))"
| "emit_summary utcnow summary (JsonStream s) = Inr (JsonStream (json_stream_write summary s))"
| "emit_summary utcnow summary (JsonFile s) =
     bind_result (json_file_emit_summary utcnow summary s) (\<lambda>s. Inr (JsonFile s))"

fun sink_close :: "sink \<Rightarrow> sink" where
  "sink_close (Console s) = Console s"
| "sink_close (JsonStream s) = JsonStream s"
| "sink_close (JsonFile s) = JsonFile (s\<lparr>jf_closed := True\<rparr>)"

fun sink_output :: "sink \<Rightarrow> out list" where
  "sink_output (Console s) = cs_stream s"
| "sink_output (JsonStream s) = js_stream s"
| "sink_output (JsonFile s) = jf_lines s"

section \<open>Lemmas on records\<close>

lemma dict_get_setdefault:
  "dict_get (dict_setdefault k v d) k' = (if k = k' \<and> dict_get d k = None then Some v else dict_get d k')"
  by (auto simp: dict_setdefault_def dict_get_def dict_set_def update_conv')

lemma dict_get_update:
  "distinct (dict_keys e) \<Longrightarrow>
   dict_get (dict_update d e) k = (case dict_get e k of None \<Rightarrow> dict_get d k | Some v \<Rightarrow> Some v)"
proof (induction e arbitrary: d)
  case Nil
  show ?case by (simp add: dict_update_def dict_get_def)
next
  case (Cons kv e)
  have "dict_get (dict_update d (kv # e)) k = dict_get (dict_update (dict_set (fst kv) (snd kv) d) e) k"
    by (simp add: dict_update_def)
  also have "\<dots> = (case dict_get e k of None \<Rightarrow> dict_get (dict_set (fst kv) (snd kv) d) k | Some v \<Rightarrow> Some v)"
    using Cons by (simp add: dict_keys_def)
  also have "\<dots> = (case dict_get (kv # e) k of None \<Rightarrow> dict_get d k | Some v \<Rightarrow> Some v)"
    using Cons.prems dict_get_None_iff [of e "fst kv"]
    by (cases kv) (auto simp: dict_get_def dict_keys_def dict_set_def update_conv' split: option.splits)
  finally show ?case .
qed

lemma item_Inr_iff [simp]: "item d k = Inr v \<longleftrightarrow> dict_get d k = Some v"
  by (simp add: item_def split: option.splits)

text \<open>\<open>get_json\<close> reads a field of a written document.\<close>

definition get_json :: "json \<Rightarrow> string \<Rightarrow> json option" where
  "get_json j k = (case j of JObj kvs \<Rightarrow> map_of kvs k | _ \<Rightarrow> None)"

lemma map_of_sort_key_fst:
  assumes "distinct (map fst kvs)"
  shows "map_of (sort_key fst kvs) = map_of kvs"
proof (rule map_of_inject_set [THEN iffD2])
  show "distinct (map fst (sort_key fst kvs))"
    using assms by (metis distinct_map distinct_sort inj_on_def set_sort)
qed (use assms in simp_all)

lemma map_of_map_prod_id: "map_of (map (map_prod id f) d) k = map_option f (map_of d k)"
  by (induction d) auto

lemma map_fst_map_prod_id: "map fst (map (map_prod id f) d) = map fst d"
  by (induction d) auto

lemma get_json_sorted_keys:
  "distinct (dict_keys d) \<Longrightarrow>
   get_json (sorted_keys (JObj d)) k = map_option sorted_keys (dict_get d k)"
  by (simp add: get_json_def dict_get_def dict_keys_def map_of_sort_key_fst map_of_map_prod_id
      map_fst_map_prod_id del: map_map)

lemma sorted_document_keys:
  "sorted_keys (JObj d) = JObj kvs \<Longrightarrow> sorted (map fst kvs)"
  by auto

section \<open>The contract of a sink\<close>

text \<open>The three calls of the protocol that write, as values, and a session as a list of them.\<close>

datatype sink_call = SessionStart json_obj | Event json_obj | Summary json_obj

fun sink_step :: "string \<Rightarrow> sink_call \<Rightarrow> sink \<Rightarrow> sink result" where
  "sink_step utcnow (SessionStart r) s = emit_session_start utcnow r s"
| "sink_step utcnow (Event r) s = emit utcnow r s"
| "sink_step utcnow (Summary r) s = emit_summary utcnow r s"

fun run_calls :: "('c \<Rightarrow> 's \<Rightarrow> 's result) \<Rightarrow> 'c list \<Rightarrow> 's \<Rightarrow> 's result" where
  "run_calls step [] s = Inr s"
| "run_calls step (c # cs) s = bind_result (step c s) (run_calls step cs)"

text \<open>A sink never takes back what it has written.\<close>

locale output_sink =
  fixes step :: "'c \<Rightarrow> 's \<Rightarrow> 's result" and written :: "'s \<Rightarrow> 'o list"
  assumes step_appends: "step c s = Inr s' \<Longrightarrow> \<exists>new. written s' = written s @ new"
begin

lemma run_appends: "run_calls step cs s = Inr s' \<Longrightarrow> \<exists>new. written s' = written s @ new"
proof (induction cs arbitrary: s)
  case (Cons c cs)
  then obtain t where t: "step c s = Inr t" "run_calls step cs t = Inr s'"
    by (auto simp: bind_result_Inr_iff)
  obtain n1 where "written t = written s @ n1"
    using step_appends [OF t(1)] by blast
  moreover obtain n2 where "written s' = written t @ n2"
    using Cons.IH [OF t(2)] by blast
  ultimately show ?case by simp
qed simp

lemma run_prefix: "run_calls step cs s = Inr s' \<Longrightarrow> take (length (written s)) (written s') = written s"
  using run_appends by fastforce

end

text \<open>A line sink writes exactly one line per call.\<close>

locale line_sink = output_sink +
  assumes step_one_line: "step c s = Inr s' \<Longrightarrow> length (written s') = Suc (length (written s))"
begin

lemma run_lines: "run_calls step cs s = Inr s' \<Longrightarrow> length (written s') = length (written s) + length cs"
proof (induction cs arbitrary: s)
  case (Cons c cs)
  then obtain t where "step c s = Inr t" "run_calls step cs t = Inr s'"
    by (auto simp: bind_result_Inr_iff)
  with step_one_line [of c s t] Cons.IH [of t] show ?case by simp
qed simp

end

fun json_stream_step :: "sink_call \<Rightarrow> json_stream_sink \<Rightarrow> json_stream_sink result" where
  "json_stream_step (SessionStart r) s = Inr (json_stream_write r s)"
| "json_stream_step (Event r) s = json_stream_emit r s"
| "json_stream_step (Summary r) s = Inr (json_stream_write r s)"

fun json_file_step :: "string \<Rightarrow> sink_call \<Rightarrow> json_file_sink \<Rightarrow> json_file_sink result" where
  "json_file_step utcnow (SessionStart r) s = Inr (json_file_session_start utcnow r s)"
| "json_file_step utcnow (Event r) s = json_file_emit utcnow r s"
| "json_file_step utcnow (Summary r) s = json_file_emit_summary utcnow r s"

lemma json_stream_write_stream [simp]:
  "js_stream (json_stream_write r s) = js_stream s @ [JsonLine (sorted_keys (JObj r))]"
  by (simp add: json_stream_write_def)

lemma json_file_write_lines:
  "\<exists>d. jf_lines (json_file_write u r s) = jf_lines s @ [JsonLine (sorted_keys (JObj d))]"
  by (auto simp: json_file_write_def Let_def)

lemma json_stream_step_line:
  "json_stream_step c s = Inr s' \<Longrightarrow> \<exists>d. js_stream s' = js_stream s @ [JsonLine d]"
  by (cases c) (auto simp: json_stream_emit_def bind_result_Inr_iff split: if_splits)

lemma json_file_step_line:
  assumes "json_file_step u c s = Inr s'"
  shows "\<exists>d. jf_lines s' = jf_lines s @ [JsonLine d]"
proof -
  have "\<exists>r. s' = json_file_write u r s"
    using assms
    by (cases c) (auto simp: json_file_session_start_def json_file_emit_def json_file_emit_summary_def
        bind_result_Inr_iff Let_def split: if_splits)
  then show ?thesis
    using json_file_write_lines by blast
qed

lemma console_emit_appends:
  "console_emit r s = Inr s' \<Longrightarrow> \<exists>new. cs_stream s' = cs_stream s @ new"
  by (auto simp: console_emit_def bind_result_Inr_iff split: if_splits)

lemma console_emit_summary_appends:
  "console_emit_summary r s = Inr s' \<Longrightarrow> \<exists>new. cs_stream s' = cs_stream s @ new"
  by (auto simp: console_emit_summary_def bind_result_Inr_iff)

lemma sink_step_JsonStream:
  "sink_step u c (JsonStream s) = bind_result (json_stream_step c s) (\<lambda>s. Inr (JsonStream s))"
  by (cases c) simp_all

lemma sink_step_JsonFile:
  "sink_step u c (JsonFile s) = bind_result (json_file_step u c s) (\<lambda>s. Inr (JsonFile s))"
  by (cases c) simp_all

lemma sink_step_appends:
  assumes "sink_step u c s = Inr s'"
  shows "\<exists>new. sink_output s' = sink_output s @ new"
proof (cases s)
  case (Console x)
  with assms show ?thesis
    by (cases c) (auto simp: bind_result_Inr_iff dest: console_emit_appends console_emit_summary_appends)
next
  case (JsonStream x)
  with assms show ?thesis
    by (auto simp: sink_step_JsonStream bind_result_Inr_iff dest: json_stream_step_line)
next
  case (JsonFile x)
  with assms show ?thesis
    by (auto simp: sink_step_JsonFile bind_result_Inr_iff dest: json_file_step_line)
qed

interpretation sink_out: output_sink "sink_step u" sink_output for u
  by unfold_locales (rule sink_step_appends)

interpretation json_stream: line_sink json_stream_step js_stream
  by unfold_locales (auto dest: json_stream_step_line)

interpretation json_file: line_sink "json_file_step u" jf_lines for u
  by unfold_locales (auto dest: json_file_step_line)

section \<open>Records that every sink accepts\<close>

definition has_num :: "json_obj \<Rightarrow> string \<Rightarrow> bool" where
  "has_num d k \<longleftrightarrow> \<not> isl (bind_result (item d k) as_num)"

definition has_text :: "json_obj \<Rightarrow> string \<Rightarrow> bool" where
  "has_text d k \<longleftrightarrow> \<not> isl (bind_result (item d k) fmt)"

fun frame_ok :: "json \<Rightarrow> bool" where
  "frame_ok (JObj d) \<longleftrightarrow> has_text d ''file'' \<and> has_text d ''line'' \<and> has_text d ''function''
     \<and> \<not> isl (fmt (get_or d ''source'' JNull))"
| "frame_ok _ \<longleftrightarrow> False"

fun stack_ok :: "json \<Rightarrow> bool" where
  "stack_ok (JList fs) \<longleftrightarrow> list_all frame_ok fs"
| "stack_ok _ \<longleftrightarrow> False"

fun stacks_ok :: "json \<Rightarrow> bool" where
  "stacks_ok (JList ss) \<longleftrightarrow> list_all stack_ok ss"
| "stacks_ok j \<longleftrightarrow> j = JNull"

fun signature_ok :: "json \<Rightarrow> bool" where
  "signature_ok (JObj d) \<longleftrightarrow> has_text d ''location'' \<and> has_text d ''count''
     \<and> has_num d ''total_blocked_ms'' \<and> has_num d ''max_blocked_ms''"
| "signature_ok _ \<longleftrightarrow> False"

definition event_record_ok :: "json_obj \<Rightarrow> bool" where
  "event_record_ok r \<longleftrightarrow> has_num r ''duration_ms'' \<and> has_num r ''timestamp_s''
     \<and> has_text r ''event_number'' \<and> has_text r ''tid'' \<and> stacks_ok (get_or r ''python_stacks'' JNull)"

definition summary_record_ok :: "json_obj \<Rightarrow> bool" where
  "summary_record_ok r \<longleftrightarrow> has_num r ''duration_s'' \<and> has_text r ''event_count''
     \<and> has_num r ''total_blocked_ms'' \<and> has_num r ''max_blocked_ms'' \<and> has_text r ''lost_event_count''
     \<and> (case dict_get r ''lost_events_by_source'' of
          Some (JObj l) \<Rightarrow> list_all (\<lambda>kv. \<not> isl (fmt (snd kv))) l | _ \<Rightarrow> False)
     \<and> (case get_or r ''top_signatures'' (JList []) of JList ss \<Rightarrow> list_all signature_ok ss | _ \<Rightarrow> False)"

lemma has_numD: "has_num d k \<Longrightarrow> \<exists>x. bind_result (item d k) as_num = Inr x"
  by (cases "bind_result (item d k) as_num") (auto simp: has_num_def)

lemma has_textD: "has_text d k \<Longrightarrow> \<exists>x. bind_result (item d k) fmt = Inr x"
  by (cases "bind_result (item d k) fmt") (auto simp: has_text_def)

lemma not_islD: "\<not> isl r \<Longrightarrow> \<exists>x. r = Inr x"
  by (cases r) auto

lemma map_result_total: "(\<And>x. x \<in> set xs \<Longrightarrow> \<exists>y. f x = Inr y) \<Longrightarrow> \<exists>ys. map_result f xs = Inr ys"
proof (induction xs)
  case (Cons x xs)
  obtain y where "f x = Inr y"
    using Cons.prems by fastforce
  moreover obtain ys where "map_result f xs = Inr ys"
    using Cons by auto
  ultimately show ?case by simp
qed simp

lemma map_result_length: "map_result f xs = Inr ys \<Longrightarrow> length ys = length xs"
  by (induction xs arbitrary: ys) (auto simp: bind_result_Inr_iff)

lemma in_enumerate_snd: "p \<in> set (enumerate n xs) \<Longrightarrow> snd p \<in> set xs"
  by (metis image_eqI list.set_map map_snd_enumerate)

lemma frame_ok_texts:
  assumes "frame_ok f"
  shows "\<exists>t. frame_file f = Inr t" and "\<exists>ts. frame_texts color f = Inr ts"
proof -
  from assms obtain d where f: "f = JObj d"
    and h: "has_text d ''file''" "has_text d ''line''" "has_text d ''function''"
    and src: "\<not> isl (fmt (get_or d ''source'' JNull))"
    by (cases f) auto
  obtain a b c s where abc: "bind_result (item d ''file'') fmt = Inr a"
    "bind_result (item d ''line'') fmt = Inr b" "bind_result (item d ''function'') fmt = Inr c"
    "fmt (get_or d ''source'' JNull) = Inr s"
    using h [THEN has_textD] src [THEN not_islD] by blast
  show "\<exists>t. frame_file f = Inr t"
    using abc by (simp add: f frame_file_def)
  show "\<exists>ts. frame_texts color f = Inr ts"
    by (simp add: f frame_texts_def abc Let_def)
qed

lemma stack_ok_texts:
  assumes "stack_ok st"
  shows "\<exists>ts. stack_texts color i st = Inr ts"
proof -
  from assms obtain fs where st: "st = JList fs" and fs: "list_all frame_ok fs"
    by (cases st) auto
  obtain files where files: "map_result frame_file fs = Inr files"
    using map_result_total [of fs frame_file] fs frame_ok_texts(1) by (auto simp: list_all_iff)
  have "set (frames_to_show fs files) \<subseteq> set fs"
    by (auto simp: frames_to_show_def Let_def dest: set_zip_leftD)
  then obtain ts where "map_result (frame_texts color) (frames_to_show fs files) = Inr ts"
    using map_result_total [of "frames_to_show fs files" "frame_texts color"] fs frame_ok_texts(2)
    by (fastforce simp: list_all_iff)
  then show ?thesis
    by (simp add: stack_texts_def st files)
qed

lemma console_emit_ok:
  assumes "event_record_ok r"
  shows "\<exists>s'. console_emit r s = Inr s'"
proof -
  from assms obtain a b c d where abcd:
    "bind_result (item r ''duration_ms'') as_num = Inr a" "bind_result (item r ''timestamp_s'') as_num = Inr b"
    "bind_result (item r ''event_number'') fmt = Inr c" "bind_result (item r ''tid'') fmt = Inr d"
    and st: "stacks_ok (get_or r ''python_stacks'' JNull)"
    unfolding event_record_ok_def by (auto dest!: has_numD has_textD)
  have "\<exists>h. console_header s r = Inr h"
    by (simp add: console_header_def abcd Let_def)
  moreover have "\<exists>t. console_body s r = Inr t"
  proof (cases "get_or r ''python_stacks'' JNull")
    case (JList ss)
    have "\<exists>ts. map_result (\<lambda>p. stack_texts (cs_color s) (fst p) (snd p)) (enumerate 0 ss) = Inr ts"
    proof (rule map_result_total)
      fix p assume "p \<in> set (enumerate 0 ss)"
      then have "snd p \<in> set ss"
        by (rule in_enumerate_snd)
      with st JList show "\<exists>y. stack_texts (cs_color s) (fst p) (snd p) = Inr y"
        by (auto simp: list_all_iff intro: stack_ok_texts)
    qed
    with JList show ?thesis by (auto simp: console_body_def)
  qed (use st in \<open>auto simp: console_body_def\<close>)
  ultimately show ?thesis
    by (auto simp: console_emit_def)
qed

lemma console_emit_summary_ok:
  assumes "summary_record_ok r"
  shows "\<exists>s'. console_emit_summary r s = Inr s'"
proof -
  from assms have h: "has_num r ''duration_s''" "has_text r ''event_count''"
    "has_num r ''total_blocked_ms''" "has_num r ''max_blocked_ms''" "has_text r ''lost_event_count''"
    by (simp_all add: summary_record_ok_def)
  obtain a b c d e where abcde:
    "bind_result (item r ''duration_s'') as_num = Inr a" "bind_result (item r ''event_count'') fmt = Inr b"
    "bind_result (item r ''total_blocked_ms'') as_num = Inr c" "bind_result (item r ''max_blocked_ms'') as_num = Inr d"
    "bind_result (item r ''lost_event_count'') fmt = Inr e"
    using h(1,3,4) [THEN has_numD] h(2,5) [THEN has_textD] by blast
  have tm: "as_num (get_or r ''total_blocked_ms'' (JFloat 0)) = Inr c"
    "as_num (get_or r ''max_blocked_ms'' (JFloat 0)) = Inr d"
    using abcde(3,4) by (auto simp: bind_result_Inr_iff get_or_def dict_get_default_def dict_get_def)
  from assms obtain l where l: "dict_get r ''lost_events_by_source'' = Some (JObj l)"
    and lk: "list_all (\<lambda>kv. \<not> isl (fmt (snd kv))) l"
    by (auto simp: summary_record_ok_def split: option.splits json.splits)
  from assms obtain ss where ss: "get_or r ''top_signatures'' (JList []) = JList ss" "list_all signature_ok ss"
    by (auto simp: summary_record_ok_def split: json.splits)
  have "\<exists>t. loss_text l = Inr t"
  proof -
    have "\<exists>ps. map_result (\<lambda>kv. bind_result (fmt (snd kv)) (\<lambda>c. Inr (fst kv @ ''='' @ c))) (sort_key fst l) = Inr ps"
    proof (rule map_result_total)
      fix kv assume "kv \<in> set (sort_key fst l)"
      with lk have "\<not> isl (fmt (snd kv))"
        by (simp add: list_all_iff)
      then show "\<exists>y. bind_result (fmt (snd kv)) (\<lambda>c. Inr (fst kv @ ''='' @ c)) = Inr y"
        by (auto dest: not_islD)
    qed
    then show ?thesis by (auto simp: loss_text_def)
  qed
  moreover have "\<exists>ts. map_result signature_text (enumerate 1 ss) = Inr ts"
  proof (rule map_result_total)
    fix p assume "p \<in> set (enumerate 1 ss)"
    then have "signature_ok (snd p)"
      using ss(2) in_enumerate_snd [of p 1 ss] by (simp add: list_all_iff)
    then show "\<exists>y. signature_text p = Inr y"
      by (cases "snd p") (auto simp: signature_text_def dest!: has_numD has_textD)
  qed
  moreover have it: "item r ''lost_events_by_source'' = Inr (JObj l)"
    using l by simp
  ultimately show ?thesis
    by (auto simp: console_emit_summary_def console_summary_texts_def abcde tm ss(1) it Let_def)
qed

lemma level_of_record_ok:
  "has_num r ''duration_ms'' \<Longrightarrow> \<exists>l. level_of_record r t = Inr l"
  by (auto simp: level_of_record_def dest!: has_numD)

lemma emit_ok:
  assumes "event_record_ok r"
  shows "\<exists>s'. emit u r s = Inr s'"
proof (cases s)
  case (Console x)
  obtain x' where "console_emit r x = Inr x'"
    using console_emit_ok [OF assms] by blast
  then show ?thesis
    by (simp add: Console)
next
  case (JsonStream x)
  have "has_num r ''duration_ms''"
    using assms by (simp add: event_record_ok_def)
  then obtain l where "level_of_record r (js_error_threshold_ms x) = Inr l"
    using level_of_record_ok by blast
  then show ?thesis
    by (simp add: JsonStream json_stream_emit_def)
next
  case (JsonFile x)
  have "has_num r ''duration_ms''" "has_text r ''tid''"
    using assms by (simp_all add: event_record_ok_def)
  then show ?thesis
    by (auto simp: JsonFile json_file_emit_def Let_def dest!: has_numD has_textD)
qed

lemma emit_summary_ok:
  assumes "summary_record_ok r"
  shows "\<exists>s'. emit_summary u r s = Inr s'"
proof (cases s)
  case (Console x)
  obtain x' where "console_emit_summary r x = Inr x'"
    using console_emit_summary_ok [OF assms] by blast
  then show ?thesis
    by (simp add: Console)
next
  case (JsonFile x)
  have "has_text r ''event_count''" "has_num r ''duration_s''"
    using assms by (simp_all add: summary_record_ok_def)
  then show ?thesis
    by (auto simp: JsonFile json_file_emit_summary_def Let_def dest!: has_numD has_textD)
qed simp

lemma emit_session_start_ok: "\<exists>s'. emit_session_start u r s = Inr s'"
  by (cases s) simp_all

section \<open>Properties\<close>

lemma run_calls_JsonStream:
  "run_calls (sink_step u) cs (JsonStream s) =
   bind_result (run_calls json_stream_step cs s) (\<lambda>s. Inr (JsonStream s))"
proof (induction cs arbitrary: s)
  case (Cons c cs)
  then show ?case
    by (cases "json_stream_step c s") (simp_all add: sink_step_JsonStream)
qed simp

lemma run_calls_JsonFile:
  "run_calls (sink_step u) cs (JsonFile s) =
   bind_result (run_calls (json_file_step u) cs s) (\<lambda>s. Inr (JsonFile s))"
proof (induction cs arbitrary: s)
  case (Cons c cs)
  then show ?case
    by (cases "json_file_step u c s") (simp_all add: sink_step_JsonFile)
qed simp

fun is_json_sink :: "sink \<Rightarrow> bool" where
  "is_json_sink (Console _) = False"
| "is_json_sink _ = True"

text \<open>In any sequence of calls that raises nothing, a sink of any kind keeps everything it
  wrote before, and a JSON sink writes exactly one document per call.\<close>

theorem sinks_append_only:
  assumes "run_calls (sink_step u) cs s = Inr s'"
  shows "take (length (sink_output s)) (sink_output s') = sink_output s \<and>
    (is_json_sink s \<longrightarrow> length (sink_output s') = length (sink_output s) + length cs)"
proof -
  have "length (sink_output s') = length (sink_output s) + length cs" if "is_json_sink s"
  proof (cases s)
    case (JsonStream x)
    with assms show ?thesis
      by (auto simp: run_calls_JsonStream bind_result_Inr_iff dest: json_stream.run_lines)
  next
    case (JsonFile x)
    with assms show ?thesis
      by (auto simp: run_calls_JsonFile bind_result_Inr_iff dest: json_file.run_lines)
  qed (use that in simp)
  with sink_out.run_prefix [OF assms] show ?thesis by blast
qed

definition witness_sink :: sink where
  "witness_sink = JsonStream (JsonStreamSink 500)"

lemma sinks_append_only_witness:
  "\<exists>s'. run_calls (sink_step []) [SessionStart [], Event [(''duration_ms'', JFloat 600)]] witness_sink = Inr s' \<and>
     length (sink_output s') = 2"
proof -
  obtain s' where s': "run_calls (sink_step []) [SessionStart [], Event [(''duration_ms'', JFloat 600)]] witness_sink = Inr s'"
    by (auto simp: witness_sink_def json_stream_emit_def level_of_record_def item_def dict_get_def)
  have "is_json_sink witness_sink" "sink_output witness_sink = []"
    by (simp_all add: witness_sink_def JsonStreamSink_def)
  with sinks_append_only [OF s'] s' show ?thesis by auto
qed

text \<open>The document the JSON stream sink writes for a blocking event has sorted keys and
  carries every field of the record unchanged, but for \<open>level\<close>, which is \<open>error\<close> exactly when
  the duration reaches the sink's threshold.\<close>

theorem json_stream_event_document:
  assumes "distinct (dict_keys r)" and "dict_get r ''duration_ms'' = Some (JFloat dur)"
  shows "\<exists>kvs. (\<exists>s'. json_stream_emit r s = Inr s' \<and> js_stream s' = js_stream s @ [JsonLine (JObj kvs)]) \<and>
    sorted (map fst kvs) \<and>
    (\<forall>k. get_json (JObj kvs) k =
       (if k = ''level'' then Some (JStr (if js_error_threshold_ms s \<le> dur then ''error'' else ''warning''))
        else map_option sorted_keys (dict_get r k)))"
proof -
  define lvl where "lvl = JStr (if js_error_threshold_ms s \<le> dur then ''error'' else ''warning'')"
  define d where "d = dict_set ''level'' lvl r"
  have it: "item r ''duration_ms'' = Inr (JFloat dur)"
    using assms(2) by simp
  have "level_of_record r (js_error_threshold_ms s) = Inr lvl"
    by (simp add: level_of_record_def lvl_def level_for_duration_def it)
  then have "json_stream_emit r s = Inr (json_stream_write d s)"
    using assms(2) by (simp add: json_stream_emit_def d_def)
  moreover obtain kvs where kvs: "sorted_keys (JObj d) = JObj kvs"
    by simp
  moreover have "get_json (JObj kvs) k = map_option sorted_keys (dict_get d k)" for k
    unfolding kvs [symmetric]
    by (rule get_json_sorted_keys) (simp add: d_def distinct_dict_set [OF assms(1)])
  moreover have "sorted_keys lvl = lvl"
    by (simp add: lvl_def)
  ultimately show ?thesis
    using sorted_document_keys [OF kvs] by (intro exI [of _ kvs]) (auto simp: d_def lvl_def)
qed

lemma json_stream_event_document_witness:
  "\<exists>kvs. (\<exists>s'. json_stream_emit [(''duration_ms'', JFloat 600)] (JsonStreamSink 500) = Inr s' \<and>
      js_stream s' = [JsonLine (JObj kvs)]) \<and> get_json (JObj kvs) ''level'' = Some (JStr ''error'')"
  using json_stream_event_document [of "[(''duration_ms'', JFloat 600)]" 600 "JsonStreamSink 500"]
  by (auto simp: JsonStreamSink_def dict_keys_def dict_get_def)

text \<open>The document the JSON file sink writes for a blocking event carries the sink's service
  and environment, both at the top level and under \<open>dd\<close>, the source \<open>blocksnoop\<close>, a level that
  is \<open>error\<close> exactly when the duration reaches the threshold, the time the record was observed
  at, a message unless the record has one, and every other field of the record unchanged.\<close>

theorem json_file_event_document:
  assumes "distinct (dict_keys r)"
    and "dict_get r ''duration_ms'' = Some (JFloat dur)" and "dict_get r ''tid'' = Some (JInt tid)"
    and "dict_get r ''observed_at'' = Some (JStr observed)" and "dict_get r ''message'' = None"
  shows "\<exists>doc. (\<exists>s'. json_file_emit u r s = Inr s' \<and> jf_lines s' = jf_lines s @ [JsonLine doc]) \<and>
    get_json doc ''timestamp'' = Some (JStr observed) \<and>
    get_json doc ''service'' = Some (JStr (jf_service s)) \<and>
    get_json doc ''env'' = Some (JStr (jf_env s)) \<and>
    get_json doc ''source'' = Some (JStr ''blocksnoop'') \<and>
    get_json doc ''dd'' = Some (JObj [(''env'', JStr (jf_env s)), (''service'', JStr (jf_service s))]) \<and>
    get_json doc ''level'' = Some (JStr (if jf_error_threshold_ms s \<le> dur then ''error'' else ''warning'')) \<and>
    get_json doc ''message'' =
      Some (JStr (''Blocking call detected: '' @ fixed 1 dur @ ''ms on tid='' @ str_of_int tid)) \<and>
    (\<forall>k. k \<notin> {''timestamp'', ''service'', ''env'', ''source'', ''dd'', ''level'', ''message''} \<longrightarrow>
       get_json doc k = map_option sorted_keys (dict_get r k))"
proof -
  define lvl where "lvl = JStr (if jf_error_threshold_ms s \<le> dur then ''error'' else ''warning'')"
  define msg where "msg = JStr (''Blocking call detected: '' @ fixed 1 dur @ ''ms on tid='' @ str_of_int tid)"
  define d where "d = dict_setdefault ''message'' msg (dict_set ''level'' lvl r)"
  define extra where "extra = [(''timestamp'', JStr observed), (''service'', JStr (jf_service s)),
    (''env'', JStr (jf_env s)), (''source'', JStr ''blocksnoop''),
    (''dd'', JObj [(''service'', JStr (jf_service s)), (''env'', JStr (jf_env s))])]"
  have items: "item r ''duration_ms'' = Inr (JFloat dur)" "item r ''tid'' = Inr (JInt tid)"
    using assms(2,3) by simp_all
  have "json_file_emit u r s = Inr (json_file_write u d s)"
    using assms(2) by (simp add: json_file_emit_def items d_def lvl_def msg_def level_for_duration_def)
  moreover have dg: "dict_get d k = (if k = ''message'' then Some msg else if k = ''level'' then Some lvl else dict_get r k)" for k
    using assms(5) by (auto simp: d_def dict_get_setdefault)
  then have "get_or d ''observed_at'' (JStr u) = JStr observed"
    using assms(4) dg [of "''observed_at''"] by (simp add: get_or_def dict_get_default_def dict_get_def)
  then have w: "jf_lines (json_file_write u d s) = jf_lines s @ [JsonLine (sorted_keys (JObj (dict_update d extra)))]"
    by (simp add: json_file_write_def Let_def extra_def)
  define doc where "doc = sorted_keys (JObj (dict_update d extra))"
  have "distinct (dict_keys (dict_update d extra))"
    using assms(1) by (simp add: d_def extra_def dict_update_def distinct_dict_set distinct_dict_setdefault)
  then have gj: "get_json doc k = map_option sorted_keys
      (case dict_get extra k of None \<Rightarrow> dict_get d k | Some v \<Rightarrow> Some v)" for k
    unfolding doc_def by (subst get_json_sorted_keys) (simp_all add: dict_get_update dict_keys_def extra_def)
  have sk: "sorted_keys lvl = lvl" "sorted_keys msg = msg"
    by (simp_all add: lvl_def msg_def)
  have dd: "sorted_keys (JObj [(''service'', JStr a), (''env'', JStr b)]) = JObj [(''env'', JStr b), (''service'', JStr a)]" for a b
    by (simp add: less_eq_char_simp less_list_code)
  have w': "\<exists>s'. json_file_emit u r s = Inr s' \<and> jf_lines s' = jf_lines s @ [JsonLine doc]"
    using calculation w by (simp add: doc_def)
  have ex: "dict_get extra k = (if k = ''timestamp'' then Some (JStr observed)
      else if k = ''service'' then Some (JStr (jf_service s)) else if k = ''env'' then Some (JStr (jf_env s))
      else if k = ''source'' then Some (JStr ''blocksnoop'')
      else if k = ''dd'' then Some (JObj [(''service'', JStr (jf_service s)), (''env'', JStr (jf_env s))])
      else None)" for k
    by (simp add: extra_def dict_get_def)
  show ?thesis
    by (rule exI [of _ doc]) (simp add: w' gj ex dg sk dd del: sorted_keys.simps(7), simp add: lvl_def msg_def)
qed

lemma json_file_event_document_witness:
  "\<exists>doc. get_json doc ''service'' = Some (JStr ''api'') \<and> get_json doc ''level'' = Some (JStr ''warning'')"
  using json_file_event_document
    [of "[(''duration_ms'', JFloat 120), (''tid'', JInt 7), (''observed_at'', JStr ''t'')]" 120 7 "''t''" "[]"
       "JsonFileSink ''api'' ''prod'' 500"]
  by (auto simp: JsonFileSink_def dict_keys_def dict_get_def)

end
