(* ===== verification/Bisect.thy ===== *)
theory Bisect
  imports Prelude "HOL-Library.Multiset"
begin

text \<open>
  The Python standard library's \<open>bisect\<close> module, on which the ring buffer
  (\<open>blocksnoop/profiler.py\<close>) and the statistics collector (\<open>blocksnoop/stats.py\<close>) rely. The
  searches are the module's binary search loops. The locale \<open>bisection\<close> states what a client may
  assume of them on a sorted list, and proves the two client facts once: reading a window of a
  list of keyed entries, and inserting in order.
\<close>

section \<open>The binary search loops\<close>

text \<open>\<open>while lo < hi: mid = (lo + hi) // 2; if p(mid): lo = mid + 1 else: hi = mid\<close>\<close>

function bsearch :: "(nat \<Rightarrow> bool) \<Rightarrow> nat \<Rightarrow> nat \<Rightarrow> nat" where
  "bsearch p lo hi =
     (if lo < hi
      then (let mid = (lo + hi) div 2
            in if p mid then bsearch p (mid + 1) hi else bsearch p lo mid)
      else lo)"
  by pat_completeness auto
termination
  by (relation "measure (\<lambda>(p, lo, hi). hi - lo)") auto

declare bsearch.simps [simp del]

definition bisect_left :: "'a::linorder list \<Rightarrow> 'a \<Rightarrow> nat" where
  "bisect_left a x = bsearch (\<lambda>mid. a ! mid < x) 0 (length a)"

definition bisect_right :: "'a::linorder list \<Rightarrow> 'a \<Rightarrow> nat" where
  "bisect_right a x = bsearch (\<lambda>mid. \<not> x < a ! mid) 0 (length a)"

definition insort :: "'a::linorder list \<Rightarrow> 'a \<Rightarrow> 'a list" where
  "insort a x = (let i = bisect_right a x in take i a @ x # drop i a)"

lemma bsearch_done [simp]: "\<not> lo < hi \<Longrightarrow> bsearch p lo hi = lo"
  by (simp add: bsearch.simps)

text \<open>
  On a predicate that is true up to some index and false from there on, the loop ends at that
  index.
\<close>

lemma bsearch_le: "lo \<le> hi \<Longrightarrow> lo \<le> bsearch p lo hi \<and> bsearch p lo hi \<le> hi"
proof (induction p lo hi rule: bsearch.induct)
  case (1 p lo hi)
  show ?case
  proof (cases "lo < hi")
    case True
    then have "(lo + hi) div 2 < hi" "lo \<le> (lo + hi) div 2"
      by linarith+
    with 1 True show ?thesis
      by (subst (1 2) bsearch.simps) (force simp: Let_def)
  qed (use 1 in simp)
qed

lemma bsearch_split:
  assumes "\<And>i j. i \<le> j \<Longrightarrow> j < hi \<Longrightarrow> p j \<Longrightarrow> p i"
    and "\<And>i. i < lo \<Longrightarrow> p i" and "lo \<le> hi" and "i < hi"
  shows "i < bsearch p lo hi \<longleftrightarrow> p i"
  using assms
proof (induction p lo hi rule: bsearch.induct)
  case (1 p lo hi)
  define mid where "mid = (lo + hi) div 2"
  show ?case
  proof (cases "lo < hi")
    case True
    then have mid: "mid < hi" "lo \<le> mid"
      unfolding mid_def by linarith+
    show ?thesis
    proof (cases "p mid")
      case True
      have "i < bsearch p (mid + 1) hi \<longleftrightarrow> p i"
        by (rule "1.IH"(1) [OF \<open>lo < hi\<close> mid_def True])
          (use "1.prems" mid True in \<open>auto simp: less_Suc_eq_le\<close>)
      with True \<open>lo < hi\<close> show ?thesis
        by (simp add: bsearch.simps [of p lo hi] Let_def flip: mid_def)
    next
      case False
      have eq: "bsearch p lo hi = bsearch p lo mid"
        using False \<open>lo < hi\<close> by (simp add: bsearch.simps [of p lo hi] Let_def flip: mid_def)
      show ?thesis
      proof (cases "i < mid")
        case True
        have "i < bsearch p lo mid \<longleftrightarrow> p i"
          by (rule "1.IH"(2) [OF \<open>lo < hi\<close> mid_def False])
            (use "1.prems" mid True in auto)
        with eq show ?thesis by simp
      next
        case not_less: False
        have "\<not> p i"
          using "1.prems"(1) [of mid i] "1.prems"(4) False not_less by auto
        then show ?thesis
          using bsearch_le [of lo mid p] mid not_less eq by auto
      qed
    qed
  next
    case False
    with "1.prems" show ?thesis
      by auto
  qed
qed

section \<open>The interface of an ordered search\<close>

locale bisection =
  fixes bl :: "'a::linorder list \<Rightarrow> 'a \<Rightarrow> nat"
    and br :: "'a list \<Rightarrow> 'a \<Rightarrow> nat"
  assumes bl_length: "bl xs x \<le> length xs"
    and br_length: "br xs x \<le> length xs"
    and bl_iff: "sorted xs \<Longrightarrow> i < length xs \<Longrightarrow> i < bl xs x \<longleftrightarrow> xs ! i < x"
    and br_iff: "sorted xs \<Longrightarrow> i < length xs \<Longrightarrow> i < br xs x \<longleftrightarrow> xs ! i \<le> x"
begin

text \<open>The entries between the two searches are the entries whose key lies in the window.\<close>

lemma window_filter:
  assumes "sorted (map key es)"
  shows "map (\<lambda>i. es ! i) [bl (map key es) a..<br (map key es) b]
    = filter (\<lambda>e. a \<le> key e \<and> key e \<le> b) es"
proof (rule map_nth_filter)
  show "br (map key es) b \<le> length es"
    using br_length [of "map key es" b] by simp
  show "a \<le> key (es ! i) \<and> key (es ! i) \<le> b \<longleftrightarrow> bl (map key es) a \<le> i \<and> i < br (map key es) b"
    if "i < length es" for i
    using bl_iff [OF assms, of i a] br_iff [OF assms, of i b] that
    by (auto simp: not_less)
qed

lemma sorted_insert_right:
  assumes "sorted xs"
  shows "sorted (take (br xs x) xs @ x # drop (br xs x) xs)"
proof -
  have before: "y \<le> x" if "y \<in> set (take (br xs x) xs)" for y
    using that br_iff [OF assms] by (auto simp: in_set_conv_nth)
  have after: "x \<le> y" if y: "y \<in> set (drop (br xs x) xs)" for y
  proof -
    obtain i where i: "y = xs ! (br xs x + i)" "br xs x + i < length xs"
      using y by (auto simp: in_set_conv_nth)
    then show ?thesis
      using br_iff [OF assms, of "br xs x + i" x] by auto
  qed
  show ?thesis
    using assms before after
    by (simp add: sorted_append sorted_wrt_take sorted_wrt_drop)
      (meson order_trans)
qed

text \<open>A key no smaller than every other goes to the end: equal keys keep their order.\<close>

lemma br_all: "sorted xs \<Longrightarrow> (\<And>y. y \<in> set xs \<Longrightarrow> y \<le> x) \<Longrightarrow> br xs x = length xs"
  using br_iff [of xs "length xs - 1" x] br_length [of xs x] nth_mem [of "length xs - 1" xs]
  by (cases "xs = []") force+

end

lemma bisect_left_iff:
  "sorted xs \<Longrightarrow> i < length xs \<Longrightarrow> i < bisect_left xs x \<longleftrightarrow> xs ! i < x"
  unfolding bisect_left_def
  by (rule bsearch_split) (auto intro: le_less_trans dest: sorted_nth_mono)

lemma bisect_right_iff:
  "sorted xs \<Longrightarrow> i < length xs \<Longrightarrow> i < bisect_right xs x \<longleftrightarrow> xs ! i \<le> x"
  unfolding bisect_right_def not_less
  by (rule bsearch_split) (auto intro: order_trans dest: sorted_nth_mono)

interpretation py_bisect: bisection bisect_left bisect_right
proof unfold_locales
  show "bisect_left xs x \<le> length xs" for xs and x :: 'a
    unfolding bisect_left_def using bsearch_le [of 0 "length xs"] by simp
  show "bisect_right xs x \<le> length xs" for xs and x :: 'a
    unfolding bisect_right_def using bsearch_le [of 0 "length xs"] by simp
qed (rule bisect_left_iff bisect_right_iff; assumption)+

lemma sorted_insort: "sorted xs \<Longrightarrow> sorted (insort xs x)"
  unfolding insort_def Let_def by (rule py_bisect.sorted_insert_right)

lemma mset_insort [simp]: "mset (insort xs x) = add_mset x (mset xs)"
proof -
  have "mset xs = mset (take i xs) + mset (drop i xs)" for i
    by (metis append_take_drop_id mset_append)
  then show ?thesis
    by (simp add: insort_def Let_def)
qed

lemma length_insort [simp]: "length (insort xs x) = Suc (length xs)"
  by (metis mset_insort size_add_mset size_mset)

lemma set_insort [simp]: "set (insort xs x) = insert x (set xs)"
  by (metis mset_insort set_mset_add_mset_insert set_mset_mset)

lemma insort_Nil [simp]: "insort [] x = [x]"
  by (simp add: insort_def)

end
