(* ===== verification/RingBuffer.thy ===== *)
theory RingBuffer
  imports Bisect
begin

text \<open>
  \<open>StackRingBuffer\<close> of \<open>blocksnoop/profiler.py\<close>: a list of fixed size written at \<open>_head\<close>, with
  the number of valid entries and of overwritten ones. The payload (a stack trace in the program)
  is a type parameter. Each operation holds the lock for its whole access to the fields, so an
  operation is one atomic step; a lookup copies the entries under the lock and searches the copy.

  The abstraction is the list of stored entries, oldest first; the specification of \<open>push\<close> is a
  queue that drops its oldest element when it is full.
\<close>

section \<open>State and operations\<close>

record 'a ring_buffer =
  rb_size :: nat
  rb_buffer :: "(int \<times> 'a) option list"
  rb_head :: nat
  rb_count :: nat
  rb_overflow_count :: nat

definition StackRingBuffer :: "nat \<Rightarrow> 'a ring_buffer" where
  "StackRingBuffer sz =
     \<lparr>rb_size = sz, rb_buffer = replicate sz None, rb_head = 0, rb_count = 0,
      rb_overflow_count = 0\<rparr>"

definition push :: "int \<Rightarrow> 'a \<Rightarrow> 'a ring_buffer \<Rightarrow> 'a ring_buffer result" where
  "push timestamp_ns stack rb =
     (if rb_head rb < length (rb_buffer rb)
      then let rb1 = rb\<lparr>rb_buffer := (rb_buffer rb)[rb_head rb := Some (timestamp_ns, stack)],
                        rb_head := (rb_head rb + 1) mod rb_size rb\<rparr>
           in Inr (if rb_count rb < rb_size rb
                   then rb1\<lparr>rb_count := rb_count rb + 1\<rparr>
                   else rb1\<lparr>rb_overflow_count := rb_overflow_count rb + 1\<rparr>)
      else Inl IndexError)"

definition ordered_entries :: "'a ring_buffer \<Rightarrow> (int \<times> 'a) option list" where
  "ordered_entries rb =
     (if rb_count rb = 0 then []
      else if rb_count rb < rb_size rb then map (\<lambda>i. rb_buffer rb ! i) [0..<rb_count rb]
      else filter (\<lambda>e. e \<noteq> None)
             (map (\<lambda>i. rb_buffer rb ! ((rb_head rb + i) mod rb_size rb)) [0..<rb_size rb]))"

text \<open>\<open>[e[0] for e in entries]\<close> and the reads \<open>entries[i]\<close> need every entry to be a pair: a
  \<open>None\<close> among them is a \<open>TypeError\<close>.\<close>

definition unpack_entries :: "(int \<times> 'a) option list \<Rightarrow> (int \<times> 'a) list result" where
  "unpack_entries es = (if None \<in> set es then Inl TypeError else Inr (map the es))"

definition find_all_in_range :: "'a ring_buffer \<Rightarrow> int \<Rightarrow> int \<Rightarrow> 'a list result" where
  "find_all_in_range rb start_ns end_ns =
     (let entries = ordered_entries rb
      in if entries = [] then Inr []
         else bind_result (unpack_entries entries) (\<lambda>entries.
           let timestamps = map fst entries;
               lo = bisect_left timestamps start_ns;
               hi = bisect_right timestamps end_ns
           in Inr (map (\<lambda>i. snd (entries ! i)) [lo..<hi])))"

text \<open>One round of the loop \<open>for idx in (pos - 1, pos)\<close> of \<open>find_nearest\<close>; the state is
  \<open>(best_diff, best)\<close>.\<close>

definition nearest_step ::
  "(int \<times> 'a) list \<Rightarrow> int \<Rightarrow> int \<Rightarrow> int \<Rightarrow> int \<Rightarrow> int \<times> (int \<times> 'a) option \<Rightarrow> int \<times> (int \<times> 'a) option"
where
  "nearest_step entries target_ns start_ns end_ns idx st =
     (if 0 \<le> idx \<and> idx < int (length entries)
      then let ts = fst (entries ! nat idx); diff = \<bar>ts - target_ns\<bar>
           in if start_ns \<le> ts \<and> ts \<le> end_ns \<and> diff < fst st
              then (diff, Some (entries ! nat idx))
              else st
      else st)"

definition find_nearest :: "'a ring_buffer \<Rightarrow> int \<Rightarrow> int \<Rightarrow> int \<Rightarrow> 'a option result" where
  "find_nearest rb target_ns start_ns end_ns =
     (let entries = ordered_entries rb
      in if entries = [] then Inr None
         else bind_result (unpack_entries entries) (\<lambda>entries.
           let timestamps = map fst entries;
               pos = int (bisect_left timestamps target_ns);
               best_diff = end_ns - start_ns + 1;
               st = nearest_step entries target_ns start_ns end_ns (pos - 1) (best_diff, None);
               st = nearest_step entries target_ns start_ns end_ns pos st
           in Inr (map_option snd (snd st))))"

definition find_in_range :: "'a ring_buffer \<Rightarrow> int \<Rightarrow> int \<Rightarrow> 'a option result" where
  "find_in_range rb start_ns end_ns = find_nearest rb start_ns start_ns end_ns"

section \<open>Invariant and abstraction\<close>

definition ring_inv :: "'a ring_buffer \<Rightarrow> bool" where
  "ring_inv rb \<longleftrightarrow>
     0 < rb_size rb \<and> length (rb_buffer rb) = rb_size rb \<and> rb_head rb < rb_size rb \<and>
     rb_count rb \<le> rb_size rb \<and> (rb_count rb < rb_size rb \<longrightarrow> rb_head rb = rb_count rb) \<and>
     (\<forall>i < rb_count rb. rb_buffer rb ! i \<noteq> None)"

text \<open>The stored entries, oldest first: a full buffer is read from \<open>_head\<close> on, around its end.\<close>

definition ring_entries :: "'a ring_buffer \<Rightarrow> (int \<times> 'a) list" where
  "ring_entries rb =
     (if rb_count rb < rb_size rb then map the (take (rb_count rb) (rb_buffer rb))
      else map the (rotate (rb_head rb) (rb_buffer rb)))"

definition bounded_push :: "nat \<Rightarrow> 'b \<Rightarrow> 'b list \<Rightarrow> 'b list" where
  "bounded_push n x xs = (if length xs < n then xs @ [x] else tl xs @ [x])"

lemma StackRingBuffer_fields [simp]:
  "rb_size (StackRingBuffer n) = n" "rb_count (StackRingBuffer n) = 0"
  "rb_overflow_count (StackRingBuffer n) = 0"
  by (simp_all add: StackRingBuffer_def)

lemma ring_inv_new [simp]: "0 < n \<Longrightarrow> ring_inv (StackRingBuffer n)"
  by (simp add: ring_inv_def StackRingBuffer_def)

lemma ring_entries_new [simp]: "ring_entries (StackRingBuffer n) = []"
  by (simp add: ring_entries_def StackRingBuffer_def)

lemma length_ring_entries: "ring_inv rb \<Longrightarrow> length (ring_entries rb) = rb_count rb"
  by (auto simp: ring_inv_def ring_entries_def)

lemma rotate_step:
  assumes "h < length xs"
  shows "rotate (Suc h mod length xs) (xs[h := x]) = tl (rotate h xs) @ [x]"
proof -
  have "rotate (Suc h mod length xs) (xs[h := x]) = rotate (Suc h) (xs[h := x])"
    by (metis length_list_update rotate_conv_mod)
  also have "\<dots> = drop (Suc h) xs @ take h xs @ [x]"
    using assms by (cases "Suc h = length xs")
      (simp_all add: rotate_drop_take upd_conv_take_nth_drop)
  also have "\<dots> = tl (rotate h xs) @ [x]"
    using assms by (simp add: rotate_drop_take drop_Suc tl_drop Cons_nth_drop_Suc [symmetric])
  finally show ?thesis .
qed

lemma push_ok:
  assumes "ring_inv rb"
  obtains rb' where "push ts x rb = Inr rb'" and "ring_inv rb'"
    and "rb_size rb' = rb_size rb"
    and "ring_entries rb' = bounded_push (rb_size rb) (ts, x) (ring_entries rb)"
    and "rb_overflow_count rb' =
      (if rb_count rb < rb_size rb then rb_overflow_count rb else Suc (rb_overflow_count rb))"
    and "rb_count rb' = min (rb_size rb) (Suc (rb_count rb))"
proof -
  note inv = assms [unfolded ring_inv_def]
  show thesis
  proof (cases "rb_count rb < rb_size rb")
    case True
    define rb' where "rb' = rb\<lparr>rb_buffer := (rb_buffer rb)[rb_count rb := Some (ts, x)],
      rb_head := Suc (rb_count rb) mod rb_size rb, rb_count := Suc (rb_count rb)\<rparr>"
    have head: "rb_head rb = rb_count rb"
      using inv True by simp
    have push: "push ts x rb = Inr rb'"
      using inv True by (simp add: push_def rb'_def head Let_def)
    have "ring_inv rb'"
      using inv True by (auto simp: ring_inv_def rb'_def nth_list_update less_Suc_eq)
    moreover have "ring_entries rb' = ring_entries rb @ [(ts, x)]"
    proof (cases "Suc (rb_count rb) < rb_size rb")
      case True
      then show ?thesis
        using inv \<open>rb_count rb < rb_size rb\<close>
        by (simp add: ring_entries_def rb'_def take_Suc_conv_app_nth)
    next
      case False
      then have "rb_size rb = Suc (rb_count rb)"
        using True by simp
      then show ?thesis
        using inv True
        by (simp add: ring_entries_def rb'_def upd_conv_take_nth_drop)
    qed
    ultimately show thesis
      using that [OF push] True length_ring_entries [OF assms]
      by (simp add: rb'_def bounded_push_def)
  next
    case False
    define rb' where "rb' = rb\<lparr>rb_buffer := (rb_buffer rb)[rb_head rb := Some (ts, x)],
      rb_head := Suc (rb_head rb) mod rb_size rb, rb_overflow_count := Suc (rb_overflow_count rb)\<rparr>"
    have cnt: "rb_count rb = rb_size rb"
      using inv False by simp
    have push: "push ts x rb = Inr rb'"
      using inv False by (simp add: push_def rb'_def Let_def)
    have "ring_inv rb'"
      using inv cnt by (auto simp: ring_inv_def rb'_def nth_list_update)
    moreover have "ring_entries rb' = tl (ring_entries rb) @ [(ts, x)]"
      using inv cnt rotate_step [of "rb_head rb" "rb_buffer rb" "Some (ts, x)"]
      by (simp add: ring_entries_def rb'_def map_tl)
    ultimately show thesis
      using that [OF push] cnt length_ring_entries [OF assms]
      by (simp add: rb'_def bounded_push_def)
  qed
qed

section \<open>Reading the buffer\<close>

lemma Some_map_the: "None \<notin> set xs \<Longrightarrow> map (Some \<circ> the) xs = xs"
  by (induction xs) auto

lemma ordered_entries_eq:
  assumes "ring_inv rb"
  shows "ordered_entries rb = map Some (ring_entries rb)"
proof -
  note inv = assms [unfolded ring_inv_def]
  consider "rb_count rb = 0" | "0 < rb_count rb" "rb_count rb < rb_size rb" | "rb_count rb = rb_size rb"
    using inv by linarith
  then show ?thesis
  proof cases
    case 1
    then show ?thesis
      using inv by (simp add: ordered_entries_def ring_entries_def)
  next
    case 2
    then have "map (\<lambda>i. rb_buffer rb ! i) [0..<rb_count rb] = take (rb_count rb) (rb_buffer rb)"
      using inv by (intro nth_equalityI) simp_all
    moreover have "None \<notin> set (take (rb_count rb) (rb_buffer rb))"
      using inv 2 by (auto simp: in_set_conv_nth)
    ultimately show ?thesis
      using 2 by (simp add: ordered_entries_def ring_entries_def Some_map_the)
  next
    case 3
    have rot: "map (\<lambda>i. rb_buffer rb ! ((rb_head rb + i) mod rb_size rb)) [0..<rb_size rb]
        = rotate (rb_head rb) (rb_buffer rb)"
      using inv by (intro nth_equalityI) (simp_all add: nth_rotate)
    have none: "None \<notin> set (rotate (rb_head rb) (rb_buffer rb))"
      using inv 3 by (auto simp: in_set_conv_nth)
    then have "filter (\<lambda>e. e \<noteq> None) (rotate (rb_head rb) (rb_buffer rb)) = rotate (rb_head rb) (rb_buffer rb)"
      by (intro filter_True) metis
    then show ?thesis
      using inv 3 none rot by (simp add: ordered_entries_def ring_entries_def Some_map_the)
  qed
qed

lemma unpack_entries_Some [simp]: "unpack_entries (map Some es) = Inr es"
  by (auto simp: unpack_entries_def o_def)

lemma find_all_entries:
  assumes "ring_inv rb"
  shows "find_all_in_range rb a b =
    Inr (map (\<lambda>i. snd (ring_entries rb ! i))
      [bisect_left (map fst (ring_entries rb)) a..<bisect_right (map fst (ring_entries rb)) b])"
  by (simp add: find_all_in_range_def ordered_entries_eq [OF assms] Let_def bisect_left_def
      bisect_right_def)

text \<open>The time stamps are in order when every push happens at or after the one before.\<close>

definition ring_sorted :: "'a ring_buffer \<Rightarrow> bool" where
  "ring_sorted rb \<longleftrightarrow> ring_inv rb \<and> sorted (map fst (ring_entries rb))"

lemma ring_sorted_new [simp]: "0 < n \<Longrightarrow> ring_sorted (StackRingBuffer n)"
  by (simp add: ring_sorted_def)

lemma set_bounded_push: "set (bounded_push n x xs) \<subseteq> insert x (set xs)"
  by (auto simp: bounded_push_def dest: in_set_tlD)

lemma sorted_bounded_push:
  assumes "sorted (map f xs)" and "\<And>y. y \<in> set xs \<Longrightarrow> f y \<le> f x"
  shows "sorted (map f (bounded_push n x xs))"
proof -
  have "sorted (map f (tl xs))"
    using assms(1) by (simp add: map_tl sorted_tl)
  then show ?thesis
    using assms by (auto simp: bounded_push_def sorted_append dest: in_set_tlD)
qed

section \<open>The interface of a sample store\<close>

text \<open>
  What the correlator relies on: a window query returns the payloads of the entries inside the
  window, in order. What the sampler relies on: a push in time order appends the entry and drops
  the oldest one when the store is full.
\<close>

locale sample_store =
  fixes invar :: "'s \<Rightarrow> bool"
    and entries :: "'s \<Rightarrow> (int \<times> 'a) list"
    and find_all :: "'s \<Rightarrow> int \<Rightarrow> int \<Rightarrow> 'a list result"
  assumes find_all_window:
    "invar s \<Longrightarrow> find_all s a b = Inr (map snd (filter (\<lambda>e. a \<le> fst e \<and> fst e \<le> b) (entries s)))"
begin

lemma find_all_mem:
  "invar s \<Longrightarrow> find_all s a b = Inr xs \<Longrightarrow>
    x \<in> set xs \<longleftrightarrow> (\<exists>t. (t, x) \<in> set (entries s) \<and> a \<le> t \<and> t \<le> b)"
  by (force simp: find_all_window)

text \<open>A wider window never loses a sample.\<close>

lemma find_all_wider:
  "invar s \<Longrightarrow> a' \<le> a \<Longrightarrow> b \<le> b' \<Longrightarrow> find_all s a b = Inr xs \<Longrightarrow> find_all s a' b' = Inr ys \<Longrightarrow>
    set xs \<subseteq> set ys"
  using find_all_mem by (meson order_trans subsetI)

end

locale sample_log = sample_store invar entries find_all
  for invar :: "'s \<Rightarrow> bool"
    and entries :: "'s \<Rightarrow> (int \<times> 'a) list"
    and find_all :: "'s \<Rightarrow> int \<Rightarrow> int \<Rightarrow> 'a list result" +
  fixes add :: "int \<Rightarrow> 'a \<Rightarrow> 's \<Rightarrow> 's result"
    and capacity :: "'s \<Rightarrow> nat"
  assumes add_ok:
    "invar s \<Longrightarrow> (\<forall>e \<in> set (entries s). fst e \<le> t) \<Longrightarrow>
      \<exists>s'. add t x s = Inr s' \<and> invar s' \<and> capacity s' = capacity s
        \<and> entries s' = bounded_push (capacity s) (t, x) (entries s)"
begin

primrec add_all :: "(int \<times> 'a) list \<Rightarrow> 's \<Rightarrow> 's result" where
  "add_all [] s = Inr s"
| "add_all (p # ps) s = bind_result (add (fst p) (snd p) s) (add_all ps)"

text \<open>Any number of pushes in time order succeeds.\<close>

lemma add_all_ok:
  assumes "invar s" and "sorted (map fst ps)"
    and "\<forall>e \<in> set (entries s). \<forall>p \<in> set ps. fst e \<le> fst p"
  shows "\<exists>s'. add_all ps s = Inr s' \<and> invar s' \<and> capacity s' = capacity s
    \<and> entries s' = foldl (\<lambda>q p. bounded_push (capacity s) p q) (entries s) ps"
  using assms
proof (induction ps arbitrary: s)
  case (Cons p ps)
  obtain s1 where s1: "add (fst p) (snd p) s = Inr s1" "invar s1" "capacity s1 = capacity s"
    "entries s1 = bounded_push (capacity s) p (entries s)"
    using add_ok [OF Cons.prems(1), of "fst p" "snd p"] Cons.prems(3) by auto
  have "\<forall>e \<in> set (entries s1). \<forall>q \<in> set ps. fst e \<le> fst q"
    using Cons.prems set_bounded_push [of "capacity s" p "entries s"] by (auto simp: s1(4))
  then show ?case
    using Cons.IH [OF s1(2)] Cons.prems(2) s1 by simp
qed simp

end

lemma foldl_bounded_push:
  "0 < n \<Longrightarrow> foldl (\<lambda>q p. bounded_push n p q) [] ps = drop (length ps - n) ps"
proof (induction ps rule: rev_induct)
  case (snoc p ps)
  show ?case
  proof (cases "length ps < n")
    case True
    then show ?thesis
      using snoc by (simp add: bounded_push_def)
  next
    case False
    then have "Suc (length ps) - n = Suc (length ps - n)"
      by simp
    then show ?thesis
      using snoc False by (simp add: bounded_push_def drop_Suc tl_drop)
  qed
qed simp

interpretation ring: sample_log ring_sorted ring_entries find_all_in_range push rb_size
proof unfold_locales
  fix rb :: "'a ring_buffer" and a b
  assume "ring_sorted rb"
  then have inv: "ring_inv rb" and srt: "sorted (map fst (ring_entries rb))"
    by (simp_all add: ring_sorted_def)
  show "find_all_in_range rb a b =
      Inr (map snd (filter (\<lambda>e. a \<le> fst e \<and> fst e \<le> b) (ring_entries rb)))"
    unfolding find_all_entries [OF inv]
    by (simp add: py_bisect.window_filter [OF srt, symmetric])
next
  fix rb :: "'a ring_buffer" and t x
  assume sorted: "ring_sorted rb" and late: "\<forall>e \<in> set (ring_entries rb). fst e \<le> t"
  from sorted have "ring_inv rb"
    by (simp add: ring_sorted_def)
  then obtain rb' where "push t x rb = Inr rb'" "ring_inv rb'" "rb_size rb' = rb_size rb"
    "ring_entries rb' = bounded_push (rb_size rb) (t, x) (ring_entries rb)"
    by (rule push_ok)
  then show "\<exists>s'. push t x rb = Inr s' \<and> ring_sorted s' \<and> rb_size s' = rb_size rb
      \<and> ring_entries s' = bounded_push (rb_size rb) (t, x) (ring_entries rb)"
    using sorted late by (auto simp: ring_sorted_def intro!: sorted_bounded_push)
qed

section \<open>The nearest sample\<close>

lemma nearest_step_le: "fst (nearest_step es target a b idx st) \<le> fst st"
  by (auto simp: nearest_step_def Let_def)

lemma nearest_step_candidate:
  "0 \<le> idx \<Longrightarrow> idx < int (length es) \<Longrightarrow> a \<le> fst (es ! nat idx) \<Longrightarrow> fst (es ! nat idx) \<le> b \<Longrightarrow>
    fst (nearest_step es target a b idx st) \<le> \<bar>fst (es ! nat idx) - target\<bar>"
  by (auto simp: nearest_step_def Let_def)

text \<open>The state records an entry of the window together with its distance, or the start value.\<close>

definition nearest_inv :: "(int \<times> 'a) list \<Rightarrow> int \<Rightarrow> int \<Rightarrow> int \<Rightarrow> int \<times> (int \<times> 'a) option \<Rightarrow> bool" where
  "nearest_inv es target a b st \<longleftrightarrow>
     (case snd st of
        None \<Rightarrow> fst st = b - a + 1
      | Some e \<Rightarrow> e \<in> set es \<and> a \<le> fst e \<and> fst e \<le> b \<and> fst st = \<bar>fst e - target\<bar>)"

lemma nearest_step_inv:
  "nearest_inv es target a b st \<Longrightarrow> nearest_inv es target a b (nearest_step es target a b idx st)"
  by (cases "snd st") (auto simp: nearest_inv_def nearest_step_def Let_def)

lemma find_nearest_spec:
  assumes sorted: "ring_sorted rb" and target: "a \<le> target" "target \<le> b"
  shows "\<exists>r. find_nearest rb target a b = Inr r \<and>
    (case r of
       None \<Rightarrow> \<forall>e \<in> set (ring_entries rb). \<not> (a \<le> fst e \<and> fst e \<le> b)
     | Some x \<Rightarrow> \<exists>t. (t, x) \<in> set (ring_entries rb) \<and> a \<le> t \<and> t \<le> b \<and>
         (\<forall>e \<in> set (ring_entries rb). a \<le> fst e \<and> fst e \<le> b \<longrightarrow> \<bar>t - target\<bar> \<le> \<bar>fst e - target\<bar>))"
proof (cases "ring_entries rb = []")
  case True
  then show ?thesis
    using sorted by (simp add: find_nearest_def ordered_entries_eq ring_sorted_def)
next
  case False
  let ?es = "ring_entries rb"
  from sorted have inv: "ring_inv rb" and srt: "sorted (map fst ?es)"
    by (simp_all add: ring_sorted_def)
  define pos where "pos = bisect_left (map fst ?es) target"
  define st where "st = nearest_step ?es target a b (int pos)
    (nearest_step ?es target a b (int pos - 1) (b - a + 1, None))"
  have eq: "find_nearest rb target a b = Inr (map_option snd (snd st))"
    using False
    by (simp add: find_nearest_def ordered_entries_eq [OF inv] Let_def st_def pos_def)
  have "nearest_inv ?es target a b st"
    unfolding st_def by (intro nearest_step_inv) (simp add: nearest_inv_def)
  moreover have best: "fst st \<le> \<bar>fst (?es ! i) - target\<bar> \<and> \<bar>fst (?es ! i) - target\<bar> < b - a + 1"
    if i: "i < length ?es" "a \<le> fst (?es ! i)" "fst (?es ! i) \<le> b" for i
  proof (cases "i < pos")
    case True
    then have j: "pos - 1 < length ?es" "nat (int pos - 1) = pos - 1" "0 \<le> int pos - 1"
      "int pos - 1 < int (length ?es)"
      using py_bisect.bl_length [of "map fst ?es" target] by (auto simp: pos_def)
    have below: "fst (?es ! (pos - 1)) < target"
      using py_bisect.bl_iff [OF srt, of "pos - 1" target] True j(1) by (simp add: pos_def)
    have mono: "fst (?es ! i) \<le> fst (?es ! (pos - 1))"
      using sorted_nth_mono [OF srt, of i "pos - 1"] True j(1) i by simp
    have "fst (nearest_step ?es target a b (int pos - 1) (b - a + 1, None))
        \<le> \<bar>fst (?es ! nat (int pos - 1)) - target\<bar>"
      by (rule nearest_step_candidate) (use j below mono i target in simp_all)
    moreover have "fst st \<le> fst (nearest_step ?es target a b (int pos - 1) (b - a + 1, None))"
      unfolding st_def by (rule nearest_step_le)
    ultimately show ?thesis
      using below mono i target unfolding j(2) by linarith
  next
    case False
    then have p: "pos < length ?es" "target \<le> fst (?es ! pos)"
      using py_bisect.bl_iff [OF srt, of pos target] i by (auto simp: pos_def)
    moreover have "fst (?es ! pos) \<le> fst (?es ! i)"
      using sorted_nth_mono [OF srt, of pos i] False i by simp
    moreover have "fst st \<le> \<bar>fst (?es ! nat (int pos)) - target\<bar>"
      unfolding st_def by (rule nearest_step_candidate) (use calculation i target in simp_all)
    ultimately show ?thesis
      using i target by simp
  qed
  ultimately show ?thesis
  proof (cases "snd st")
    case None
    then have "fst st = b - a + 1"
      using \<open>nearest_inv ?es target a b st\<close> by (simp add: nearest_inv_def)
    then have none: "\<not> (a \<le> fst (?es ! i) \<and> fst (?es ! i) \<le> b)" if "i < length ?es" for i
      using best [OF that] by linarith
    have "\<not> (a \<le> fst e \<and> fst e \<le> b)" if e: "e \<in> set ?es" for e
    proof -
      obtain i where "i < length ?es" "?es ! i = e"
        using e unfolding in_set_conv_nth by blast
      then show ?thesis
        using none [of i] by simp
    qed
    then show ?thesis
      using None unfolding eq by simp
  next
    case (Some e)
    then have e: "e \<in> set ?es" "a \<le> fst e" "fst e \<le> b" "fst st = \<bar>fst e - target\<bar>"
      using \<open>nearest_inv ?es target a b st\<close> by (simp_all add: nearest_inv_def)
    moreover have "\<bar>fst e - target\<bar> \<le> \<bar>fst e' - target\<bar>"
      if e': "e' \<in> set ?es" "a \<le> fst e'" "fst e' \<le> b" for e'
    proof -
      obtain i where "i < length ?es" "?es ! i = e'"
        using e'(1) unfolding in_set_conv_nth by blast
      then show ?thesis
        using best [of i] e' e(4) by simp
    qed
    ultimately have "(fst e, snd e) \<in> set ?es \<and> a \<le> fst e \<and> fst e \<le> b \<and>
        (\<forall>e' \<in> set ?es. a \<le> fst e' \<and> fst e' \<le> b \<longrightarrow> \<bar>fst e - target\<bar> \<le> \<bar>fst e' - target\<bar>)"
      by simp
    then show ?thesis
      unfolding eq using Some by (intro exI [of _ "Some (snd e)"]) (simp only: option.map option.case, blast)
  qed
qed

section \<open>Properties\<close>

text \<open>A history of pushes, oldest first.\<close>

fun push_all :: "(int \<times> 'a) list \<Rightarrow> 'a ring_buffer \<Rightarrow> 'a ring_buffer result" where
  "push_all [] rb = Inr rb"
| "push_all ((ts, x) # ps) rb = bind_result (push ts x rb) (push_all ps)"

lemma push_all_ok:
  "ring_inv rb \<Longrightarrow> rb_count rb = length (ring_entries rb) \<Longrightarrow>
    \<exists>rb'. push_all ps rb = Inr rb' \<and> ring_inv rb' \<and> rb_size rb' = rb_size rb
      \<and> ring_entries rb' = foldl (\<lambda>q p. bounded_push (rb_size rb) p q) (ring_entries rb) ps
      \<and> rb_overflow_count rb' + rb_count rb' = rb_overflow_count rb + rb_count rb + length ps"
proof (induction ps arbitrary: rb)
  case (Cons p ps)
  obtain ts x where p: "p = (ts, x)"
    by (cases p)
  obtain rb1 where rb1: "push ts x rb = Inr rb1" "ring_inv rb1" "rb_size rb1 = rb_size rb"
    "ring_entries rb1 = bounded_push (rb_size rb) (ts, x) (ring_entries rb)"
    "rb_overflow_count rb1 =
      (if rb_count rb < rb_size rb then rb_overflow_count rb else Suc (rb_overflow_count rb))"
    "rb_count rb1 = min (rb_size rb) (Suc (rb_count rb))"
    using push_ok [OF Cons.prems(1)] by metis
  have "rb_overflow_count rb1 + rb_count rb1 = Suc (rb_overflow_count rb + rb_count rb)"
    using rb1(5,6) Cons.prems(1) by (auto simp: ring_inv_def)
  then show ?case
    using Cons.IH [OF rb1(2)] length_ring_entries [OF rb1(2)] rb1 by (auto simp: p)
qed auto

lemma push_all_new:
  assumes "0 < n"
  shows "\<exists>rb. push_all ps (StackRingBuffer n) = Inr rb \<and> ring_inv rb
    \<and> ring_entries rb = drop (length ps - n) ps
    \<and> rb_overflow_count rb + rb_count rb = length ps"
  using push_all_ok [OF ring_inv_new [OF assms], of ps] foldl_bounded_push [OF assms, of ps] by auto

text \<open>C21: After any history of pushes a buffer of positive size holds exactly the most recent
  entries that fit, oldest first, and its overflow counter is the number of entries that were
  rotated out; no push raises.\<close>

theorem ring_holds_latest:
  assumes "0 < n"
  shows "\<exists>rb. push_all ps (StackRingBuffer n) = Inr rb
    \<and> ordered_entries rb = map Some (drop (length ps - n) ps)
    \<and> rb_count rb = min n (length ps) \<and> rb_overflow_count rb = length ps - n"
proof -
  obtain rb where rb: "push_all ps (StackRingBuffer n) = Inr rb" "ring_inv rb"
    "ring_entries rb = drop (length ps - n) ps"
    "rb_overflow_count rb + rb_count rb = length ps"
    using push_all_new [OF assms, of ps] by blast
  moreover have "rb_count rb = min n (length ps)"
    using length_ring_entries [OF rb(2)] rb(3) by auto
  ultimately show ?thesis
    using ordered_entries_eq [OF rb(2)] by auto
qed

theorem ring_holds_latest_witness:
  "\<exists>rb. push_all [(1, ''a''), (2, ''b''), (3, ''c'')] (StackRingBuffer 2) = Inr rb
    \<and> ordered_entries rb = [Some (2, ''b''), Some (3, ''c'')] \<and> rb_overflow_count rb = 1"
  using ring_holds_latest [of 2 "[(1, ''a''), (2, ''b''), (3, ''c'')]"] by auto

lemma push_all_sorted:
  assumes "0 < n" and "sorted (map fst ps)" and "push_all ps (StackRingBuffer n) = Inr rb"
  shows "ring_sorted rb \<and> ring_entries rb = drop (length ps - n) ps"
proof -
  obtain rb' where "push_all ps (StackRingBuffer n) = Inr rb'" "ring_inv rb'"
    "ring_entries rb' = drop (length ps - n) ps"
    using push_all_new [OF assms(1), of ps] by blast
  moreover have "sorted (map fst (drop (length ps - n) ps))"
    using assms(2) by (simp add: sorted_wrt_drop flip: drop_map)
  ultimately show ?thesis
    using assms(3) by (simp add: ring_sorted_def)
qed

text \<open>When the pushes happened in time order, the binary searches return exactly the stacks of
  the retained entries whose time stamp lies in the closed window, oldest first.\<close>

theorem find_all_in_range_window:
  assumes "0 < n" and "sorted (map fst ps)" and "push_all ps (StackRingBuffer n) = Inr rb"
  shows "find_all_in_range rb a b =
    Inr [snd e. e \<leftarrow> drop (length ps - n) ps, a \<le> fst e \<and> fst e \<le> b]"
proof -
  have "[snd e. e \<leftarrow> es, a \<le> fst e \<and> fst e \<le> b] = map snd (filter (\<lambda>e. a \<le> fst e \<and> fst e \<le> b) es)"
    for es :: "(int \<times> 'a) list"
    by (induction es) auto
  then show ?thesis
    using push_all_sorted [OF assms] ring.find_all_window [of rb a b] by simp
qed

theorem find_all_in_range_window_witness:
  "\<exists>rb. push_all [(10, ''a''), (20, ''b''), (30, ''c'')] (StackRingBuffer 2) = Inr rb
    \<and> find_all_in_range rb 5 25 = Inr [''b'']"
proof -
  obtain rb where rb: "push_all [(10, ''a''), (20, ''b''), (30, ''c'')] (StackRingBuffer 2) = Inr rb"
    using push_all_new [of 2 "[(10, ''a''), (20, ''b''), (30, ''c'')]"] by auto
  then show ?thesis
    using find_all_in_range_window [OF _ _ rb, of 5 25] by auto
qed

text \<open>With the target inside the window, \<open>find_nearest\<close> returns a stack of the window that no
  other stack of the window is closer to the target than, and returns nothing only when the window
  is empty.\<close>

theorem find_nearest_closest:
  assumes "0 < n" and "sorted (map fst ps)" and "push_all ps (StackRingBuffer n) = Inr rb"
    and "a \<le> target" and "target \<le> b"
    and "es = filter (\<lambda>e. a \<le> fst e \<and> fst e \<le> b) (drop (length ps - n) ps)"
  shows "\<exists>r. find_nearest rb target a b = Inr r \<and> (r = None \<longleftrightarrow> es = [])
    \<and> (\<forall>x. r = Some x \<longrightarrow> (\<exists>t. (t, x) \<in> set es \<and> (\<forall>e \<in> set es. \<bar>t - target\<bar> \<le> \<bar>fst e - target\<bar>)))"
proof -
  have rb: "ring_sorted rb" "ring_entries rb = drop (length ps - n) ps"
    using push_all_sorted [OF assms(1-3)] by simp_all
  obtain r where r: "find_nearest rb target a b = Inr r"
    "case r of
       None \<Rightarrow> \<forall>e \<in> set (ring_entries rb). \<not> (a \<le> fst e \<and> fst e \<le> b)
     | Some x \<Rightarrow> \<exists>t. (t, x) \<in> set (ring_entries rb) \<and> a \<le> t \<and> t \<le> b \<and>
         (\<forall>e \<in> set (ring_entries rb). a \<le> fst e \<and> fst e \<le> b \<longrightarrow> \<bar>t - target\<bar> \<le> \<bar>fst e - target\<bar>)"
    using find_nearest_spec [OF rb(1) assms(4,5)] by blast
  show ?thesis
  proof (cases r)
    case None
    then show ?thesis
      using r assms(6) rb(2) by (simp add: filter_empty_conv)
  next
    case (Some x)
    then obtain t where t: "(t, x) \<in> set (ring_entries rb)" "a \<le> t" "t \<le> b"
      "\<forall>e \<in> set (ring_entries rb). a \<le> fst e \<and> fst e \<le> b \<longrightarrow> \<bar>t - target\<bar> \<le> \<bar>fst e - target\<bar>"
      using r(2) by auto
    then have mem: "(t, x) \<in> set es" and min: "\<forall>e \<in> set es. \<bar>t - target\<bar> \<le> \<bar>fst e - target\<bar>"
      unfolding assms(6) rb(2) by simp_all
    from mem have "es \<noteq> []"
      by (metis empty_iff list.set(1))
    then show ?thesis
      using Some r(1) mem min by blast
  qed
qed

theorem find_nearest_closest_witness:
  "\<exists>rb r. push_all [(10, ''a''), (30, ''b'')] (StackRingBuffer 4) = Inr rb
    \<and> find_nearest rb 18 0 40 = Inr (Some r)"
proof -
  obtain rb where rb: "push_all [(10, ''a''), (30, ''b'')] (StackRingBuffer 4) = Inr rb"
    using push_all_new [of 4 "[(10, ''a''), (30, ''b'')]"] by auto
  then show ?thesis
    using find_nearest_closest [OF _ _ rb _ _ refl, of 0 18 40] by auto
qed

text \<open>With a target before the window, \<open>find_nearest\<close> looks at no entry inside the window and
  returns nothing although the window holds a sample, contrary to its docstring.\<close>

theorem find_nearest_misses_outside_target:
  "\<exists>rb. push_all [(1, ''old''), (10, ''in window'')] (StackRingBuffer 4) = Inr rb
    \<and> find_all_in_range rb 5 20 = Inr [''in window''] \<and> find_nearest rb 0 5 20 = Inr None"
proof -
  let ?ps = "[(1, ''old''), (10, ''in window'')]"
  obtain rb where rb: "push_all ?ps (StackRingBuffer 4) = Inr rb" "ring_inv rb" "ring_entries rb = ?ps"
    using push_all_new [of 4 ?ps] by auto
  have "find_all_in_range rb 5 20 = Inr [''in window'']"
    using ring.find_all_window [of rb 5 20] rb by (simp add: ring_sorted_def)
  moreover have "bisect_left [1, 10] (0 :: int) = 0"
    by (simp add: bisect_left_def bsearch.simps)
  then have "find_nearest rb 0 5 20 = Inr None"
    using rb by (simp add: find_nearest_def ordered_entries_eq nearest_step_def unpack_entries_def Let_def)
  ultimately show ?thesis
    using rb(1) by blast
qed

end
