(* ===== verification/Correlator.thy ===== *)
theory Correlator
  imports Core RingBuffer
begin

text \<open>
  \<open>blocksnoop/correlator.py\<close>: an event that has just ended is enriched with the Python stacks the
  ring buffer holds for the time window of the blocking call. The correlator is given its ring
  buffer; here it takes the buffer's window query as an argument, and \<open>on_event\<close> instantiates it
  with the ring buffer's. The clock reading \<open>time.monotonic_ns()\<close> is an argument.
\<close>

section \<open>Call sites\<close>

definition leaf_key :: "python_stack_trace \<Rightarrow> (string \<times> string) result" where
  "leaf_key stack =
     (case find (\<lambda>f. \<not> is_stdlib_file (fr_file f)) (rev (frames stack)) of
        Some f \<Rightarrow> Inr (fr_function f, fr_file f)
      | None \<Rightarrow> bind_result (py_index (frames stack) (-1)) (\<lambda>f. Inr (fr_function f, fr_file f)))"

definition is_informative :: "python_stack_trace \<Rightarrow> bool" where
  "is_informative stack =
     (let app_frames = filter (\<lambda>f. \<not> is_stdlib_file (fr_file f)) (frames stack)
      in length app_frames > 1
         \<or> length app_frames = 1 \<and> fr_function (app_frames ! 0) \<noteq> ''<module>'')"

section \<open>Correlation\<close>

text \<open>The loop that keeps the first stack of every call site.\<close>

fun collect_seen ::
  "python_stack_trace list \<Rightarrow> (string \<times> string, python_stack_trace) dict
    \<Rightarrow> (string \<times> string, python_stack_trace) dict result"
where
  "collect_seen [] seen = Inr seen"
| "collect_seen (stack # rest) seen =
     (if frames stack = [] then collect_seen rest seen
      else bind_result (leaf_key stack) (\<lambda>key.
        if key \<in> set (dict_keys seen) then collect_seen rest seen
        else collect_seen rest (dict_set key stack seen)))"

definition correlate ::
  "(int \<Rightarrow> int \<Rightarrow> python_stack_trace list result) \<Rightarrow> int \<Rightarrow> int \<Rightarrow> blocking_event \<Rightarrow> blocking_event result"
where
  "correlate find_all correlation_padding_ns now event =
     (let duration = end_ns event - start_ns event;
          padding = max duration correlation_padding_ns;
          search_start = now - duration - padding;
          search_end = now
      in bind_result (find_all search_start search_end) (\<lambda>all_stacks.
           if all_stacks = [] then Inr event
           else bind_result (collect_seen all_stacks []) (\<lambda>seen.
             if seen = [] then Inr event
             else let informative = filter (\<lambda>kv. is_informative (snd kv)) seen;
                      stacks = (if informative \<noteq> [] then dict_values informative else dict_values seen)
                  in Inr (event\<lparr>python_stacks := stacks\<rparr>))))"

definition on_event ::
  "python_stack_trace ring_buffer \<Rightarrow> int \<Rightarrow> int \<Rightarrow> blocking_event \<Rightarrow> blocking_event result"
where
  "on_event ring_buffer = correlate (find_all_in_range ring_buffer)"

section \<open>What the enrichment means\<close>

text \<open>The call site of a non-empty stack: its deepest application frame, else its leaf frame.\<close>

definition app_frames :: "python_stack_trace \<Rightarrow> stack_frame list" where
  "app_frames stack = filter (\<lambda>f. \<not> is_stdlib_file (fr_file f)) (frames stack)"

definition call_site :: "python_stack_trace \<Rightarrow> string \<times> string" where
  "call_site stack =
     (if app_frames stack = []
      then (fr_function (last (frames stack)), fr_file (last (frames stack)))
      else (fr_function (last (app_frames stack)), fr_file (last (app_frames stack))))"

text \<open>The first element for every key, in order.\<close>

fun firsts :: "('a \<Rightarrow> 'k) \<Rightarrow> 'k list \<Rightarrow> 'a list \<Rightarrow> 'a list" where
  "firsts key ks [] = []"
| "firsts key ks (x # xs) =
     (if key x \<in> set ks then firsts key ks xs else x # firsts key (key x # ks) xs)"

definition enrichment :: "python_stack_trace list \<Rightarrow> python_stack_trace list" where
  "enrichment samples =
     (let reps = firsts call_site [] (filter (\<lambda>s. frames s \<noteq> []) samples);
          informative = filter is_informative reps
      in if informative \<noteq> [] then informative else reps)"

definition search_window :: "int \<Rightarrow> int \<Rightarrow> blocking_event \<Rightarrow> int \<times> int" where
  "search_window padding_ns now event =
     (now - (end_ns event - start_ns event) - max (end_ns event - start_ns event) padding_ns, now)"

section \<open>Lemmas on call sites\<close>

lemma find_rev_filter:
  "find P (rev xs) = (if filter P xs = [] then None else Some (last (filter P xs)))"
  by (induction xs rule: rev_induct) auto

lemma leaf_key_call_site: "frames s \<noteq> [] \<Longrightarrow> leaf_key s = Inr (call_site s)"
  by (auto simp: leaf_key_def call_site_def app_frames_def find_rev_filter py_index_last)

lemma is_informative_app_frames:
  "is_informative s \<longleftrightarrow>
    length (app_frames s) > 1 \<or> length (app_frames s) = 1 \<and> fr_function (app_frames s ! 0) \<noteq> ''<module>''"
  by (simp add: is_informative_def app_frames_def Let_def)

lemma app_frames_not_stdlib: "f \<in> set (app_frames s) \<Longrightarrow> \<not> is_stdlib_file (fr_file f)"
  by (simp add: app_frames_def)

lemma last_frame_stdlib:
  "frames s \<noteq> [] \<Longrightarrow> app_frames s = [] \<Longrightarrow> is_stdlib_file (snd (call_site s))"
  by (auto simp: call_site_def app_frames_def filter_empty_conv)

text \<open>Two stacks with the same application call site other than module level are both informative.\<close>

lemma same_site_informative:
  assumes s: "app_frames s \<noteq> []" "fst (call_site s) \<noteq> ''<module>''"
    and t: "frames t \<noteq> []" "call_site t = call_site s"
  shows "is_informative t"
proof -
  have "\<not> is_stdlib_file (snd (call_site s))"
    using s(1) app_frames_not_stdlib [of "last (app_frames s)" s] by (simp add: call_site_def)
  then have ne: "app_frames t \<noteq> []"
    using last_frame_stdlib [OF t(1)] t(2) by auto
  then have "fr_function (last (app_frames t)) \<noteq> ''<module>''"
    using s(2) t(2) by (simp add: call_site_def split: if_splits)
  then show ?thesis
    using ne by (cases "app_frames t" rule: rev_cases) (auto simp: is_informative_app_frames nth_append)
qed

lemma firsts_subset: "set (firsts key ks xs) \<subseteq> set xs"
  by (induction xs arbitrary: ks) auto

lemma firsts_distinct:
  "distinct (map key (firsts key ks xs)) \<and> key ` set (firsts key ks xs) \<inter> set ks = {}"
proof (induction xs arbitrary: ks)
  case (Cons x xs)
  then show ?case
    using Cons [of "key x # ks"] Cons [of ks] by auto
qed simp

lemma firsts_cover_keys:
  "x \<in> set xs \<Longrightarrow> key x \<notin> set ks \<Longrightarrow> \<exists>y \<in> set (firsts key ks xs). key y = key x"
proof (induction xs arbitrary: ks)
  case (Cons z xs)
  show ?case
  proof (cases "key z = key x")
    case True
    then show ?thesis
      using Cons.prems by simp
  next
    case False
    then have "x \<in> set xs" "key x \<notin> set (key z # ks)"
      using Cons.prems by auto
    then show ?thesis
      using Cons.IH [of "key z # ks"] Cons.IH [of ks] by simp
  qed
qed simp

lemma firsts_cover: "x \<in> set xs \<Longrightarrow> \<exists>y \<in> set (firsts key [] xs). key y = key x"
  by (rule firsts_cover_keys) simp_all

lemma firsts_cong_keys: "set ks = set ks' \<Longrightarrow> firsts key ks xs = firsts key ks' xs"
proof (induction xs arbitrary: ks ks')
  case (Cons x xs)
  have "firsts key (key x # ks) xs = firsts key (key x # ks') xs"
    by (rule Cons.IH) (simp add: Cons.prems)
  moreover have "firsts key ks xs = firsts key ks' xs"
    using Cons.prems by (rule Cons.IH)
  ultimately show ?case
    by (simp add: Cons.prems)
qed simp

text \<open>The dictionary the loop builds holds exactly the first stacks, keyed by call site.\<close>

lemma collect_seen_firsts:
  "collect_seen stacks seen =
    Inr (seen @ map (\<lambda>s. (call_site s, s))
      (firsts call_site (dict_keys seen) (filter (\<lambda>s. frames s \<noteq> []) stacks)))"
proof (induction stacks arbitrary: seen)
  case (Cons s stacks)
  show ?case
  proof (cases "frames s = [] \<or> call_site s \<in> set (dict_keys seen)")
    case True
    then show ?thesis
      using Cons [of seen] by (auto simp: leaf_key_call_site)
  next
    case False
    then have set: "dict_set (call_site s) s seen = seen @ [(call_site s, s)]"
      by (simp add: dict_set_absent)
    have "firsts call_site (dict_keys (seen @ [(call_site s, s)])) xs
        = firsts call_site (call_site s # dict_keys seen) xs" for xs
      by (rule firsts_cong_keys) (simp add: dict_keys_def)
    then show ?thesis
      using False Cons [of "seen @ [(call_site s, s)]"]
      by (simp add: leaf_key_call_site set)
  qed
qed (simp add: dict_keys_def)

lemma filter_keyed: "filter (\<lambda>kv. P (snd kv)) (map (\<lambda>s. (f s, s)) xs) = map (\<lambda>s. (f s, s)) (filter P xs)"
  by (induction xs) simp_all

lemma dict_values_keyed [simp]: "dict_values (map (\<lambda>s. (f s, s)) xs) = xs"
  by (simp add: dict_values_def o_def)

lemma correlate_samples:
  assumes "find_all (fst (search_window pad now ev)) (snd (search_window pad now ev)) = Inr samples"
  shows "correlate find_all pad now ev =
    Inr (if enrichment samples = [] then ev else ev\<lparr>python_stacks := enrichment samples\<rparr>)"
proof -
  have dk: "dict_keys [] = ([] :: (string \<times> string) list)"
    by (simp add: dict_keys_def)
  show ?thesis
    using assms unfolding correlate_def search_window_def
    by (auto simp: Let_def collect_seen_firsts dk enrichment_def filter_keyed)
qed

section \<open>Properties of the enrichment\<close>

lemma enrichment_nonempty_frames:
  "s \<in> set (enrichment samples) \<Longrightarrow> s \<in> set samples \<and> frames s \<noteq> []"
  using firsts_subset [of call_site "[]"]
  by (fastforce simp: enrichment_def Let_def split: if_splits)

lemma enrichment_distinct: "distinct (map call_site (enrichment samples))"
  using firsts_distinct [of call_site "[]"]
  by (simp add: enrichment_def Let_def distinct_map_filter)

lemma enrichment_all_informative:
  "s \<in> set (enrichment samples) \<Longrightarrow> is_informative s \<Longrightarrow> t \<in> set (enrichment samples) \<Longrightarrow> is_informative t"
  by (auto simp: enrichment_def Let_def filter_empty_conv split: if_splits)

lemma enrichment_cover:
  assumes "s \<in> set samples" and "app_frames s \<noteq> []" and "fst (call_site s) \<noteq> ''<module>''"
  shows "\<exists>t \<in> set (enrichment samples). call_site t = call_site s"
proof -
  let ?reps = "firsts call_site [] (filter (\<lambda>s. frames s \<noteq> []) samples)"
  have "frames s \<noteq> []"
    using assms(2) by (auto simp: app_frames_def)
  then obtain t where t: "t \<in> set ?reps" "call_site t = call_site s"
    using firsts_cover [of s "filter (\<lambda>s. frames s \<noteq> []) samples" call_site] assms(1) by auto
  have "t \<in> set (filter (\<lambda>s. frames s \<noteq> []) samples)"
    using t(1) by (rule subsetD [OF firsts_subset])
  then have "frames t \<noteq> []"
    by simp
  then have "is_informative t"
    using same_site_informative [OF assms(2,3)] t(2) by blast
  with t have t': "t \<in> set (filter is_informative ?reps)"
    by simp
  then have "filter is_informative ?reps \<noteq> []"
    by (metis empty_iff list.set(1))
  then have "enrichment samples = filter is_informative ?reps"
    by (simp add: enrichment_def Let_def)
  with t' t(2) show ?thesis by metis
qed

lemma enrichment_empty_iff: "enrichment samples = [] \<longleftrightarrow> (\<forall>s \<in> set samples. frames s = [])"
proof -
  have "firsts call_site [] xs = [] \<longleftrightarrow> xs = []" for xs
    by (cases xs) simp_all
  then show ?thesis
    by (auto simp: enrichment_def Let_def filter_empty_conv)
qed

section \<open>The correlator over any sample store\<close>

definition window_samples :: "(int \<times> 'a) list \<Rightarrow> int \<times> int \<Rightarrow> 'a list" where
  "window_samples es w = map snd (filter (\<lambda>e. fst w \<le> fst e \<and> fst e \<le> snd w) es)"

lemma window_samples_mem:
  "x \<in> set (window_samples es w) \<longleftrightarrow> (\<exists>t. (t, x) \<in> set es \<and> fst w \<le> t \<and> t \<le> snd w)"
  by (force simp: window_samples_def)

locale trace_store = sample_store invar entries find_all
  for invar :: "'s \<Rightarrow> bool"
    and entries :: "'s \<Rightarrow> (int \<times> python_stack_trace) list"
    and find_all :: "'s \<Rightarrow> int \<Rightarrow> int \<Rightarrow> python_stack_trace list result"
begin

lemma correlate_ok:
  "invar s \<Longrightarrow> correlate (find_all s) pad now ev =
    Inr (if enrichment (window_samples (entries s) (search_window pad now ev)) = [] then ev
         else ev\<lparr>python_stacks := enrichment (window_samples (entries s) (search_window pad now ev))\<rparr>)"
  by (rule correlate_samples) (simp add: find_all_window window_samples_def)

lemma correlate_sound:
  assumes "invar s" and "python_stacks ev = []" and "correlate (find_all s) pad now ev = Inr ev'"
    and mem: "st \<in> set (python_stacks ev')"
  shows "frames st \<noteq> [] \<and> (\<exists>t. (t, st) \<in> set (entries s)
    \<and> fst (search_window pad now ev) \<le> t \<and> t \<le> snd (search_window pad now ev))"
proof -
  let ?w = "window_samples (entries s) (search_window pad now ev)"
  have "st \<in> set (enrichment ?w)"
    using assms by (auto simp: correlate_ok split: if_splits)
  then have "st \<in> set ?w" and "frames st \<noteq> []"
    using enrichment_nonempty_frames by blast+
  then show ?thesis
    by (simp add: window_samples_mem)
qed

lemma correlate_complete:
  assumes "invar s" and "correlate (find_all s) pad now ev = Inr ev'"
    and "(t, st) \<in> set (entries s)"
    and "fst (search_window pad now ev) \<le> t" and "t \<le> snd (search_window pad now ev)"
    and "app_frames st \<noteq> []" and "fst (call_site st) \<noteq> ''<module>''"
  shows "\<exists>st' \<in> set (python_stacks ev'). call_site st' = call_site st"
proof -
  have "st \<in> set (window_samples (entries s) (search_window pad now ev))"
    using assms by (auto simp: window_samples_mem)
  then have "\<exists>st' \<in> set (enrichment (window_samples (entries s) (search_window pad now ev))).
      call_site st' = call_site st"
    using assms(6,7) by (rule enrichment_cover)
  then show ?thesis
    using assms(1,2) by (auto simp: correlate_ok split: if_splits)
qed

end

interpretation ring_traces: trace_store ring_sorted ring_entries find_all_in_range
  by unfold_locales

section \<open>Properties\<close>

text \<open>For a buffer in time order, \<open>on_event\<close> never raises, forwards the event with its times
  and its target unchanged, and sets its stacks to the enrichment of the samples in the search
  window (unless they hold no frame at all, when the event is forwarded as it came).\<close>

theorem on_event_enriches:
  assumes "ring_sorted rb"
    and "samples = window_samples (ring_entries rb) (search_window pad now ev)"
  shows "\<exists>ev'. on_event rb pad now ev = Inr ev'
    \<and> start_ns ev' = start_ns ev \<and> end_ns ev' = end_ns ev \<and> ev_pid ev' = ev_pid ev
    \<and> ev_tid ev' = ev_tid ev
    \<and> python_stacks ev' = (if \<forall>s \<in> set samples. frames s = [] then python_stacks ev
                            else enrichment samples)"
  using ring_traces.correlate_ok [OF assms(1), of pad now ev] enrichment_empty_iff [of samples]
  by (simp add: on_event_def flip: assms(2))

definition example_stack :: "string \<Rightarrow> python_stack_trace" where
  "example_stack fn =
     \<lparr>thread_id = 1, thread_name = [],
      frames = [\<lparr>fr_function = ''<module>'', fr_file = ''app.py'', fr_line = 1\<rparr>,
                \<lparr>fr_function = fn, fr_file = ''app.py'', fr_line = 7\<rparr>]\<rparr>"

definition example_event :: blocking_event where
  "example_event = \<lparr>start_ns = 100, end_ns = 300, ev_pid = 1, ev_tid = 1, python_stacks = []\<rparr>"

definition example_ring :: "python_stack_trace ring_buffer" where
  "example_ring =
     \<lparr>rb_size = 2, rb_buffer = [Some (850, example_stack ''f''), None], rb_head = 1, rb_count = 1,
      rb_overflow_count = 0\<rparr>"

lemma example_ring_sorted: "ring_sorted example_ring"
  by (simp add: ring_sorted_def ring_inv_def ring_entries_def example_ring_def)

lemma example_ring_entries: "ring_entries example_ring = [(850, example_stack ''f'')]"
  by (simp add: ring_entries_def example_ring_def)

lemma example_window: "search_window 200 1000 example_event = (600, 1000)"
  by (simp add: search_window_def example_event_def)

lemma example_frames: "frames (example_stack fn) \<noteq> []"
  by (simp add: example_stack_def)

lemma example_app_frames:
  "app_frames (example_stack ''f'') \<noteq> [] \<and> fr_function (last (app_frames (example_stack ''f''))) = ''f''"
  by (simp add: app_frames_def example_stack_def is_stdlib_file_def STDLIB_FRAME_PREFIXES_def
      startswith_def)

theorem on_event_enriches_witness:
  "\<exists>ev'. on_event example_ring 200 1000 example_event = Inr ev'
    \<and> python_stacks ev' = enrichment [example_stack ''f'']"
  using on_event_enriches [OF example_ring_sorted refl, of 200 1000 example_event]
  by (auto simp: example_window example_ring_entries window_samples_def example_frames)

text \<open>Every stack attached to an event was sampled inside the search window and has frames, no
  two attached stacks have the same call site, and if one of them shows application frames beyond
  module level then all of them do.\<close>

theorem on_event_stacks_sound:
  assumes "ring_sorted rb" and "python_stacks ev = []" and "on_event rb pad now ev = Inr ev'"
  shows "distinct (map call_site (python_stacks ev'))
    \<and> (\<forall>st \<in> set (python_stacks ev'). frames st \<noteq> []
        \<and> (\<exists>t. (t, st) \<in> set (ring_entries rb) \<and> t \<le> now
             \<and> now - (end_ns ev - start_ns ev) - max (end_ns ev - start_ns ev) pad \<le> t)
        \<and> (is_informative st \<longrightarrow> list_all is_informative (python_stacks ev')))"
proof -
  have ev': "correlate (find_all_in_range rb) pad now ev = Inr ev'"
    using assms(3) by (simp add: on_event_def)
  have stacks: "python_stacks ev' = enrichment (window_samples (ring_entries rb) (search_window pad now ev))"
    using ring_traces.correlate_ok [OF assms(1), of pad now ev] ev' assms(2) by (auto split: if_splits)
  show ?thesis
    using ring_traces.correlate_sound [OF assms(1,2) ev'] enrichment_distinct enrichment_all_informative
    by (fastforce simp: stacks search_window_def list_all_iff)
qed

theorem on_event_stacks_sound_witness:
  "\<exists>ev'. on_event example_ring 200 1000 example_event = Inr ev' \<and> distinct (map call_site (python_stacks ev'))"
proof -
  obtain ev' where ev': "on_event example_ring 200 1000 example_event = Inr ev'"
    using ring_traces.correlate_ok [OF example_ring_sorted, of 200 1000 example_event]
    by (auto simp: on_event_def)
  show ?thesis
    using on_event_stacks_sound [OF example_ring_sorted _ ev'] ev' by (simp add: example_event_def)
qed

text \<open>C7: No blocking call site is lost: every sample in the search window whose deepest
  application frame is a function (not module level) is represented by an attached stack with the
  same call site.\<close>

theorem on_event_stacks_complete:
  assumes "ring_sorted rb" and "on_event rb pad now ev = Inr ev'"
    and "(t, st) \<in> set (ring_entries rb)" and "t \<le> now"
    and "now - (end_ns ev - start_ns ev) - max (end_ns ev - start_ns ev) pad \<le> t"
    and "app_frames st \<noteq> []" and "fr_function (last (app_frames st)) \<noteq> ''<module>''"
  shows "\<exists>st' \<in> set (python_stacks ev').
    app_frames st' \<noteq> [] \<and> fr_function (last (app_frames st')) = fr_function (last (app_frames st))
    \<and> fr_file (last (app_frames st')) = fr_file (last (app_frames st))"
proof -
  have site: "call_site st = (fr_function (last (app_frames st)), fr_file (last (app_frames st)))"
    using assms(6) by (simp add: call_site_def)
  have ev': "correlate (find_all_in_range rb) pad now ev = Inr ev'"
    using assms(2) by (simp add: on_event_def)
  obtain st' where st': "st' \<in> set (python_stacks ev')" "call_site st' = call_site st"
    using ring_traces.correlate_complete [OF assms(1) ev' assms(3)] assms(4-7)
    by (auto simp: search_window_def site)
  have "st \<in> set (window_samples (ring_entries rb) (search_window pad now ev))" "frames st \<noteq> []"
    using assms(3-6) by (auto simp: window_samples_mem search_window_def app_frames_def)
  then have ne: "enrichment (window_samples (ring_entries rb) (search_window pad now ev)) \<noteq> []"
    unfolding enrichment_empty_iff by blast
  have "frames st' \<noteq> []"
    using st'(1) enrichment_nonempty_frames ne ring_traces.correlate_ok [OF assms(1), of pad now ev] ev'
    by auto
  moreover have "\<not> is_stdlib_file (snd (call_site st'))"
    unfolding st'(2) site using app_frames_not_stdlib [OF last_in_set [OF assms(6)]] by simp
  ultimately have "app_frames st' \<noteq> []"
    using last_frame_stdlib by blast
  with st' site show ?thesis
    by (auto simp: call_site_def)
qed

theorem on_event_stacks_complete_witness:
  "\<exists>ev'. on_event example_ring 200 1000 example_event = Inr ev' \<and> python_stacks ev' \<noteq> []"
proof -
  obtain ev' where ev': "on_event example_ring 200 1000 example_event = Inr ev'"
    using ring_traces.correlate_ok [OF example_ring_sorted, of 200 1000 example_event]
    by (auto simp: on_event_def)
  show ?thesis
    using on_event_stacks_complete [OF example_ring_sorted ev', of 850 "example_stack ''f''"] ev'
      example_app_frames
    by (auto simp: example_ring_entries example_event_def)
qed

end
