(* ===== verification/Reporter.thy ===== *)
theory Reporter
  imports Sinks Sha256 Correlator "HOL-Library.Product_Lexorder"
begin

text \<open>
  The session reporter of \<open>blocksnoop/reporter.py\<close>: it builds the records of a session, keeps the
  aggregates of the summary and hands the records to its sinks. What the code reads from outside
  is an argument: the clocks, the session id, and \<open>getline\<close>, which stands for
  \<open>linecache.getline\<close> over the files of the host (the empty string when there is no such line).
  An operation that raises returns the state it leaves behind and the exception.
\<close>

definition EVENT_SCHEMA :: string where "EVENT_SCHEMA = ''blocksnoop.events/v1''"
definition EVENT_SCHEMA_VERSION :: int where "EVENT_SCHEMA_VERSION = 1"

type_synonym getline = "string \<Rightarrow> int \<Rightarrow> string"

definition get_source_line :: "getline \<Rightarrow> string \<Rightarrow> int \<Rightarrow> string option" where
  "get_source_line getline file line =
     (let txt = strip (getline file line) in if txt \<noteq> [] then Some txt else None)"

section \<open>Signatures\<close>

definition fingerprint :: "string \<Rightarrow> string" where
  "fingerprint identity = take 12 (sha256_hexdigest identity)"

definition frame_part :: "stack_frame \<Rightarrow> string" where
  "frame_part frame = fr_file frame @ '':'' @ str_of_int (fr_line frame) @ '':'' @ fr_function frame"

definition frame_location :: "stack_frame \<Rightarrow> string" where
  "frame_location frame = fr_file frame @ '':'' @ str_of_int (fr_line frame) @ '' in '' @ fr_function frame"

text \<open>Application frames of the first stack when there are any, else all its frames. The empty
  list of stacks stands for \<open>None\<close> too: both are falsy.\<close>

definition selected_frames :: "stack_frame list \<Rightarrow> stack_frame list" where
  "selected_frames fs =
     (let application_frames = filter (\<lambda>f. \<not> is_stdlib_file (fr_file f)) fs
      in if application_frames \<noteq> [] then application_frames else fs)"

definition signature_for_stacks :: "stack_frame list list \<Rightarrow> (string \<times> string) result" where
  "signature_for_stacks stacks =
     (case stacks of
        [] \<Rightarrow> Inr (fingerprint ''no-python-stack'', ''(no Python stack captured)'')
      | fs # _ \<Rightarrow>
          let selected = selected_frames fs;
              identity = join ''|'' (map frame_part selected)
          in case selected of
               [] \<Rightarrow> Inl IndexError
             | first # _ \<Rightarrow> Inr (fingerprint identity, frame_location first))"

section \<open>The state\<close>

record aggregate =
  ag_fingerprint :: string
  ag_location :: string
  ag_count :: int
  ag_total_blocked_ms :: rat
  ag_max_blocked_ms :: rat

record reporter =
  rp_sinks :: "sink list"
  rp_start_time :: rat
  rp_event_count :: int
  rp_error_event_count :: int
  rp_total_blocked_ms :: rat
  rp_max_blocked_ms :: rat
  rp_lost_event_count :: int
  rp_signatures :: "(string, aggregate) dict"
  rp_session_id :: string
  rp_backend :: "string option"
  rp_threshold_ms :: "rat option"
  rp_target_pid :: "int option"
  rp_target_tid :: "int option"
  rp_error_threshold_ms :: rat
  rp_summary_only :: bool
  rp_started :: bool

definition Reporter ::
  "sink list \<Rightarrow> string option \<Rightarrow> rat option \<Rightarrow> int option \<Rightarrow> int option \<Rightarrow> rat \<Rightarrow> bool \<Rightarrow> rat \<Rightarrow> string
     \<Rightarrow> reporter" where
  "Reporter sinks backend threshold_ms target_pid target_tid error_threshold_ms summary_only now uuid =
     \<lparr>rp_sinks = sinks, rp_start_time = now, rp_event_count = 0, rp_error_event_count = 0,
      rp_total_blocked_ms = 0, rp_max_blocked_ms = 0, rp_lost_event_count = 0, rp_signatures = [],
      rp_session_id = uuid, rp_backend = backend, rp_threshold_ms = threshold_ms,
      rp_target_pid = target_pid, rp_target_tid = target_tid,
      rp_error_threshold_ms = error_threshold_ms, rp_summary_only = summary_only,
      rp_started = False\<rparr>"

text \<open>The clocks an operation reads: the monotonic clock, the ISO time stamp of the record and the
  time stamp the file sink formats.\<close>

record clock =
  monotonic :: rat
  iso_stamp :: string
  utc_stamp :: string

definition base_record :: "clock \<Rightarrow> string \<Rightarrow> reporter \<Rightarrow> json_obj" where
  "base_record clk record_type r =
     [(''schema'', JStr EVENT_SCHEMA),
      (''schema_version'', JInt EVENT_SCHEMA_VERSION),
      (''type'', JStr record_type),
      (''session_id'', JStr (rp_session_id r)),
      (''observed_at'', JStr (iso_stamp clk))]"

text \<open>\<open>for sink in self._sinks: sink.op(record)\<close>\<close>

fun each_sink :: "(sink \<Rightarrow> sink result) \<Rightarrow> sink list \<Rightarrow> sink list \<times> exn option" where
  "each_sink f [] = ([], None)"
| "each_sink f (s # ss) =
     (case f s of
        Inl e \<Rightarrow> (s # ss, Some e)
      | Inr s' \<Rightarrow> (let (ss', e) = each_sink f ss in (s' # ss', e)))"

definition dispatch :: "(sink \<Rightarrow> sink result) \<Rightarrow> reporter \<Rightarrow> reporter \<times> exn option" where
  "dispatch f r = (let (ss, e) = each_sink f (rp_sinks r) in (r\<lparr>rp_sinks := ss\<rparr>, e))"

section \<open>Session start\<close>

definition start_record :: "clock \<Rightarrow> reporter \<Rightarrow> json_obj" where
  "start_record clk r =
     dict_update (base_record clk ''session_start'' r)
       [(''backend'', json_opt JStr (rp_backend r)),
        (''threshold_ms'', json_opt JFloat (rp_threshold_ms r)),
        (''target_pid'', json_opt JInt (rp_target_pid r)),
        (''target_tid'', json_opt JInt (rp_target_tid r))]"

definition rp_start :: "clock \<Rightarrow> reporter \<Rightarrow> reporter \<times> exn option" where
  "rp_start clk r =
     (if rp_started r then (r, None)
      else let r = r\<lparr>rp_started := True\<rparr>
           in dispatch (emit_session_start (utc_stamp clk) (start_record clk r)) r)"

section \<open>Reporting an event\<close>

definition frame_record :: "getline \<Rightarrow> stack_frame \<Rightarrow> json" where
  "frame_record getline frame =
     JObj [(''function'', JStr (fr_function frame)),
           (''file'', JStr (fr_file frame)),
           (''line'', JInt (fr_line frame)),
           (''source'', json_opt JStr (get_source_line getline (fr_file frame) (fr_line frame)))]"

definition stacks_record :: "getline \<Rightarrow> blocking_event \<Rightarrow> json" where
  "stacks_record getline event =
     (if python_stacks event \<noteq> []
      then JList (map (\<lambda>stack. JList (map (frame_record getline) (frames stack))) (python_stacks event))
      else JNull)"

definition event_record :: "getline \<Rightarrow> clock \<Rightarrow> blocking_event \<Rightarrow> reporter \<Rightarrow> json_obj" where
  "event_record getline clk event r =
     dict_update (base_record clk ''blocking_event'' r)
       [(''event_number'', JInt (rp_event_count r)),
        (''timestamp_s'', JFloat (py_round 6 (fsub (monotonic clk) (rp_start_time r)))),
        (''duration_ms'', JFloat (py_round 3 (duration_ms event))),
        (''pid'', JInt (ev_pid event)),
        (''tid'', JInt (ev_tid event)),
        (''python_stacks'', stacks_record getline event)]"

definition bump :: "rat \<Rightarrow> aggregate \<Rightarrow> aggregate" where
  "bump dur ag = ag\<lparr>ag_count := ag_count ag + 1,
     ag_total_blocked_ms := fadd (ag_total_blocked_ms ag) dur,
     ag_max_blocked_ms := max (ag_max_blocked_ms ag) dur\<rparr>"

definition new_aggregate :: "string \<times> string \<Rightarrow> aggregate" where
  "new_aggregate sig = \<lparr>ag_fingerprint = fst sig, ag_location = snd sig, ag_count = 0,
     ag_total_blocked_ms = 0, ag_max_blocked_ms = 0\<rparr>"

definition aggregate_signature ::
  "string \<times> string \<Rightarrow> rat \<Rightarrow> (string, aggregate) dict \<Rightarrow> (string, aggregate) dict" where
  "aggregate_signature sig dur d =
     (let d = dict_setdefault (fst sig) (new_aggregate sig) d
      in dict_set (fst sig) (bump dur (dict_get_default d (fst sig) (new_aggregate sig))) d)"

definition count_event :: "reporter \<Rightarrow> reporter" where
  "count_event r = r\<lparr>rp_event_count := rp_event_count r + 1\<rparr>"

definition add_duration :: "rat \<Rightarrow> reporter \<Rightarrow> reporter" where
  "add_duration dur r =
     r\<lparr>rp_total_blocked_ms := fadd (rp_total_blocked_ms r) dur,
       rp_max_blocked_ms := max (rp_max_blocked_ms r) dur,
       rp_error_event_count :=
         (if rp_error_threshold_ms r \<le> dur then rp_error_event_count r + 1 else rp_error_event_count r)\<rparr>"

definition event_signature :: "blocking_event \<Rightarrow> (string \<times> string) result" where
  "event_signature event = signature_for_stacks (map frames (python_stacks event))"

definition report :: "getline \<Rightarrow> clock \<Rightarrow> blocking_event \<Rightarrow> reporter \<Rightarrow> reporter \<times> exn option" where
  "report getline clk event r =
     (let r = count_event r;
          record = event_record getline clk event r;
          dur = py_round 3 (duration_ms event);
          r = add_duration dur r
      in case event_signature event of
           Inl e \<Rightarrow> (r, Some e)
         | Inr sig \<Rightarrow>
             let r = r\<lparr>rp_signatures := aggregate_signature sig dur (rp_signatures r)\<rparr>
             in if rp_summary_only r then (r, None) else dispatch (emit (utc_stamp clk) record) r)"

section \<open>The policy and the summary\<close>

definition policy_failed :: "string \<Rightarrow> bool \<Rightarrow> reporter \<Rightarrow> bool" where
  "policy_failed fail_on fail_on_loss r =
     (if fail_on = ''event'' \<and> rp_event_count r \<noteq> 0 then True
      else if fail_on = ''error'' \<and> rp_error_event_count r \<noteq> 0 then True
      else fail_on_loss \<and> rp_lost_event_count r \<noteq> 0)"

definition status_for_termination :: "string \<Rightarrow> string" where
  "status_for_termination termination_reason =
     dict_get_default [(''clean'', ''completed''), (''child_exit'', ''child_failed''),
                       (''signal'', ''interrupted''), (''runtime_error'', ''failed'')]
       termination_reason ''unknown''"

definition rank_key :: "aggregate \<Rightarrow> rat \<times> rat" where
  "rank_key ag = (ag_total_blocked_ms ag, ag_max_blocked_ms ag)"

text \<open>\<open>sorted(xs, key=key, reverse=True)\<close> is stable: equal elements keep their order.\<close>

definition sorted_reverse :: "('a \<Rightarrow> 'b::linorder) \<Rightarrow> 'a list \<Rightarrow> 'a list" where
  "sorted_reverse key xs = rev (sort_key key (rev xs))"

definition ranked_signatures :: "reporter \<Rightarrow> aggregate list" where
  "ranked_signatures r = take 5 (sorted_reverse rank_key (dict_values (rp_signatures r)))"

definition signature_record :: "aggregate \<Rightarrow> json" where
  "signature_record ag =
     JObj [(''fingerprint'', JStr (ag_fingerprint ag)),
           (''location'', JStr (ag_location ag)),
           (''count'', JInt (ag_count ag)),
           (''total_blocked_ms'', JFloat (py_round 3 (ag_total_blocked_ms ag))),
           (''max_blocked_ms'', JFloat (py_round 3 (ag_max_blocked_ms ag)))]"

definition top_signatures :: "reporter \<Rightarrow> json list" where
  "top_signatures r = map signature_record (ranked_signatures r)"

definition summary_record :: "clock \<Rightarrow> rat \<Rightarrow> (string, int) dict \<Rightarrow> string \<Rightarrow> reporter \<Rightarrow> json_obj" where
  "summary_record clk duration_s losses termination_reason r =
     dict_update (base_record clk ''session_summary'' r)
       [(''termination_reason'', JStr termination_reason),
        (''status'', JStr (status_for_termination termination_reason)),
        (''duration_s'', JFloat duration_s),
        (''event_count'', JInt (rp_event_count r)),
        (''error_event_count'', JInt (rp_error_event_count r)),
        (''total_blocked_ms'', JFloat (py_round 3 (rp_total_blocked_ms r))),
        (''max_blocked_ms'', JFloat (py_round 3 (rp_max_blocked_ms r))),
        (''lost_event_count'', JInt (rp_lost_event_count r)),
        (''lost_events_by_source'', JObj (map (map_prod id JInt) losses)),
        (''top_signatures'', JList (top_signatures r))]"

definition rp_summary ::
  "clock \<Rightarrow> rat \<Rightarrow> (string, int) dict \<Rightarrow> string \<Rightarrow> reporter \<Rightarrow> reporter \<times> exn option" where
  "rp_summary clk duration_s losses termination_reason r =
     (let r = r\<lparr>rp_lost_event_count := sum_list (dict_values losses)\<rparr>
      in dispatch (emit_summary (utc_stamp clk) (summary_record clk duration_s losses termination_reason r)) r)"

definition rp_close :: "reporter \<Rightarrow> reporter" where
  "rp_close r = r\<lparr>rp_sinks := map sink_close (rp_sinks r)\<rparr>"

section \<open>Every sink accepts the records\<close>

lemma start_record_eq:
  "start_record clk r =
     [(''schema'', JStr EVENT_SCHEMA), (''schema_version'', JInt EVENT_SCHEMA_VERSION),
      (''type'', JStr ''session_start''), (''session_id'', JStr (rp_session_id r)),
      (''observed_at'', JStr (iso_stamp clk)), (''backend'', json_opt JStr (rp_backend r)),
      (''threshold_ms'', json_opt JFloat (rp_threshold_ms r)),
      (''target_pid'', json_opt JInt (rp_target_pid r)), (''target_tid'', json_opt JInt (rp_target_tid r))]"
  by (simp add: start_record_def base_record_def dict_update_def dict_set_def)

lemma event_record_eq:
  "event_record getline clk event r =
     [(''schema'', JStr EVENT_SCHEMA), (''schema_version'', JInt EVENT_SCHEMA_VERSION),
      (''type'', JStr ''blocking_event''), (''session_id'', JStr (rp_session_id r)),
      (''observed_at'', JStr (iso_stamp clk)),
      (''event_number'', JInt (rp_event_count r)),
      (''timestamp_s'', JFloat (py_round 6 (fsub (monotonic clk) (rp_start_time r)))),
      (''duration_ms'', JFloat (py_round 3 (duration_ms event))),
      (''pid'', JInt (ev_pid event)), (''tid'', JInt (ev_tid event)),
      (''python_stacks'', stacks_record getline event)]"
  by (simp add: event_record_def base_record_def dict_update_def dict_set_def)

lemma summary_record_eq:
  "summary_record clk duration_s losses reason r =
     [(''schema'', JStr EVENT_SCHEMA), (''schema_version'', JInt EVENT_SCHEMA_VERSION),
      (''type'', JStr ''session_summary''), (''session_id'', JStr (rp_session_id r)),
      (''observed_at'', JStr (iso_stamp clk)),
      (''termination_reason'', JStr reason),
      (''status'', JStr (status_for_termination reason)),
      (''duration_s'', JFloat duration_s),
      (''event_count'', JInt (rp_event_count r)),
      (''error_event_count'', JInt (rp_error_event_count r)),
      (''total_blocked_ms'', JFloat (py_round 3 (rp_total_blocked_ms r))),
      (''max_blocked_ms'', JFloat (py_round 3 (rp_max_blocked_ms r))),
      (''lost_event_count'', JInt (rp_lost_event_count r)),
      (''lost_events_by_source'', JObj (map (map_prod id JInt) losses)),
      (''top_signatures'', JList (top_signatures r))]"
  by (simp add: summary_record_def base_record_def dict_update_def dict_set_def)

lemmas record_reading = has_text_def has_num_def item_def get_or_def dict_get_def dict_get_default_def

lemma frame_record_ok: "frame_ok (frame_record getline f)"
  by (auto simp: frame_record_def record_reading json_opt_def split: option.splits)

lemma stacks_record_ok: "stacks_ok (stacks_record getline event)"
  by (auto simp: stacks_record_def list_all_iff frame_record_ok)

lemma event_record_accepted: "event_record_ok (event_record getline clk event r)"
  by (simp add: event_record_ok_def event_record_eq record_reading stacks_record_ok)

lemma signature_record_ok: "signature_ok (signature_record ag)"
  by (simp add: signature_record_def record_reading)

lemma summary_record_accepted: "summary_record_ok (summary_record clk d losses reason r)"
  by (auto simp: summary_record_ok_def summary_record_eq record_reading list_all_iff top_signatures_def
      signature_record_ok)

lemma each_sink_ok: "(\<And>s. s \<in> set ss \<Longrightarrow> \<exists>s'. f s = Inr s') \<Longrightarrow> \<exists>ss'. each_sink f ss = (ss', None)"
proof (induction ss)
  case (Cons s ss)
  obtain s' where "f s = Inr s'"
    using Cons.prems by fastforce
  moreover obtain ss' where "each_sink f ss = (ss', None)"
    using Cons by auto
  ultimately show ?case by simp
qed simp

lemma each_sink_None:
  "each_sink f ss = (ss', None) \<Longrightarrow> list_all2 (\<lambda>s s'. f s = Inr s') ss ss'"
proof (induction ss arbitrary: ss')
  case (Cons s ss)
  then obtain s' where s': "f s = Inr s'"
    by (cases "f s") auto
  obtain us e where us: "each_sink f ss = (us, e)"
    by fastforce
  with Cons.prems s' have "ss' = s' # us" "e = None"
    by simp_all
  with Cons.IH us s' show ?case by simp
qed simp

lemma dispatch_ok:
  "(\<And>s. \<exists>s'. f s = Inr s') \<Longrightarrow>
   \<exists>ss'. dispatch f r = (r\<lparr>rp_sinks := ss'\<rparr>, None) \<and> list_all2 (\<lambda>s s'. f s = Inr s') (rp_sinks r) ss'"
  using each_sink_ok [of "rp_sinks r" f] each_sink_None [of f "rp_sinks r"]
  by (fastforce simp: dispatch_def)

lemma rp_start_ok:
  "\<not> rp_started r \<Longrightarrow> \<exists>ss'. rp_start clk r = (r\<lparr>rp_started := True, rp_sinks := ss'\<rparr>, None) \<and>
     list_all2 (\<lambda>s s'. emit_session_start (utc_stamp clk) (start_record clk r) s = Inr s') (rp_sinks r) ss'"
  using dispatch_ok [of "emit_session_start (utc_stamp clk) (start_record clk r)" "r\<lparr>rp_started := True\<rparr>"]
    emit_session_start_ok
  by (auto simp: rp_start_def Let_def start_record_eq)

lemma rp_summary_ok:
  fixes losses r
  defines "r1 \<equiv> r\<lparr>rp_lost_event_count := sum_list (dict_values losses)\<rparr>"
  shows "\<exists>ss'. rp_summary clk d losses reason r = (r1\<lparr>rp_sinks := ss'\<rparr>, None) \<and>
     list_all2 (\<lambda>s s'. emit_summary (utc_stamp clk) (summary_record clk d losses reason r1) s = Inr s')
       (rp_sinks r) ss'"
  using dispatch_ok [of "emit_summary (utc_stamp clk) (summary_record clk d losses reason r1)" r1]
    emit_summary_ok [OF summary_record_accepted]
  by (auto simp: rp_summary_def r1_def Let_def)

section \<open>What a report does\<close>

definition event_ms :: "blocking_event \<Rightarrow> rat" where
  "event_ms e = py_round 3 (duration_ms e)"

definition aggregated :: "blocking_event \<Rightarrow> string \<times> string \<Rightarrow> reporter \<Rightarrow> reporter" where
  "aggregated e sig r = (add_duration (event_ms e) (count_event r))
     \<lparr>rp_signatures := aggregate_signature sig (event_ms e) (rp_signatures r)\<rparr>"

lemma report_ok:
  assumes "event_signature e = Inr sig"
  shows "\<exists>ss'. report getline clk e r = ((aggregated e sig r)\<lparr>rp_sinks := ss'\<rparr>, None) \<and>
    (if rp_summary_only r then ss' = rp_sinks r
     else list_all2 (\<lambda>s s'. emit (utc_stamp clk) (event_record getline clk e (count_event r)) s = Inr s')
            (rp_sinks r) ss')"
proof (cases "rp_summary_only r")
  case True
  then show ?thesis
    using assms
    by (intro exI [of _ "rp_sinks r"])
       (simp add: report_def Let_def aggregated_def event_ms_def add_duration_def count_event_def)
next
  case False
  let ?f = "emit (utc_stamp clk) (event_record getline clk e (count_event r))"
  obtain ss' where "dispatch ?f (aggregated e sig r) = ((aggregated e sig r)\<lparr>rp_sinks := ss'\<rparr>, None)"
    "list_all2 (\<lambda>s s'. ?f s = Inr s') (rp_sinks (aggregated e sig r)) ss'"
    using dispatch_ok [of ?f "aggregated e sig r"] emit_ok [OF event_record_accepted] by blast
  with False assms show ?thesis
    by (intro exI [of _ ss'])
       (simp add: report_def Let_def aggregated_def event_ms_def add_duration_def count_event_def)
qed

lemma report_raises:
  "event_signature e = Inl x \<Longrightarrow> snd (report getline clk e r) = Some x"
  by (simp add: report_def Let_def)

lemma event_signature_ok_iff:
  "(\<exists>sig. event_signature e = Inr sig) \<longleftrightarrow> python_stacks e = [] \<or> frames (hd (python_stacks e)) \<noteq> []"
proof (cases "python_stacks e")
  case (Cons st sts)
  have "selected_frames (frames st) = [] \<longleftrightarrow> frames st = []"
    by (auto simp: selected_frames_def Let_def)
  then show ?thesis
    by (cases "selected_frames (frames st)") (auto simp: event_signature_def signature_for_stacks_def Let_def Cons)
qed (simp add: event_signature_def signature_for_stacks_def)

fun run_reports :: "getline \<Rightarrow> (clock \<times> blocking_event) list \<Rightarrow> reporter \<Rightarrow> reporter result" where
  "run_reports getline [] r = Inr r"
| "run_reports getline ((clk, e) # ces) r =
     (case report getline clk e r of (r', None) \<Rightarrow> run_reports getline ces r' | (_, Some x) \<Rightarrow> Inl x)"

section \<open>The aggregates\<close>

text \<open>The signatures and durations of the reported events, and what the aggregates should be.\<close>

type_synonym sample = "(string \<times> string) \<times> rat"

definition sample_of :: "blocking_event \<Rightarrow> sample" where
  "sample_of e = ((case event_signature e of Inr sig \<Rightarrow> sig | Inl _ \<Rightarrow> ([], [])), event_ms e)"

definition same_site :: "string \<Rightarrow> sample list \<Rightarrow> sample list" where
  "same_site fp = filter (\<lambda>p. fst (fst p) = fp)"

definition aggregate_of :: "sample list \<Rightarrow> aggregate" where
  "aggregate_of ps =
     \<lparr>ag_fingerprint = fst (fst (hd ps)), ag_location = snd (fst (hd ps)), ag_count = int (length ps),
      ag_total_blocked_ms = foldl fadd 0 (map snd ps), ag_max_blocked_ms = foldl max 0 (map snd ps)\<rparr>"

definition aggregate_all :: "sample list \<Rightarrow> (string, aggregate) dict" where
  "aggregate_all ps = foldl (\<lambda>d p. aggregate_signature (fst p) (snd p) d) [] ps"

lemma aggregate_all_snoc [simp]:
  "aggregate_all (ps @ [p]) = aggregate_signature (fst p) (snd p) (aggregate_all ps)"
  by (simp add: aggregate_all_def)

lemma aggregate_all_Nil [simp]: "aggregate_all [] = []"
  by (simp add: aggregate_all_def)

lemma dict_get_aggregate_signature:
  "dict_get (aggregate_signature sig dur d) fp =
     (if fp = fst sig
      then Some (bump dur (case dict_get d fp of None \<Rightarrow> new_aggregate sig | Some ag \<Rightarrow> ag))
      else dict_get d fp)"
  by (auto simp: aggregate_signature_def Let_def dict_get_setdefault dict_get_default_def
      dict_get_def [symmetric] split: option.splits)

lemma aggregate_of_single: "aggregate_of [p] = bump (snd p) (new_aggregate (fst p))"
  by (simp add: aggregate_of_def bump_def new_aggregate_def)

lemma aggregate_of_snoc: "ps \<noteq> [] \<Longrightarrow> aggregate_of (ps @ [p]) = bump (snd p) (aggregate_of ps)"
  by (simp add: aggregate_of_def bump_def)

lemma dict_get_aggregate_all:
  "dict_get (aggregate_all ps) fp =
     (if same_site fp ps = [] then None else Some (aggregate_of (same_site fp ps)))"
proof (induction ps rule: rev_induct)
  case Nil
  show ?case by (simp add: dict_get_def same_site_def)
next
  case (snoc p ps)
  have "same_site fp (ps @ [p]) = same_site fp ps @ (if fst (fst p) = fp then [p] else [])"
    by (simp add: same_site_def)
  with snoc show ?case
    by (auto simp: dict_get_aggregate_signature aggregate_of_single aggregate_of_snoc)
qed

lemma distinct_aggregate_all: "distinct (dict_keys (aggregate_all ps))"
  by (induction ps rule: rev_induct)
     (simp_all add: aggregate_signature_def Let_def distinct_dict_set distinct_dict_setdefault, simp add: dict_keys_def)

lemma sum_dict_set:
  fixes f :: "'v \<Rightarrow> int"
  assumes "distinct (dict_keys d)" and "dict_get d k = Some v"
  shows "sum_list (map f (dict_values (dict_set k w d))) = sum_list (map f (dict_values d)) + f w - f v"
  using assms
  by (induction d) (auto simp: dict_keys_def dict_get_def dict_set_def dict_values_def split: if_splits)

lemma sum_counts_aggregate_all:
  "sum_list (map ag_count (dict_values (aggregate_all ps))) = int (length ps)"
proof (induction ps rule: rev_induct)
  case Nil
  show ?case by (simp add: dict_values_def)
next
  case (snoc p ps)
  define d where "d = aggregate_all ps"
  define d' where "d' = dict_setdefault (fst (fst p)) (new_aggregate (fst p)) d"
  define ag where "ag = dict_get_default d' (fst (fst p)) (new_aggregate (fst p))"
  have g: "dict_get d' (fst (fst p)) = Some ag"
    by (auto simp: ag_def d'_def dict_get_setdefault dict_get_default_def simp flip: dict_get_def split: option.splits)
  have dist: "distinct (dict_keys d')"
    unfolding d'_def d_def by (intro distinct_dict_setdefault distinct_aggregate_all)
  have "sum_list (map ag_count (dict_values d')) = sum_list (map ag_count (dict_values d))"
    by (cases "map_of d (fst (fst p))")
       (simp_all add: d'_def dict_setdefault_def dict_set_absent dict_values_def new_aggregate_def
          dict_keys_def map_of_eq_None_iff)
  then show ?case
    using sum_dict_set [OF dist g, of ag_count "bump (snd p) ag"] snoc
    by (simp add: aggregate_signature_def Let_def bump_def flip: d_def d'_def ag_def)
qed

section \<open>A run of reports\<close>

definition signature_ok_event :: "blocking_event \<Rightarrow> bool" where
  "signature_ok_event e \<longleftrightarrow> python_stacks e = [] \<or> frames (hd (python_stacks e)) \<noteq> []"

lemma event_signature_sample:
  "signature_ok_event e \<Longrightarrow> event_signature e = Inr (fst (sample_of e))"
  using event_signature_ok_iff [of e] by (auto simp: sample_of_def signature_ok_event_def)

text \<open>The state of the reporter after the events, its sinks aside.\<close>

definition same_but_sinks :: "reporter \<Rightarrow> reporter \<Rightarrow> bool" where
  "same_but_sinks r r' \<longleftrightarrow> r\<lparr>rp_sinks := []\<rparr> = r'\<lparr>rp_sinks := []\<rparr>"

definition after_events :: "blocking_event list \<Rightarrow> reporter \<Rightarrow> reporter" where
  "after_events es r = foldl (\<lambda>r e. aggregated e (fst (sample_of e)) r) r es"

lemma aggregated_sinks:
  "(aggregated e sig r)\<lparr>rp_sinks := ss\<rparr> = aggregated e sig (r\<lparr>rp_sinks := ss\<rparr>)"
  by (simp add: aggregated_def add_duration_def count_event_def)

lemma after_events_sinks:
  "(after_events es r)\<lparr>rp_sinks := ss\<rparr> = after_events es (r\<lparr>rp_sinks := ss\<rparr>)"
  by (induction es arbitrary: r) (simp_all add: after_events_def aggregated_sinks)

lemma run_reports_ok:
  assumes "list_all (\<lambda>ce. signature_ok_event (snd ce)) ces"
  shows "\<exists>ss. run_reports getline ces r = Inr ((after_events (map snd ces) r)\<lparr>rp_sinks := ss\<rparr>)"
  using assms
proof (induction ces arbitrary: r)
  case Nil
  show ?case
    by (rule exI [of _ "rp_sinks r"]) (simp add: after_events_def)
next
  case (Cons ce ces)
  obtain clk e where ce: "ce = (clk, e)"
    by fastforce
  have sig: "event_signature e = Inr (fst (sample_of e))"
    using Cons.prems by (intro event_signature_sample) (simp add: ce)
  from report_ok [OF this] obtain ss' where
    "report getline clk e r = ((aggregated e (fst (sample_of e)) r)\<lparr>rp_sinks := ss'\<rparr>, None)"
    by blast
  moreover obtain ss where "run_reports getline ces ((aggregated e (fst (sample_of e)) r)\<lparr>rp_sinks := ss'\<rparr>) =
      Inr ((after_events (map snd ces) ((aggregated e (fst (sample_of e)) r)\<lparr>rp_sinks := ss'\<rparr>))\<lparr>rp_sinks := ss\<rparr>)"
    using Cons by force
  ultimately show ?case
    by (intro exI [of _ ss]) (simp add: ce after_events_sinks, simp add: after_events_def aggregated_sinks)
qed

lemma run_reports_raises:
  assumes "run_reports getline ces r = Inr r'"
  shows "list_all (\<lambda>ce. signature_ok_event (snd ce)) ces"
  using assms
proof (induction ces arbitrary: r)
  case (Cons ce ces)
  obtain clk e where ce: "ce = (clk, e)"
    by fastforce
  from Cons.prems obtain r1 where r1: "report getline clk e r = (r1, None)" "run_reports getline ces r1 = Inr r'"
    by (auto simp: ce split: prod.splits option.splits)
  have "\<exists>sig. event_signature e = Inr sig"
    using report_raises [of e _ getline clk r] r1(1) by (cases "event_signature e") auto
  with Cons.IH [OF r1(2)] show ?case
    by (simp add: ce signature_ok_event_def flip: event_signature_ok_iff)
qed simp

lemma after_events_counters:
  fixes es r
  defines "r' \<equiv> after_events es r" and "ds \<equiv> map event_ms es"
  shows "rp_event_count r' = rp_event_count r + int (length es)"
    and "rp_error_event_count r' =
      rp_error_event_count r + int (length (filter (\<lambda>d. rp_error_threshold_ms r \<le> d) ds))"
    and "rp_total_blocked_ms r' = foldl fadd (rp_total_blocked_ms r) ds"
    and "rp_max_blocked_ms r' = foldl max (rp_max_blocked_ms r) ds"
    and "rp_signatures r = aggregate_all ps \<Longrightarrow> rp_signatures r' = aggregate_all (ps @ map sample_of es)"
    and "rp_error_threshold_ms r' = rp_error_threshold_ms r"
    and "rp_lost_event_count r' = rp_lost_event_count r"
    and "rp_summary_only r' = rp_summary_only r"
    and "rp_session_id r' = rp_session_id r"
    and "rp_started r' = rp_started r"
  unfolding r'_def ds_def
proof (induction es rule: rev_induct)
  case (snoc e es)
  have a: "after_events (es @ [e]) r = aggregated e (fst (sample_of e)) (after_events es r)"
    by (simp add: after_events_def)
  note simps = a aggregated_def add_duration_def count_event_def
  {
    case 5
    have "snd (sample_of e) = event_ms e"
      by (simp add: sample_of_def)
    with snoc(5) [OF 5] show ?case
      using aggregate_all_snoc [of "ps @ map sample_of es" "sample_of e"] by (simp add: simps)
  }
qed (simp_all add: after_events_def aggregated_def add_duration_def count_event_def)

lemma run_reports_state:
  assumes "run_reports getline ces r = Inr r'"
  shows "\<exists>ss. r' = (after_events (map snd ces) r)\<lparr>rp_sinks := ss\<rparr>"
  using run_reports_ok [OF run_reports_raises [OF assms], of getline r] assms by auto

section \<open>Total and longest blocked time\<close>

lemma is_float_0 [simp]: "is_float 0"
  unfolding is_float_def by simp

lemma is_float_event_ms [simp]: "is_float (event_ms e)"
  by (simp add: event_ms_def)

lemma event_ms_nonneg: "start_ns e \<le> end_ns e \<Longrightarrow> 0 \<le> event_ms e"
  by (simp add: event_ms_def py_round_nonneg duration_ms_nonneg)

lemma foldl_max_0: "foldl max (a::rat) ds = Max (insert a (set ds))"
proof (induction ds arbitrary: a)
  case (Cons d ds)
  have "Max (insert (max a d) (set ds)) = Max (insert a (insert d (set ds)))"
    by (cases "ds = []") (simp_all add: max.assoc)
  with Cons [of "max a d"] show ?case
    by (simp del: Max_insert)
qed simp

lemma fadd_ge:
  assumes "is_float a" "is_float b" "0 \<le> a" "0 \<le> b"
  shows "a \<le> fadd a b" and "b \<le> fadd a b"
  using fl_mono [of a "a + b"] fl_mono [of b "a + b"] assms by (simp_all add: fadd_def is_float_def)

lemma foldl_fadd_ge_max:
  assumes "list_all (\<lambda>d. is_float d \<and> 0 \<le> d) ds" "is_float t" "0 \<le> t" "m \<le> t"
  shows "foldl max m ds \<le> foldl fadd t ds"
  using assms
proof (induction ds arbitrary: m t)
  case (Cons d ds)
  then have "t \<le> fadd t d" "d \<le> fadd t d"
    using fadd_ge [of t d] by simp_all
  with Cons show ?case
    by (simp, intro Cons.IH) (auto simp: fadd_def)
qed simp

section \<open>Ranking\<close>

lemma set_sorted_reverse [simp]: "set (sorted_reverse key xs) = set xs"
  by (simp add: sorted_reverse_def)

lemma length_sorted_reverse [simp]: "length (sorted_reverse key xs) = length xs"
  by (simp add: sorted_reverse_def)

lemma sorted_reverse_desc: "sorted_wrt (\<ge>) (map key (sorted_reverse key xs))"
proof -
  have "sorted (map key (sort_key key (rev xs)))"
    by (rule sorted_sort_key)
  then show ?thesis
    by (simp add: sorted_reverse_def sorted_wrt_rev flip: rev_map)
qed

lemma take_desc_ge:
  assumes "sorted_wrt (\<ge>) (map key xs)" "x \<in> set (take n xs)" "y \<in> set (drop n xs)"
  shows "key y \<le> key x"
proof -
  have "sorted_wrt (\<ge>) (map key (take n xs) @ map key (drop n xs))"
    using assms(1) by (simp flip: map_append)
  with assms(2,3) show ?thesis
    by (auto simp: sorted_wrt_append)
qed

section \<open>Properties\<close>

definition fresh_reporter :: "reporter \<Rightarrow> bool" where
  "fresh_reporter r \<longleftrightarrow> rp_event_count r = 0 \<and> rp_error_event_count r = 0 \<and> rp_total_blocked_ms r = 0
     \<and> rp_max_blocked_ms r = 0 \<and> rp_lost_event_count r = 0 \<and> rp_signatures r = []"

lemma fresh_Reporter [simp]: "fresh_reporter (Reporter sinks be th pid tid et so now uuid)"
  by (simp add: fresh_reporter_def Reporter_def)

text \<open>Reporting a sequence of events raises exactly when some event has a first stack without
  frames; whatever the sinks, an event with a usable signature (or without stacks) never makes
  the reporter or a sink raise.\<close>

theorem run_reports_total:
  "(\<exists>r'. run_reports getline ces r = Inr r') \<longleftrightarrow>
   list_all (\<lambda>(clk, e). python_stacks e = [] \<or> frames (hd (python_stacks e)) \<noteq> []) ces"
  using run_reports_ok [of ces getline r] run_reports_raises [of getline ces r]
  by (auto simp: signature_ok_event_def case_prod_beta')

text \<open>After a run of events a new reporter has counted them all, has counted as errors those
  whose rounded duration reaches the threshold, holds the accumulated and the longest duration,
  and the longest never exceeds the accumulated one.\<close>

theorem reporter_totals:
  assumes "fresh_reporter r" and "run_reports getline ces r = Inr r'"
    and "list_all (\<lambda>(clk, e). start_ns e \<le> end_ns e) ces"
  defines "ds \<equiv> map (\<lambda>(clk, e). py_round 3 (duration_ms e)) ces"
  shows "rp_event_count r' = int (length ces) \<and>
    rp_error_event_count r' = int (length (filter (\<lambda>d. rp_error_threshold_ms r \<le> d) ds)) \<and>
    rp_total_blocked_ms r' = foldl fadd 0 ds \<and>
    rp_max_blocked_ms r' = Max (insert 0 (set ds)) \<and>
    rp_max_blocked_ms r' \<le> rp_total_blocked_ms r'"
proof -
  have ds: "ds = map event_ms (map snd ces)"
    by (simp add: ds_def event_ms_def case_prod_beta')
  obtain ss where r': "r' = (after_events (map snd ces) r)\<lparr>rp_sinks := ss\<rparr>"
    using run_reports_state [OF assms(2)] by blast
  have "list_all (\<lambda>d. is_float d \<and> 0 \<le> d) ds"
    using assms(3) by (fastforce simp: ds list_all_iff intro!: event_ms_nonneg)
  then have "foldl max 0 ds \<le> foldl fadd 0 ds"
    by (intro foldl_fadd_ge_max) simp_all
  moreover note after_events_counters(1-4) [where es = "map snd ces" and r = r, folded ds]
  ultimately show ?thesis
    using assms(1) by (simp add: r' fresh_reporter_def foldl_max_0)
qed

text \<open>C35: The signature table of the summary accounts for every event exactly once: its counts add
  up to the event count, and the entry of a fingerprint aggregates precisely the events with that
  fingerprint: their number, their accumulated and their longest duration.\<close>

theorem signatures_partition_events:
  assumes "fresh_reporter r" and "run_reports getline ces r = Inr r'"
  defines "ps \<equiv> map (\<lambda>(clk, e). sample_of e) ces"
  shows "distinct (dict_keys (rp_signatures r')) \<and>
    sum_list (map ag_count (dict_values (rp_signatures r'))) = rp_event_count r' \<and>
    (\<forall>fp. dict_get (rp_signatures r') fp =
       (let qs = filter (\<lambda>p. fst (fst p) = fp) ps
        in if qs = [] then None
           else Some \<lparr>ag_fingerprint = fp, ag_location = snd (fst (hd qs)), ag_count = int (length qs),
                  ag_total_blocked_ms = foldl fadd 0 (map snd qs),
                  ag_max_blocked_ms = foldl max 0 (map snd qs)\<rparr>))"
proof -
  obtain ss where r': "r' = (after_events (map snd ces) r)\<lparr>rp_sinks := ss\<rparr>"
    using run_reports_state [OF assms(2)] by blast
  have ps: "ps = map sample_of (map snd ces)"
    by (simp add: ps_def case_prod_beta')
  have sigs: "rp_signatures r' = aggregate_all ps"
    using after_events_counters(5) [of r "[]" "map snd ces"] assms(1)
    by (simp add: r' ps fresh_reporter_def)
  moreover have "rp_event_count r' = int (length ps)"
    using assms(1) by (simp add: r' after_events_counters(1) fresh_reporter_def ps)
  moreover have "fst (fst (hd qs)) = fp" if "qs = filter (\<lambda>p. fst (fst p) = fp) ps" "qs \<noteq> []" for qs fp
    using that hd_in_set [of qs] by simp
  ultimately show ?thesis
    by (simp add: distinct_aggregate_all sum_counts_aggregate_all dict_get_aggregate_all same_site_def
        aggregate_of_def Let_def)
qed

text \<open>The summary lists at most five call sites, in descending order of accumulated time with
  ties broken by the longest event, and no call site it leaves out ranks above one it lists.\<close>

theorem top_signatures_ranked:
  "length (ranked_signatures r) = min 5 (length (rp_signatures r)) \<and>
   sorted_wrt (\<lambda>a b. rank_key b \<le> rank_key a) (ranked_signatures r) \<and>
   set (ranked_signatures r) \<subseteq> set (dict_values (rp_signatures r)) \<and>
   (\<forall>ag \<in> set (dict_values (rp_signatures r)) - set (ranked_signatures r).
      \<forall>top \<in> set (ranked_signatures r). rank_key ag \<le> rank_key top)"
proof -
  define xs where "xs = sorted_reverse rank_key (dict_values (rp_signatures r))"
  have desc: "sorted_wrt (\<ge>) (map rank_key xs)"
    by (simp add: xs_def sorted_reverse_desc)
  then have "sorted_wrt (\<lambda>a b. rank_key b \<le> rank_key a) xs"
    by (simp add: sorted_wrt_map)
  moreover have "set xs = set (take 5 xs) \<union> set (drop 5 xs)"
    by (metis append_take_drop_id set_append)
  moreover have "ranked_signatures r = take 5 xs" "set xs = set (dict_values (rp_signatures r))"
    "length xs = length (rp_signatures r)"
    by (simp_all add: ranked_signatures_def xs_def dict_values_def)
  ultimately show ?thesis
    using take_desc_ge [OF desc, of _ 5] by (auto simp: sorted_wrt_take min.commute)
qed

text \<open>The signature of a stack only depends on its application frames, as long as there is
  one: event loop and threading frames, added or removed, change neither the fingerprint nor the
  location.\<close>

theorem signature_ignores_stdlib_frames:
  assumes "filter (\<lambda>f. \<not> is_stdlib_file (fr_file f)) fs = filter (\<lambda>f. \<not> is_stdlib_file (fr_file f)) fs'"
    and "list_ex (\<lambda>f. \<not> is_stdlib_file (fr_file f)) fs"
  shows "signature_for_stacks (fs # sts) = signature_for_stacks (fs' # sts')"
proof -
  have "filter (\<lambda>f. \<not> is_stdlib_file (fr_file f)) fs \<noteq> []"
    using assms(2) by (simp add: filter_empty_conv list_ex_iff)
  then have "selected_frames fs = selected_frames fs'"
    using assms(1) by (simp add: selected_frames_def Let_def)
  then show ?thesis
    by (simp add: signature_for_stacks_def)
qed

text \<open>Without a first event, error or loss to object to, the exit policy passes: it fails exactly
  when it is \<open>event\<close> and an event was reported, \<open>error\<close> and an event reached the error threshold,
  or losses count and the summary found some.\<close>

theorem policy_failed_iff:
  assumes "fresh_reporter r" and "run_reports getline ces r = Inr r'"
    and "rp_summary clk d losses reason r' = (r'', None)"
  shows "policy_failed fail_on fail_on_loss r'' \<longleftrightarrow>
    (fail_on = ''event'' \<and> ces \<noteq> []) \<or>
    (fail_on = ''error'' \<and> list_ex (\<lambda>(clk, e). rp_error_threshold_ms r \<le> py_round 3 (duration_ms e)) ces) \<or>
    (fail_on_loss \<and> sum_list (dict_values losses) \<noteq> 0)"
proof -
  obtain ss where r': "r' = (after_events (map snd ces) r)\<lparr>rp_sinks := ss\<rparr>"
    using run_reports_state [OF assms(2)] by blast
  obtain ss' where "r'' = r'\<lparr>rp_lost_event_count := sum_list (dict_values losses), rp_sinks := ss'\<rparr>"
    using rp_summary_ok [of clk d losses reason r'] assms(3) by auto
  with assms(1) show ?thesis
    by (auto simp: policy_failed_def r' after_events_counters(1,2) fresh_reporter_def filter_empty_conv
        list_ex_iff event_ms_def case_prod_beta')
qed

section \<open>The session on a JSON stream\<close>

definition doc_type :: "string \<Rightarrow> json \<Rightarrow> bool" where
  "doc_type t doc \<longleftrightarrow> get_json doc ''type'' = Some (JStr t)"

definition event_doc_ok :: "rat \<Rightarrow> int \<Rightarrow> blocking_event \<Rightarrow> json \<Rightarrow> bool" where
  "event_doc_ok threshold num e doc \<longleftrightarrow>
     doc_type ''blocking_event'' doc \<and>
     get_json doc ''event_number'' = Some (JInt num) \<and>
     get_json doc ''duration_ms'' = Some (JFloat (py_round 3 (duration_ms e))) \<and>
     get_json doc ''pid'' = Some (JInt (ev_pid e)) \<and> get_json doc ''tid'' = Some (JInt (ev_tid e)) \<and>
     get_json doc ''level'' =
       Some (JStr (if threshold \<le> py_round 3 (duration_ms e) then ''error'' else ''warning''))"

lemma distinct_record_keys:
  "distinct (dict_keys (start_record clk r))"
  "distinct (dict_keys (event_record getline clk e r))"
  "distinct (dict_keys (summary_record clk d losses reason r))"
  by (simp_all add: start_record_eq event_record_eq summary_record_eq dict_keys_def)

lemma json_stream_emit_written:
  assumes "dict_get rec ''duration_ms'' = Some (JFloat dur)"
  shows "json_stream_emit rec s =
    Inr (json_stream_write
      (dict_set ''level'' (JStr (level_str (level_for_duration dur (js_error_threshold_ms s)))) rec) s)"
proof -
  have it: "item rec ''duration_ms'' = Inr (JFloat dur)"
    using assms by simp
  show ?thesis
    using assms by (simp add: json_stream_emit_def level_of_record_def it)
qed

lemma json_stream_write_threshold [simp]:
  "js_error_threshold_ms (json_stream_write rec s) = js_error_threshold_ms s"
  by (simp add: json_stream_write_def)

lemma emit_event_document:
  assumes "emit u (event_record getline clk e r) (JsonStream s) = Inr s'"
  shows "\<exists>doc t. s' = JsonStream t \<and> js_error_threshold_ms t = js_error_threshold_ms s \<and>
    js_stream t = js_stream s @ [JsonLine doc] \<and>
    event_doc_ok (js_error_threshold_ms s) (rp_event_count r) e doc"
proof -
  let ?rec = "event_record getline clk e r"
  let ?lvl = "JStr (level_str (level_for_duration (py_round 3 (duration_ms e)) (js_error_threshold_ms s)))"
  let ?doc = "sorted_keys (JObj (dict_set ''level'' ?lvl ?rec))"
  have "dict_get ?rec ''duration_ms'' = Some (JFloat (py_round 3 (duration_ms e)))"
    by (simp add: event_record_eq dict_get_def)
  from json_stream_emit_written [OF this, of s] assms
  have s': "s' = JsonStream (json_stream_write (dict_set ''level'' ?lvl ?rec) s)"
    by simp
  have g: "get_json ?doc k = map_option sorted_keys (dict_get (dict_set ''level'' ?lvl ?rec) k)" for k
    by (intro get_json_sorted_keys distinct_dict_set distinct_record_keys)
  have "event_doc_ok (js_error_threshold_ms s) (rp_event_count r) e ?doc"
    unfolding event_doc_ok_def doc_type_def g
    by (simp add: event_record_eq level_for_duration_def dict_get_def dict_set_def)
  then show ?thesis
    by (intro exI [of _ ?doc] exI [of _ "json_stream_write (dict_set ''level'' ?lvl ?rec) s"])
       (simp add: s')
qed

lemma run_reports_documents:
  assumes "run_reports getline ces r = Inr r'" and "\<not> rp_summary_only r"
    and "i < length (rp_sinks r)" and "rp_sinks r ! i = JsonStream s"
  shows "i < length (rp_sinks r') \<and>
    (\<exists>t docs. rp_sinks r' ! i = JsonStream t \<and> js_stream t = js_stream s @ map JsonLine docs \<and>
       length docs = length ces \<and> (\<forall>k < length ces.
         event_doc_ok (js_error_threshold_ms s) (rp_event_count r + 1 + int k) (snd (ces ! k)) (docs ! k)))"
  using assms
proof (induction ces arbitrary: r s)
  case Nil
  then show ?case by simp
next
  case (Cons ce ces)
  obtain clk e where ce: "ce = (clk, e)"
    by fastforce
  from Cons.prems(1) obtain sig where sig: "event_signature e = Inr sig"
    using run_reports_raises [OF Cons.prems(1)] event_signature_sample by (auto simp: ce)
  obtain ss' where ss': "report getline clk e r = ((aggregated e sig r)\<lparr>rp_sinks := ss'\<rparr>, None)"
    and all2: "list_all2 (\<lambda>s s'. emit (utc_stamp clk) (event_record getline clk e (count_event r)) s = Inr s')
            (rp_sinks r) ss'"
    using report_ok [OF sig, of getline clk r] Cons.prems(2) by auto
  define r1 where "r1 = (aggregated e sig r)\<lparr>rp_sinks := ss'\<rparr>"
  have r1: "rp_sinks r1 = ss'" "\<not> rp_summary_only r1" "rp_event_count r1 = rp_event_count r + 1"
    using Cons.prems(2) by (simp_all add: r1_def aggregated_def add_duration_def count_event_def)
  have len: "i < length ss'"
    using all2 Cons.prems(3) by (simp add: list_all2_lengthD)
  have "emit (utc_stamp clk) (event_record getline clk e (count_event r)) (JsonStream s) = Inr (ss' ! i)"
    using list_all2_nthD [OF all2 Cons.prems(3)] Cons.prems(4) by simp
  from emit_event_document [OF this] obtain doc t where t: "ss' ! i = JsonStream t"
    "js_error_threshold_ms t = js_error_threshold_ms s" "js_stream t = js_stream s @ [JsonLine doc]"
    "event_doc_ok (js_error_threshold_ms s) (rp_event_count r + 1) e doc"
    by (auto simp: count_event_def)
  have "run_reports getline ces r1 = Inr r'"
    using Cons.prems(1) by (simp add: ce ss' r1_def)
  from Cons.IH [OF this r1(2), of t] obtain t' docs where t': "i < length (rp_sinks r')"
    "rp_sinks r' ! i = JsonStream t'" "js_stream t' = js_stream t @ map JsonLine docs"
    "length docs = length ces" "\<forall>k < length ces.
       event_doc_ok (js_error_threshold_ms t) (rp_event_count r1 + 1 + int k) (snd (ces ! k)) (docs ! k)"
    using len t(1) r1(1) by auto
  have "\<forall>k < length (ce # ces).
      event_doc_ok (js_error_threshold_ms s) (rp_event_count r + 1 + int k) (snd ((ce # ces) ! k)) ((doc # docs) ! k)"
  proof (intro allI impI)
    fix k assume "k < length (ce # ces)"
    then show "event_doc_ok (js_error_threshold_ms s) (rp_event_count r + 1 + int k)
        (snd ((ce # ces) ! k)) ((doc # docs) ! k)"
      using t'(5) t(2,4) r1(3) by (cases k) (auto simp: ce add.assoc)
  qed
  with t'(1-4) t(3) show ?case
    by (intro conjI exI [of _ t'] exI [of _ "doc # docs"]) auto
qed

text \<open>On a JSON stream sink a session with its events is the start record, one document per event
  with consecutive event numbers from 1 and the level of its rounded duration, and the summary
  with the number of events and the status of the termination reason; starting, reporting and
  summarising raise nothing.\<close>

theorem json_session_lifecycle:
  assumes "rp_sinks r ! i = JsonStream s" and "i < length (rp_sinks r)"
    and "\<not> rp_started r" and "\<not> rp_summary_only r" and "rp_event_count r = 0"
    and "rp_start clk0 r = (r1, x0)" and "run_reports getline ces r1 = Inr r2"
    and "rp_summary clk1 d losses reason r2 = (r3, x1)"
  shows "x0 = None \<and> x1 = None \<and>
    (\<exists>first docs final s'. rp_sinks r3 ! i = JsonStream s' \<and>
       js_stream s' = js_stream s @ map JsonLine (first # docs @ [final]) \<and>
       doc_type ''session_start'' first \<and>
       length docs = length ces \<and>
       (\<forall>k < length ces. event_doc_ok (js_error_threshold_ms s) (int k + 1) (snd (ces ! k)) (docs ! k)) \<and>
       doc_type ''session_summary'' final \<and>
       get_json final ''event_count'' = Some (JInt (int (length ces))) \<and>
       get_json final ''status'' = Some (JStr (status_for_termination reason)))"
proof -
  obtain ss0 where x0: "x0 = None" and r1: "r1 = r\<lparr>rp_started := True, rp_sinks := ss0\<rparr>"
    and a0: "list_all2 (\<lambda>s s'. emit_session_start (utc_stamp clk0) (start_record clk0 r) s = Inr s') (rp_sinks r) ss0"
    using rp_start_ok [OF assms(3), of clk0] assms(6) by auto
  define first where "first = sorted_keys (JObj (start_record clk0 r))"
  define s0 where "s0 = json_stream_write (start_record clk0 r) s"
  have s0: "ss0 ! i = JsonStream s0" "i < length ss0"
    using list_all2_nthD [OF a0 assms(2)] assms(1,2) list_all2_lengthD [OF a0] by (auto simp: s0_def)
  have first: "doc_type ''session_start'' first"
    unfolding doc_type_def first_def get_json_sorted_keys [OF distinct_record_keys(1)]
    by (simp add: start_record_eq dict_get_def)
  obtain s1 docs where i2: "i < length (rp_sinks r2)" and s1: "rp_sinks r2 ! i = JsonStream s1"
    "js_stream s1 = js_stream s0 @ map JsonLine docs"
    and docs: "length docs = length ces"
      "\<forall>k < length ces. event_doc_ok (js_error_threshold_ms s) (int k + 1) (snd (ces ! k)) (docs ! k)"
    using run_reports_documents [OF assms(7), of i s0] assms(4,5) s0 by (auto simp: r1 s0_def add.commute)
  define r2' where "r2' = r2\<lparr>rp_lost_event_count := sum_list (dict_values losses)\<rparr>"
  obtain ss1 where x1: "x1 = None" and r3: "rp_sinks r3 = ss1"
    and a1: "list_all2 (\<lambda>s s'. emit_summary (utc_stamp clk1) (summary_record clk1 d losses reason r2') s = Inr s')
       (rp_sinks r2) ss1"
    using rp_summary_ok [of clk1 d losses reason r2] assms(8) by (auto simp: r2'_def)
  define final where "final = sorted_keys (JObj (summary_record clk1 d losses reason r2'))"
  define s2 where "s2 = json_stream_write (summary_record clk1 d losses reason r2') s1"
  have s2: "ss1 ! i = JsonStream s2"
    using list_all2_nthD [OF a1 i2] s1(1) by (simp add: s2_def)
  have "rp_event_count r2' = int (length ces)"
    using run_reports_state [OF assms(7)] assms(5) by (auto simp: r2'_def r1 after_events_counters(1))
  then have final: "doc_type ''session_summary'' final"
    "get_json final ''event_count'' = Some (JInt (int (length ces)))"
    "get_json final ''status'' = Some (JStr (status_for_termination reason))"
    unfolding doc_type_def final_def get_json_sorted_keys [OF distinct_record_keys(3)]
    by (simp_all add: summary_record_eq dict_get_def)
  have "js_stream s2 = js_stream s @ map JsonLine (first # docs @ [final])"
    by (simp add: s2_def s1(2) s0_def first_def final_def del: sorted_keys.simps)
  with s2 first final docs x0 x1 show ?thesis
    unfolding r3 by (intro conjI exI [of _ first] exI [of _ docs] exI [of _ final] exI [of _ s2]) simp_all
qed

section \<open>Concrete sessions\<close>

definition example_reporter :: reporter where
  "example_reporter =
     Reporter [JsonStream (JsonStreamSink 500)] (Some ''core'') (Some 100) (Some 7) (Some 7) 500 False 0 ''id''"

definition example_clock :: clock where
  "example_clock = \<lparr>monotonic = 1, iso_stamp = ''t'', utc_stamp = ''t''\<rparr>"

definition blocked :: "int \<Rightarrow> blocking_event" where
  "blocked ms = \<lparr>start_ns = 0, end_ns = 1000000 * ms, ev_pid = 7, ev_tid = 7, python_stacks = []\<rparr>"

definition example_run :: "(clock \<times> blocking_event) list" where
  "example_run = [(example_clock, blocked 100), (example_clock, blocked 600)]"

lemma example_reporter_fresh [simp]: "fresh_reporter example_reporter"
  by (simp add: example_reporter_def)

lemma example_run_ok: "list_all (\<lambda>ce. signature_ok_event (snd ce)) example_run"
  by (simp add: example_run_def signature_ok_event_def blocked_def)

lemma blocked_ms: "0 \<le> n \<Longrightarrow> n * 1000 \<le> 2 ^ 53 \<Longrightarrow> py_round 3 (duration_ms (blocked n)) = of_int n"
  by (simp add: duration_ms_whole [of _ n] blocked_def py_round_def fl_of_int rne_of_int [of "n * 1000", simplified])

lemma example_run_values:
  "length example_run = 2" "list_all (\<lambda>(clk, e). start_ns e \<le> end_ns e) example_run"
  "map (\<lambda>(clk, e). py_round 3 (duration_ms e)) example_run = [100, 600]"
  using blocked_ms [of 100] blocked_ms [of 600]
  by (simp_all add: example_run_def) (simp add: blocked_def)

lemma reporter_totals_witness:
  "\<exists>r'. run_reports (\<lambda>_ _. []) example_run example_reporter = Inr r' \<and>
     rp_event_count r' = 2 \<and> rp_error_event_count r' = 1 \<and> rp_total_blocked_ms r' = 700 \<and> rp_max_blocked_ms r' = 600"
proof -
  obtain r' where r': "run_reports (\<lambda>_ _. []) example_run example_reporter = Inr r'"
    using run_reports_ok [OF example_run_ok] by blast
  have "rp_error_threshold_ms example_reporter = 500"
    by (simp add: example_reporter_def Reporter_def)
  with reporter_totals [OF example_reporter_fresh r' example_run_values(2)] r' show ?thesis
    by (simp add: example_run_values fadd_def)
qed

lemma signatures_partition_events_witness:
  "\<exists>r'. run_reports (\<lambda>_ _. []) example_run example_reporter = Inr r' \<and>
     sum_list (map ag_count (dict_values (rp_signatures r'))) = rp_event_count r'"
proof -
  obtain r' where r': "run_reports (\<lambda>_ _. []) example_run example_reporter = Inr r'"
    using run_reports_ok [OF example_run_ok] by blast
  with signatures_partition_events [OF example_reporter_fresh r'] show ?thesis
    by blast
qed

lemma run_reports_total_witness:
  "(\<exists>r'. run_reports (\<lambda>_ _. []) example_run example_reporter = Inr r') \<and>
   \<not> (\<exists>r'. run_reports (\<lambda>_ _. []) [(example_clock, (blocked 100)\<lparr>python_stacks :=
        [\<lparr>thread_id = 7, thread_name = [], frames = []\<rparr>]\<rparr>)] example_reporter = Inr r')"
  unfolding run_reports_total by (simp add: example_run_def blocked_def)

lemma top_signatures_ranked_witness: "length (ranked_signatures example_reporter) = 0"
  using top_signatures_ranked [of example_reporter] by (simp add: example_reporter_def Reporter_def)

definition loop_frame :: stack_frame where
  "loop_frame = \<lparr>fr_function = ''_run_once'', fr_file = ''asyncio/base_events.py'', fr_line = 1\<rparr>"

definition app_frame :: stack_frame where
  "app_frame = \<lparr>fr_function = ''handler'', fr_file = ''app.py'', fr_line = 3\<rparr>"

lemma example_frame_files: "is_stdlib_file (fr_file loop_frame)" "\<not> is_stdlib_file (fr_file app_frame)"
  by (simp_all add: loop_frame_def app_frame_def is_stdlib_file_def STDLIB_FRAME_PREFIXES_def startswith_def)

lemma signature_ignores_stdlib_frames_witness:
  "signature_for_stacks [[app_frame, loop_frame]] = signature_for_stacks [[app_frame], [loop_frame]]"
  by (rule signature_ignores_stdlib_frames) (simp_all add: example_frame_files)

lemma policy_failed_iff_witness:
  "\<exists>r'. policy_failed ''error'' False r' \<and> \<not> policy_failed ''none'' True r'"
proof -
  obtain r' where r': "run_reports (\<lambda>_ _. []) example_run example_reporter = Inr r'"
    using run_reports_ok [OF example_run_ok] by blast
  obtain r'' where "rp_summary example_clock 1 [] ''clean'' r' = (r'', None)"
    using rp_summary_ok [of example_clock 1 "[]" "''clean''" r'] by auto
  note p = policy_failed_iff [OF example_reporter_fresh r' this]
  have "rp_error_threshold_ms example_reporter = 500"
    by (simp add: example_reporter_def Reporter_def)
  then have "policy_failed ''error'' False r''" "\<not> policy_failed ''none'' True r''"
    using blocked_ms [of 600] by (simp_all add: p example_run_def dict_values_def)
  then show ?thesis by blast
qed

lemma json_session_lifecycle_witness:
  "\<exists>(r :: reporter) s'. rp_sinks r ! 0 = JsonStream s' \<and> length (js_stream s') = 4"
proof -
  obtain r1 where r1: "rp_start example_clock example_reporter = (r1, None)"
    using rp_start_ok [of example_reporter example_clock] by (auto simp: example_reporter_def Reporter_def)
  obtain r2 where r2: "run_reports (\<lambda>_ _. []) example_run r1 = Inr r2"
    using run_reports_ok [OF example_run_ok] by blast
  obtain r3 where r3: "rp_summary example_clock 1 [] ''clean'' r2 = (r3, None)"
    using rp_summary_ok [of example_clock 1 "[]" "''clean''" r2] by auto
  have "rp_sinks example_reporter ! 0 = JsonStream (JsonStreamSink 500)" "0 < length (rp_sinks example_reporter)"
    "\<not> rp_started example_reporter" "\<not> rp_summary_only example_reporter" "rp_event_count example_reporter = 0"
    by (simp_all add: example_reporter_def Reporter_def)
  from json_session_lifecycle [OF this r1 r2 r3] obtain first docs final s' where
    "rp_sinks r3 ! 0 = JsonStream s'" "js_stream s' = map JsonLine (first # docs @ [final])" "length docs = 2"
    by (auto simp: JsonStreamSink_def example_run_values(1))
  then show ?thesis
    by (intro exI [of _ r3] exI [of _ s']) simp
qed

end
