(* ===== verification/Stats.thy ===== *)
theory Stats
  imports Core PyFormat Bisect
begin

text \<open>
  \<open>StatsCollector\<close> of \<open>blocksnoop/stats.py\<close>: the durations of the epoll gaps in a sorted array,
  and the periodic display. The fields are guarded by a lock; every operation below is one
  critical section. The clock reading is an argument, the stream is the list of what was written.
\<close>

section \<open>State\<close>

record stats_collector =
  st_pid :: int
  st_json_mode :: bool
  st_stream :: "out list"
  st_durations :: "rat list"
  st_start_time :: rat
  st_timer :: bool
  st_lines_printed :: nat
  st_warned :: bool

definition WARN_THRESHOLD :: nat where
  "WARN_THRESHOLD = 10000000"

definition StatsCollector :: "int \<Rightarrow> bool \<Rightarrow> stats_collector" where
  "StatsCollector pid json_mode =
     \<lparr>st_pid = pid, st_json_mode = json_mode, st_stream = [], st_durations = [],
      st_start_time = 0, st_timer = False, st_lines_printed = 0, st_warned = False\<rparr>"

section \<open>Collecting\<close>

definition stats_on_event :: "blocking_event \<Rightarrow> stats_collector \<Rightarrow> stats_collector" where
  "stats_on_event event s =
     (let s = s\<lparr>st_durations := insort (st_durations s) (duration_ms event)\<rparr>
      in if \<not> st_warned s \<and> WARN_THRESHOLD \<le> length (st_durations s)
         then s\<lparr>st_warned := True\<rparr> else s)"

section \<open>Percentiles\<close>

definition percentile :: "rat list \<Rightarrow> rat \<Rightarrow> rat result" where
  "percentile sorted_arr p =
     (let n = int (length sorted_arr);
          idx = trunc (fmul p (float_of_int (n - 1)))
      in py_index sorted_arr idx)"

text \<open>The float literals 0.50, 0.90, 0.95 and 0.99.\<close>

definition P50 :: rat where "P50 = fl (50 / 100)"
definition P90 :: rat where "P90 = fl (90 / 100)"
definition P95 :: rat where "P95 = fl (95 / 100)"
definition P99 :: rat where "P99 = fl (99 / 100)"

text \<open>The seven displayed values, in display order: \<open>d[0], avg, p50, p90, p95, p99, d[-1]\<close>.\<close>

definition stat_values :: "rat list \<Rightarrow> rat list result" where
  "stat_values d =
     (let avg = fdiv (py_sum d) (float_of_int (int (length d)))
      in bind_result (py_index d 0) (\<lambda>mn.
         bind_result (percentile d P50) (\<lambda>p50.
         bind_result (percentile d P90) (\<lambda>p90.
         bind_result (percentile d P95) (\<lambda>p95.
         bind_result (percentile d P99) (\<lambda>p99.
         bind_result (py_index d (-1)) (\<lambda>mx.
           Inr [mn, avg, p50, p90, p95, p99, mx])))))))"

section \<open>Display\<close>

definition stats_rate :: "nat \<Rightarrow> rat \<Rightarrow> rat" where
  "stats_rate cnt elapsed =
     (if 0 < elapsed then fdiv (float_of_int (int cnt)) elapsed else 0)"

definition stat_labels :: "string list" where
  "stat_labels = [''min'', ''avg'', ''p50'', ''p90'', ''p95'', ''p99'', ''max'']"

definition print_json :: "nat \<Rightarrow> rat \<Rightarrow> stats_collector \<Rightarrow> stats_collector result" where
  "print_json cnt elapsed s =
     (let d = st_durations s;
          record0 = [(''pid'', JInt (st_pid s)),
                     (''elapsed_s'', JFloat (py_round 1 elapsed)),
                     (''count'', JInt (int cnt)),
                     (''rate'', JFloat (py_round 1 (stats_rate cnt elapsed)))];
          write = (\<lambda>record. s\<lparr>st_stream := st_stream s @ [JsonLine (JObj record)]\<rparr>)
      in if 0 < cnt
         then bind_result (stat_values d) (\<lambda>vs.
           Inr (write (dict_update record0
             (zip [''min_ms'', ''avg_ms'', ''p50_ms'', ''p90_ms'', ''p95_ms'', ''p99_ms'', ''max_ms'']
                (map (\<lambda>v. JFloat (py_round 3 v)) vs)))))
         else Inr (write record0))"

definition stats_header :: "int \<Rightarrow> rat \<Rightarrow> nat \<Rightarrow> string" where
  "stats_header pid elapsed cnt =
     ''blocksnoop stats '' @ em_dash @ '' PID '' @ str_of_int pid @ '' '' @ em_dash @ '' ''
     @ fixed 1 elapsed @ ''s '' @ em_dash @ '' '' @ str_of_int (int cnt) @ '' events (''
     @ fixed 0 (stats_rate cnt elapsed) @ ''/s)''"

definition value_line :: "string \<Rightarrow> string \<Rightarrow> string" where
  "value_line label val = ''  '' @ ljust 5 label @ ''  '' @ rjust 10 val @ ''ms''"

definition frame_values :: "nat \<Rightarrow> stats_collector \<Rightarrow> string list result" where
  "frame_values cnt s =
     (if 0 < cnt
      then bind_result (stat_values (st_durations s)) (\<lambda>vs. Inr (map (fixed 1) vs))
      else Inr (map (\<lambda>_. ''---'') stat_labels))"

definition warn_lines :: "nat \<Rightarrow> bool \<Rightarrow> string list" where
  "warn_lines cnt warned =
     (if warned
      then [[], ''  warning: 10,000,000 events collected (~''
                @ str_of_int (int (cnt * 8 div 1000000)) @ '' MB)'']
      else [])"

definition frame_lines :: "nat \<Rightarrow> rat \<Rightarrow> bool \<Rightarrow> stats_collector \<Rightarrow> string list result" where
  "frame_lines cnt elapsed warned s =
     bind_result (frame_values cnt s) (\<lambda>vals.
       Inr ([stats_header (st_pid s) elapsed cnt, []] @ map2 value_line stat_labels vals
            @ warn_lines cnt warned))"

text \<open>The previous frame is erased by moving up, clearing every line and moving up again.\<close>

definition erase_frame :: "nat \<Rightarrow> string" where
  "erase_frame n =
     (if 0 < n
      then esc @ str_of_int (int n) @ ''A''
           @ concat (replicate n (esc @ ''2K'' @ newline))
           @ esc @ str_of_int (int n) @ ''A''
      else [])"

definition print_console :: "nat \<Rightarrow> rat \<Rightarrow> bool \<Rightarrow> stats_collector \<Rightarrow> stats_collector result" where
  "print_console cnt elapsed warned s =
     bind_result (frame_lines cnt elapsed warned s) (\<lambda>lines.
       Inr (s\<lparr>st_stream := st_stream s @
                [Text (erase_frame (st_lines_printed s) @ join newline lines @ newline)],
              st_lines_printed := length lines\<rparr>))"

definition print_stats :: "rat \<Rightarrow> stats_collector \<Rightarrow> stats_collector result" where
  "print_stats now s =
     (let cnt = length (st_durations s);
          warned = st_warned s;
          elapsed = fsub now (st_start_time s)
      in if st_json_mode s then print_json cnt elapsed s
         else print_console cnt elapsed warned s)"

section \<open>Timer\<close>

definition stats_schedule :: "stats_collector \<Rightarrow> stats_collector" where
  "stats_schedule s = s\<lparr>st_timer := True\<rparr>"

definition stats_start :: "rat \<Rightarrow> stats_collector \<Rightarrow> stats_collector" where
  "stats_start now s = stats_schedule (s\<lparr>st_start_time := now\<rparr>)"

definition stats_tick :: "rat \<Rightarrow> stats_collector \<Rightarrow> stats_collector result" where
  "stats_tick now s = bind_result (print_stats now s) (\<lambda>s. Inr (stats_schedule s))"

definition stats_stop :: "rat \<Rightarrow> stats_collector \<Rightarrow> stats_collector result" where
  "stats_stop now s =
     (let s = (if st_timer s then s\<lparr>st_timer := False\<rparr> else s) in print_stats now s)"

section \<open>The array stays sorted\<close>

definition stats_inv :: "stats_collector \<Rightarrow> bool" where
  "stats_inv s \<longleftrightarrow> sorted (st_durations s)"

lemma stats_inv_new [simp]: "stats_inv (StatsCollector pid js)"
  by (simp add: stats_inv_def StatsCollector_def)

lemma stats_on_event_durations:
  "st_durations (stats_on_event e s) = insort (st_durations s) (duration_ms e)"
  by (simp add: stats_on_event_def Let_def)

lemma stats_on_event_inv: "stats_inv s \<Longrightarrow> stats_inv (stats_on_event e s)"
  by (simp add: stats_inv_def stats_on_event_durations sorted_insort)

lemma foldl_on_event_durations:
  "sorted (st_durations s) \<Longrightarrow>
    st_durations (foldl (\<lambda>s e. stats_on_event e s) s es) = sort (st_durations s @ map duration_ms es)"
proof (induction es arbitrary: s)
  case (Cons e es)
  have "st_durations (foldl (\<lambda>s e. stats_on_event e s) s (e # es))
      = sort (insort (st_durations s) (duration_ms e) @ map duration_ms es)"
    using Cons.IH [of "stats_on_event e s"] Cons.prems
    by (simp add: stats_on_event_durations sorted_insort)
  also have "\<dots> = sort (st_durations s @ map duration_ms (e # es))"
    by (rule properties_for_sort) (simp_all add: mset_sort)
  finally show ?case .
qed (simp add: sorted_sort_id)

section \<open>Percentile lookup\<close>

definition perc_index :: "rat \<Rightarrow> nat \<Rightarrow> int" where
  "perc_index p n = trunc (fmul p (float_of_int (int n - 1)))"

lemma percentile_index: "percentile d p = py_index d (perc_index p (length d))"
  by (simp add: percentile_def perc_index_def Let_def)

lemma perc_index_bounds:
  assumes "0 \<le> p" and "p \<le> 1" and "0 < n" and "n \<le> 2 ^ 53"
  shows "0 \<le> perc_index p n \<and> perc_index p n \<le> int n - 1"
proof -
  have "int n \<le> 2 ^ 53"
    using assms(4) by (metis of_nat_le_iff of_nat_numeral of_nat_power)
  then have exact: "float_of_int (int n - 1) = of_int (int n - 1)" "fl (of_int (int n - 1)) = of_int (int n - 1)"
    unfolding float_of_int_def using assms(3) by (intro fl_of_int; simp)+
  have m: "0 \<le> (of_int (int n - 1) :: rat)"
    using assms(3) by simp
  then have "p * of_int (int n - 1) \<le> 1 * of_int (int n - 1)"
    using assms(2) by (intro mult_right_mono)
  then have "fmul p (float_of_int (int n - 1)) \<le> of_int (int n - 1)"
    unfolding fmul_def exact using fl_mono exact(2) by fastforce
  moreover have "0 \<le> fmul p (float_of_int (int n - 1))"
    unfolding fmul_def exact by (rule fl_nonneg) (rule mult_nonneg_nonneg [OF assms(1) m])
  ultimately show ?thesis
    unfolding perc_index_def using trunc_mono trunc_of_int trunc_nonneg by metis
qed

lemma perc_index_mono:
  assumes "p \<le> q" and "0 < n"
  shows "perc_index p n \<le> perc_index q n"
proof -
  have "0 \<le> float_of_int (int n - 1)"
    unfolding float_of_int_def using assms(2) by (intro fl_nonneg) simp
  then show ?thesis
    unfolding perc_index_def fmul_def using assms(1)
    by (intro trunc_mono fl_mono mult_right_mono)
qed

lemma percentile_ok:
  assumes "0 \<le> p" "p \<le> 1" "d \<noteq> []" "length d \<le> 2 ^ 53"
  shows "percentile d p = Inr (d ! nat (perc_index p (length d))) \<and> nat (perc_index p (length d)) < length d"
proof -
  have "0 \<le> perc_index p (length d) \<and> perc_index p (length d) \<le> int (length d) - 1"
    using assms by (intro perc_index_bounds) auto
  then show ?thesis
    by (simp add: percentile_index py_index_ok nat_less_iff)
qed

lemma P_order: "0 \<le> P50" "P50 \<le> P90" "P90 \<le> P95" "P95 \<le> P99" "P99 \<le> 1"
proof -
  show "0 \<le> P50" unfolding P50_def by (rule fl_nonneg) simp
  show "P50 \<le> P90" unfolding P50_def P90_def by (rule fl_mono) simp
  show "P90 \<le> P95" unfolding P90_def P95_def by (rule fl_mono) simp
  show "P95 \<le> P99" unfolding P95_def P99_def by (rule fl_mono) simp
  have "fl (99 / 100) \<le> fl 1" by (rule fl_mono) simp
  then show "P99 \<le> 1" unfolding P99_def by simp
qed

definition perc_value :: "rat list \<Rightarrow> rat \<Rightarrow> rat" where
  "perc_value d p = d ! nat (perc_index p (length d))"

lemma percentile_value:
  assumes "sorted d" "d \<noteq> []" "length d \<le> 2 ^ 53" "0 \<le> p" "p \<le> 1"
  shows "percentile d p = Inr (perc_value d p)" and "perc_value d p \<in> set d"
    and "hd d \<le> perc_value d p" and "perc_value d p \<le> last d"
proof -
  have i: "percentile d p = Inr (perc_value d p)" "nat (perc_index p (length d)) < length d"
    using percentile_ok [of p d] assms by (simp_all add: perc_value_def)
  show "percentile d p = Inr (perc_value d p)" "perc_value d p \<in> set d"
    using i by (simp_all add: perc_value_def)
  have "d ! 0 \<le> perc_value d p"
    unfolding perc_value_def using assms(1) i(2) by (intro sorted_nth_mono) simp_all
  then show "hd d \<le> perc_value d p"
    using assms(2) by (simp add: hd_conv_nth)
  have "perc_value d p \<le> d ! (length d - 1)"
    unfolding perc_value_def using assms(1) i(2) by (intro sorted_nth_mono) simp_all
  then show "perc_value d p \<le> last d"
    using assms(2) by (simp add: last_conv_nth)
qed

lemma perc_value_mono:
  assumes "sorted d" "d \<noteq> []" "length d \<le> 2 ^ 53" "0 \<le> p" "p \<le> q" "q \<le> 1"
  shows "perc_value d p \<le> perc_value d q"
  unfolding perc_value_def
proof (rule sorted_nth_mono [OF assms(1)])
  show "nat (perc_index p (length d)) \<le> nat (perc_index q (length d))"
    using perc_index_mono [OF assms(5), of "length d"] assms(2) by (intro nat_mono) simp
  show "nat (perc_index q (length d)) < length d"
    using percentile_ok [of q d] assms by simp
qed

lemma stat_values_ok:
  assumes "sorted d" "d \<noteq> []" "length d \<le> 2 ^ 53"
  shows "stat_values d = Inr [hd d, fdiv (py_sum d) (float_of_int (int (length d))),
      perc_value d P50, perc_value d P90, perc_value d P95, perc_value d P99, last d]"
proof -
  have P: "0 \<le> P90" "0 \<le> P95" "0 \<le> P99" "P50 \<le> 1" "P90 \<le> 1" "P95 \<le> 1"
    using P_order by linarith+
  have "py_index d 0 = Inr (hd d)"
    using assms(2) by (simp add: py_index_ok hd_conv_nth)
  then show ?thesis
    using assms(2) P P_order
    by (simp add: stat_values_def percentile_value [OF assms] py_index_last Let_def)
qed

lemma stat_values_sorted:
  assumes "sorted d" "d \<noteq> []" "length d \<le> 2 ^ 53"
  shows "sorted [hd d, perc_value d P50, perc_value d P90, perc_value d P95, perc_value d P99, last d]"
    and "{perc_value d P50, perc_value d P90, perc_value d P95, perc_value d P99} \<subseteq> set d"
proof -
  have P: "0 \<le> P90" "0 \<le> P95" "0 \<le> P99" "P50 \<le> 1" "P90 \<le> 1" "P95 \<le> 1"
    using P_order by linarith+
  have "hd d \<le> perc_value d P50" "perc_value d P50 \<le> perc_value d P90"
    "perc_value d P90 \<le> perc_value d P95" "perc_value d P95 \<le> perc_value d P99"
    "perc_value d P99 \<le> last d"
    using P P_order by (intro percentile_value [OF assms] perc_value_mono [OF assms]; simp)+
  then show "sorted [hd d, perc_value d P50, perc_value d P90, perc_value d P95, perc_value d P99, last d]"
    by simp
  show "{perc_value d P50, perc_value d P90, perc_value d P95, perc_value d P99} \<subseteq> set d"
    using P P_order by (simp add: percentile_value [OF assms])
qed

section \<open>Printing\<close>

text \<open>One write, and nothing but the stream and the line count changes.\<close>

definition one_write :: "stats_collector \<Rightarrow> stats_collector \<Rightarrow> bool" where
  "one_write s s' \<longleftrightarrow>
     (\<exists>w n. s' = s\<lparr>st_stream := st_stream s @ [w], st_lines_printed := n\<rparr>)"

lemma one_writeI [intro]:
  "one_write s (s\<lparr>st_stream := st_stream s @ [w], st_lines_printed := n\<rparr>)"
  unfolding one_write_def by blast

lemma print_json_ok:
  assumes "cnt = length (st_durations s)" "sorted (st_durations s)" "cnt \<le> 2 ^ 53"
  shows "\<exists>s'. print_json cnt el s = Inr s' \<and> one_write s s'"
proof -
  have "one_write s (s\<lparr>st_stream := st_stream s @ [w]\<rparr>)" for w
    unfolding one_write_def by (rule exI [of _ w], rule exI [of _ "st_lines_printed s"]) simp
  then show ?thesis
    using assms stat_values_ok [of "st_durations s"]
    by (cases "st_durations s = []") (simp_all add: print_json_def Let_def)
qed

lemma frame_values_ok:
  assumes "cnt = length (st_durations s)" "sorted (st_durations s)" "cnt \<le> 2 ^ 53"
  shows "\<exists>vals. frame_values cnt s = Inr vals \<and> length vals = 7"
  using assms stat_values_ok [of "st_durations s"]
  by (cases "st_durations s = []") (simp_all add: frame_values_def stat_labels_def)

lemma print_console_ok:
  assumes "cnt = length (st_durations s)" "sorted (st_durations s)" "cnt \<le> 2 ^ 53"
  shows "\<exists>s'. print_console cnt el w s = Inr s' \<and> one_write s s'"
proof -
  obtain vals where "frame_values cnt s = Inr vals"
    using frame_values_ok [OF assms] by blast
  then show ?thesis
    by (simp only: print_console_def frame_lines_def bind_result_simps)
      (rule exI, rule conjI [OF refl one_writeI])
qed

lemma print_stats_ok:
  assumes "stats_inv s" and "length (st_durations s) \<le> 2 ^ 53"
  shows "\<exists>s'. print_stats now s = Inr s' \<and> one_write s s'"
  using assms print_json_ok [OF refl] print_console_ok [OF refl]
  by (simp add: print_stats_def stats_inv_def Let_def)

text \<open>The text of a frame contains one line break per line it will later erase.\<close>

definition newlines :: "string \<Rightarrow> nat" where
  "newlines t = length (filter (\<lambda>c. c = CHR 0x0A) t)"

lemma newlines_append [simp]: "newlines (a @ b) = newlines a + newlines b"
  by (simp add: newlines_def)

lemma newlines_Nil [simp]: "newlines [] = 0"
  by (simp add: newlines_def)

lemma newlines_newline [simp]: "newlines newline = 1"
  by (simp add: newlines_def newline_def)

lemma newlines_0_iff: "newlines t = 0 \<longleftrightarrow> CHR 0x0A \<notin> set t"
  by (auto simp: newlines_def filter_empty_conv)

lemma newlines_join:
  "ls \<noteq> [] \<Longrightarrow> (\<forall>l \<in> set ls. newlines l = 0) \<Longrightarrow> newlines (join newline ls @ newline) = length ls"
  by (induction ls rule: induct_list012) simp_all

lemma newlines_header [simp]: "newlines (stats_header pid el n) = 0"
  unfolding newlines_0_iff by (simp add: stats_header_def em_dash_def)

lemma newlines_value_line [simp]: "newlines l = 0 \<Longrightarrow> newlines v = 0 \<Longrightarrow> newlines (value_line l v) = 0"
  unfolding newlines_0_iff by (simp add: value_line_def ljust_def rjust_def)

lemma newlines_map2:
  "(\<forall>l \<in> set ls. newlines l = 0) \<Longrightarrow> (\<forall>v \<in> set vs. newlines v = 0) \<Longrightarrow>
    \<forall>x \<in> set (map2 value_line ls vs). newlines x = 0"
  by (auto intro!: newlines_value_line dest: set_zip_leftD set_zip_rightD)

lemma newlines_warn: "\<forall>x \<in> set (warn_lines cnt w). newlines x = 0"
  unfolding newlines_0_iff by (auto simp: warn_lines_def)

lemma newlines_values: "frame_values cnt s = Inr vals \<Longrightarrow> \<forall>v \<in> set vals. newlines v = 0"
  unfolding newlines_0_iff by (auto simp: frame_values_def bind_result_Inr_iff stat_labels_def split: if_splits)

lemma frame_lines_newlines:
  assumes "frame_lines cnt el w s = Inr ls"
  shows "ls \<noteq> [] \<and> (\<forall>l \<in> set ls. newlines l = 0)"
proof -
  obtain vals where vals: "frame_values cnt s = Inr vals"
    and ls: "ls = [stats_header (st_pid s) el cnt, []] @ map2 value_line stat_labels vals @ warn_lines cnt w"
    using assms by (auto simp: frame_lines_def bind_result_Inr_iff)
  have lab: "\<forall>l \<in> set stat_labels. newlines l = 0"
    by (simp add: stat_labels_def newlines_def)
  show ?thesis
    using newlines_map2 [OF lab newlines_values [OF vals]] newlines_warn by (auto simp: ls)
qed

section \<open>Properties\<close>

text \<open>The array is, at any time, the sorted list of the durations of the events delivered
  so far.\<close>

theorem stats_durations_sorted:
  "st_durations (foldl (\<lambda>s e. stats_on_event e s) (StatsCollector pid js) events)
    = sort (map duration_ms events)"
  using foldl_on_event_durations [of "StatsCollector pid js" events]
  by (simp add: StatsCollector_def)

text \<open>C39: Once an event has been collected, the seven displayed values exist (no lookup is out of
  range), the first is the least and the last the greatest collected duration, and minimum,
  p50, p90, p95, p99 and maximum are collected durations in non-decreasing order, also after they
  have been rounded to three decimals for the JSON record.\<close>

theorem stats_values_ordered:
  assumes "events \<noteq> []" and "length events \<le> 2 ^ 53"
    and "d = st_durations (foldl (\<lambda>s e. stats_on_event e s) (StatsCollector pid js) events)"
  shows "\<exists>mn avg p50 p90 p95 p99 mx. stat_values d = Inr [mn, avg, p50, p90, p95, p99, mx]
    \<and> mn = Min (duration_ms ` set events) \<and> mx = Max (duration_ms ` set events)
    \<and> {p50, p90, p95, p99} \<subseteq> duration_ms ` set events
    \<and> sorted [mn, p50, p90, p95, p99, mx]
    \<and> sorted (map (py_round 3) [mn, p50, p90, p95, p99, mx])"
proof -
  have d: "d = sort (map duration_ms events)"
    using foldl_on_event_durations [of "StatsCollector pid js" events] assms(3)
    by (simp add: StatsCollector_def)
  have "length d = length events"
    by (simp add: d)
  then have len: "sorted d" "d \<noteq> []" "length d \<le> 2 ^ 53" "set d = duration_ms ` set events"
    using assms(1,2) by (simp_all add: d) (metis length_0_conv length_map length_sort)
  have "hd d = Min (set d)" "last d = Max (set d)"
    using len(1,2) by (simp_all add: sorted_hd_Min sorted_last_Max)
  note mm = this [unfolded len(4)]
  note sub = stat_values_sorted(2) [OF len(1-3), unfolded len(4)]
  note srt = stat_values_sorted(1) [OF len(1-3)]
  show ?thesis
    by (intro exI conjI, rule stat_values_ok [OF len(1-3)], rule mm(1), rule mm(2), rule sub,
      rule srt, rule py_round.sorted_map_r [OF srt])
qed

theorem stats_values_ordered_witness:
  "\<exists>mn avg p50 p90 p95 p99 mx.
    stat_values (st_durations (foldl (\<lambda>s e. stats_on_event e s) (StatsCollector 1 True)
      [\<lparr>start_ns = 0, end_ns = 1000000, ev_pid = 1, ev_tid = 1, python_stacks = []\<rparr>]))
      = Inr [mn, avg, p50, p90, p95, p99, mx]
    \<and> mn \<le> mx"
  using stats_values_ordered [OF _ _ refl,
    of "[\<lparr>start_ns = 0, end_ns = 1000000, ev_pid = 1, ev_tid = 1, python_stacks = []\<rparr>]" 1 True]
  by fastforce

text \<open>Printing never raises while fewer than \<open>2 ^ 53\<close> events are collected: one tick of the
  display performs exactly one write, leaves the collected durations as they are, and re-arms the
  timer; stopping disarms it and prints once more.\<close>

theorem stats_tick_stop_total:
  assumes "length events \<le> 2 ^ 53"
    and "s = foldl (\<lambda>s e. stats_on_event e s) (stats_start t0 (StatsCollector pid js)) events"
  shows "\<exists>s1 s2 w1 w2. stats_tick t1 s = Inr s1 \<and> stats_stop t2 s1 = Inr s2
    \<and> st_timer s1 \<and> \<not> st_timer s2
    \<and> st_durations s2 = st_durations s \<and> st_stream s2 = st_stream s @ [w1, w2]"
proof -
  have srt: "sorted (st_durations (stats_start t0 (StatsCollector pid js)))"
    by (simp add: stats_start_def stats_schedule_def StatsCollector_def)
  have s: "stats_inv s" "length (st_durations s) \<le> 2 ^ 53"
    using assms foldl_on_event_durations [OF srt, of events]
    by (simp_all add: stats_inv_def stats_start_def stats_schedule_def StatsCollector_def)
  obtain s' where p1: "print_stats t1 s = Inr s'" "one_write s s'"
    using print_stats_ok [OF s] by blast
  define s1 where "s1 = stats_schedule s'"
  let ?s1 = "s1\<lparr>st_timer := False\<rparr>"
  have s1: "st_timer s1" "st_durations s1 = st_durations s" "st_timer ?s1 = False"
    "st_durations ?s1 = st_durations s" "st_stream ?s1 = st_stream s'"
    using p1(2) by (auto simp: s1_def stats_schedule_def one_write_def)
  then obtain s2 where p2: "print_stats t2 ?s1 = Inr s2" "one_write ?s1 s2"
    using print_stats_ok [of ?s1 t2] s by (auto simp: stats_inv_def)
  have "stats_tick t1 s = Inr s1" "stats_stop t2 s1 = Inr s2"
    using p1(1) p2(1) s1(1) by (simp_all add: stats_tick_def s1_def stats_stop_def Let_def)
  then show ?thesis
    using s1 p1(2) p2(2) by (auto simp: one_write_def)
qed

theorem stats_tick_stop_total_witness:
  "\<exists>s1 s2 w1 w2. stats_tick 5 (stats_start 3 (StatsCollector 7 False)) = Inr s1
    \<and> stats_stop 6 s1 = Inr s2 \<and> st_stream s2 = [w1, w2]"
  using stats_tick_stop_total [of "[]" "stats_start 3 (StatsCollector 7 False)" 3 7 False 5 6]
  by (auto simp: stats_start_def stats_schedule_def StatsCollector_def)

text \<open>A console frame is written in one piece that first erases the previous frame and then
  contains exactly as many line breaks as the line count it records, so the next frame moves the
  cursor up by the number of lines this one printed.\<close>

theorem console_frame_erasable:
  assumes "print_console n el w s = Inr s'"
  shows "\<exists>body. st_stream s' = st_stream s @ [Text (erase_frame (st_lines_printed s) @ body)]
    \<and> newlines body = st_lines_printed s' \<and> 9 \<le> st_lines_printed s'"
proof -
  obtain ls where ls: "frame_lines n el w s = Inr ls"
    and s': "s' = s\<lparr>st_stream := st_stream s @
        [Text (erase_frame (st_lines_printed s) @ join newline ls @ newline)],
      st_lines_printed := length ls\<rparr>"
    using assms by (auto simp: print_console_def bind_result_Inr_iff)
  have "length vals = 7" if "frame_values n s = Inr vals" for vals
    using that by (auto simp: frame_values_def stat_values_def bind_result_Inr_iff stat_labels_def
        Let_def split: if_splits)
  then have "9 \<le> length ls"
    using ls by (auto simp: frame_lines_def bind_result_Inr_iff stat_labels_def)
  moreover have "newlines (join newline ls @ newline) = length ls"
    using frame_lines_newlines [OF ls] by (intro newlines_join) simp_all
  ultimately show ?thesis
    by (auto simp: s')
qed

theorem console_frame_erasable_witness:
  "\<exists>s' body. print_console 0 1 False (StatsCollector 1 False) = Inr s'
    \<and> st_stream s' = [Text (erase_frame 0 @ body)] \<and> newlines body = st_lines_printed s'"
proof -
  obtain s' where s': "print_console 0 1 False (StatsCollector 1 False) = Inr s'"
    by (simp add: print_console_def frame_lines_def frame_values_def)
  show ?thesis
    using console_frame_erasable [OF s'] s' by (auto simp: StatsCollector_def)
qed

text \<open>The warning flag is set exactly when ten million events have been collected.\<close>

theorem stats_warned_iff:
  "st_warned (foldl (\<lambda>s e. stats_on_event e s) (StatsCollector pid js) events)
    \<longleftrightarrow> WARN_THRESHOLD \<le> length events"
proof (induction events rule: rev_induct)
  case (snoc e es)
  have "length (st_durations (foldl (\<lambda>s e. stats_on_event e s) (StatsCollector pid js) es)) = length es"
    using foldl_on_event_durations [of "StatsCollector pid js" es] by (simp add: StatsCollector_def)
  then show ?case
    using snoc by (auto simp: stats_on_event_def Let_def)
qed (simp add: StatsCollector_def WARN_THRESHOLD_def)

text \<open>The percentile is the element at the truncated index \<open>p * (n - 1)\<close>, which is not the
  nearest-rank percentile that the docstring names: of the ten values 1 to 10 the 95th percentile
  by nearest rank is 10, the code returns 9.\<close>

definition nearest_rank :: "rat list \<Rightarrow> rat \<Rightarrow> rat" where
  "nearest_rank d p = d ! (nat \<lceil>p * of_nat (length d)\<rceil> - 1)"

theorem percentile_below_nearest_rank:
  "percentile [1, 2, 3, 4, 5, 6, 7, 8, 9, 10] P95 = Inr 9
    \<and> nearest_rank [1, 2, 3, 4, 5, 6, 7, 8, 9, 10] (95 / 100) = 10"
proof -
  have grid: "fl (15 / 16) = 15 / 16" "fl (31 / 32) = 31 / 32" "fl (135 / 16) = 135 / 16"
    "fl (279 / 32) = 279 / 32"
    using fl_dyadic [of 15 4] fl_dyadic [of 31 5] fl_dyadic [of 135 4] fl_dyadic [of 279 5] by simp_all
  have "15 / 16 \<le> P95" "P95 \<le> 31 / 32"
    unfolding P95_def using fl_mono [of "15 / 16" "95 / 100"] fl_mono [of "95 / 100" "31 / 32"]
    by (simp_all add: grid)
  then have "fl (135 / 16) \<le> fl (P95 * 9)" "fl (P95 * 9) \<le> fl (279 / 32)"
    by (intro fl_mono; simp)+
  then have "135 / 16 \<le> fl (P95 * 9)" "fl (P95 * 9) \<le> 279 / 32"
    by (simp_all only: grid)
  then have "trunc (fl (P95 * 9)) = 8"
    unfolding trunc_def by (simp, linarith)
  moreover have "\<lceil>19 / 2 :: rat\<rceil> = 10"
    by (rule ceiling_unique) simp_all
  ultimately show ?thesis
    by (simp add: percentile_def float_of_int_def fmul_def py_index_def nearest_rank_def)
qed

end
