(* ===== verification/Sampler.thy ===== *)
theory Sampler
  imports RingBuffer Core ProcFs PyFormat Detector
begin

text \<open>
  The Austin sampler of \<open>blocksnoop/profiler.py\<close>: the namespace wrapper, the sample handler that
  fills the ring buffer, and starting and stopping. The Austin library is a parameter: its samples
  and the outcomes of its \<open>start\<close>, \<open>terminate\<close> and \<open>join\<close>.
\<close>

section \<open>Namespaces and the wrapper script\<close>

definition check_austin_available :: "(string \<Rightarrow> string option) \<Rightarrow> bool" where
  "check_austin_available which = (which ''austin'' \<noteq> None)"

definition in_same_mount_ns :: "procfs \<Rightarrow> int \<Rightarrow> bool" where
  "in_same_mount_ns fs pid =
     (case fs_stat fs ''/proc/self/ns/mnt'' of
        None \<Rightarrow> True
      | Some self_mnt \<Rightarrow>
          (case fs_stat fs (mnt_ns_path pid) of None \<Rightarrow> True | Some target_mnt \<Rightarrow> self_mnt = target_mnt))"

definition find_musl_linker :: "(string \<Rightarrow> string list) \<Rightarrow> string option" where
  "find_musl_linker glob = (case glob ''/lib/ld-musl-*.so.1'' of [] \<Rightarrow> None | m # _ \<Rightarrow> Some m)"

text \<open>The loop is the one of \<open>_resolve_target_ns_tgid\<close>; an unreadable number is a \<open>ValueError\<close>.\<close>

definition resolve_ns_pid :: "procfs \<Rightarrow> int \<Rightarrow> int result" where
  "resolve_ns_pid fs pid =
     (case fs_lines fs (status_path pid) of
        None \<Rightarrow> Inr pid
      | Some lines \<Rightarrow> bind_result (first_nspid lines) (\<lambda>p. Inr (case p of Some q \<Rightarrow> q | None \<Rightarrow> pid)))"

text \<open>\<open>shlex.quote\<close>\<close>

definition shell_safe :: "char \<Rightarrow> bool" where
  "shell_safe c \<longleftrightarrow> c \<in> set ''abcdefghijklmnopqrstuvwxyzABCDEFGHIJKLMNOPQRSTUVWXYZ0123456789_@%+=:,./-''"

definition shlex_quote :: "string \<Rightarrow> string" where
  "shlex_quote s =
     (if s = [] then [CHR 0x27, CHR 0x27]
      else if list_all shell_safe s then s
      else [CHR 0x27]
           @ concat (map (\<lambda>c. if c = CHR 0x27 then [CHR 0x27, CHR 0x22, CHR 0x27, CHR 0x22, CHR 0x27] else [c]) s)
           @ [CHR 0x27])"

definition wrapper_lines :: "string \<Rightarrow> string option \<Rightarrow> int \<Rightarrow> string list" where
  "wrapper_lines austin_path musl_linker pid =
     (let invocation = (if musl_linker \<noteq> None then ''/proc/self/fd/4 /proc/self/fd/3'' else ''/proc/self/fd/3'')
      in [''#!/bin/sh'', ''exec 3<'' @ shlex_quote austin_path]
         @ (case musl_linker of None \<Rightarrow> [] | Some l \<Rightarrow> [''exec 4<'' @ shlex_quote l])
         @ [''exec setsid nsenter -m -p -t '' @ shlex_quote (str_of_int pid) @ '' -- '' @ invocation @ '' ''
            @ [CHR 0x22] @ ''$@'' @ [CHR 0x22]])"

text \<open>Writing the temporary file: its name, or the exception of creating it; then the outcome of
  writing and \<open>chmod\<close>. A file that could not be completed is removed before the exception goes on.\<close>

record wrapper_env =
  we_which :: "string \<Rightarrow> string option"
  we_glob :: "string \<Rightarrow> string list"
  we_mkstemp :: "string result"
  we_write :: "exn option"

datatype wrapper_file = WrapperFile (wf_name: string) (wf_content: string)

definition create_nsenter_wrapper ::
  "wrapper_env \<Rightarrow> int \<Rightarrow> wrapper_file list \<Rightarrow> wrapper_file list \<times> string result" where
  "create_nsenter_wrapper env pid files =
     (case we_which env ''austin'' of
        None \<Rightarrow> (files, Inl (PyRuntimeError ''Austin binary not found''))
      | Some austin_path \<Rightarrow>
          (case we_mkstemp env of
             Inl e \<Rightarrow> (files, Inl e)
           | Inr wrapper \<Rightarrow>
               let content = join newline (wrapper_lines austin_path (find_musl_linker (we_glob env)) pid) @ newline
               in case we_write env of
                    None \<Rightarrow> (files @ [WrapperFile wrapper content], Inr wrapper)
                  | Some e \<Rightarrow> if is_Exception e then (files, Inl e)
                              else (files @ [WrapperFile wrapper content], Inl e)))"

section \<open>The sample handler\<close>

text \<open>An Austin sample: the thread id as text (\<open>None\<close> when it is no string) and the frames.\<close>

record austin_sample =
  sm_thread :: "string option"
  sm_frames :: "stack_frame list option"

record loopspy_austin =
  la_tid :: int
  la_terminate_process_group :: bool
  la_sample_count :: nat
  la_filtered_count :: nat

definition LoopspyAustin :: "int \<Rightarrow> bool \<Rightarrow> loopspy_austin" where
  "LoopspyAustin tid grp =
     \<lparr>la_tid = tid, la_terminate_process_group = grp, la_sample_count = 0, la_filtered_count = 0\<rparr>"

definition sample_thread :: "austin_sample \<Rightarrow> int option" where
  "sample_thread sample = Option.bind (sm_thread sample) (py_int 16)"

type_synonym sampling = "loopspy_austin \<times> python_stack_trace ring_buffer"

definition on_sample :: "int \<Rightarrow> austin_sample \<Rightarrow> sampling \<Rightarrow> sampling result" where
  "on_sample now sample st =
     (let (a, rb) = st in
      case sm_frames sample of
        None \<Rightarrow> Inr st
      | Some fs \<Rightarrow>
          if sample_thread sample \<noteq> Some (la_tid a)
          then Inr (a\<lparr>la_filtered_count := la_filtered_count a + 1\<rparr>, rb)
          else bind_result (push now \<lparr>thread_id = la_tid a, thread_name = [], frames = fs\<rparr> rb) (\<lambda>rb.
                 Inr (a\<lparr>la_sample_count := la_sample_count a + 1\<rparr>, rb)))"

fun on_samples :: "(int \<times> austin_sample) list \<Rightarrow> sampling \<Rightarrow> sampling result" where
  "on_samples [] st = Inr st"
| "on_samples ((now, s) # ss) st = bind_result (on_sample now s st) (on_samples ss)"

section \<open>AustinSampler\<close>

text \<open>\<open>as_files\<close> are the wrapper files that exist. The calls into Austin are recorded in order.\<close>

datatype austin_call = AustinStart "string list" | AustinTerminate | AustinKillpg | AustinJoin

record austin_sampler =
  as_pid :: int
  as_tid :: int
  as_interval_us :: int
  as_ring_buffer :: "python_stack_trace ring_buffer"
  as_austin :: "loopspy_austin option"
  as_health_timer :: bool
  as_nsenter_wrapper :: "string option"
  as_files :: "wrapper_file list"
  as_calls :: "austin_call list"

definition AustinSampler :: "int \<Rightarrow> rat \<Rightarrow> int option \<Rightarrow> austin_sampler" where
  "AustinSampler pid sample_interval_ms tid =
     \<lparr>as_pid = pid, as_tid = (case tid of Some t \<Rightarrow> t | None \<Rightarrow> pid),
      as_interval_us = trunc (fmul sample_interval_ms 1000),
      as_ring_buffer = StackRingBuffer 256, as_austin = None, as_health_timer = False,
      as_nsenter_wrapper = None, as_files = [], as_calls = []\<rparr>"

text \<open>\<open>_cleanup_nsenter_wrapper\<close>: \<open>unlink\<close> fails silently with an \<open>OSError\<close>.\<close>

definition cleanup_nsenter_wrapper :: "bool \<Rightarrow> austin_sampler \<Rightarrow> austin_sampler" where
  "cleanup_nsenter_wrapper unlink_ok s =
     (case as_nsenter_wrapper s of
        None \<Rightarrow> s
      | Some w \<Rightarrow>
          s\<lparr>as_nsenter_wrapper := None,
            as_files := (if unlink_ok then filter (\<lambda>f. wf_name f \<noteq> w) (as_files s) else as_files s)\<rparr>)"

record sampler_env =
  sv_procfs :: procfs
  sv_wrapper :: wrapper_env
  sv_start :: "string list \<Rightarrow> exn option"
  sv_unlink_ok :: bool

text \<open>Entering the namespaces: whether a wrapper is used, and both ids, translated if it is.\<close>

definition enter_namespaces :: "sampler_env \<Rightarrow> austin_sampler \<Rightarrow> austin_sampler \<times> (bool \<times> int \<times> int) result" where
  "enter_namespaces env s =
     (if in_same_mount_ns (sv_procfs env) (as_pid s) then (s, Inr (False, as_pid s, as_tid s))
      else case create_nsenter_wrapper (sv_wrapper env) (as_pid s) (as_files s) of
             (files, Inl e) \<Rightarrow> (s\<lparr>as_files := files\<rparr>, Inl e)
           | (files, Inr wrapper) \<Rightarrow>
               let s = s\<lparr>as_files := files, as_nsenter_wrapper := Some wrapper\<rparr>
               in (s, bind_result (resolve_ns_pid (sv_procfs env) (as_pid s)) (\<lambda>pid.
                      bind_result (resolve_ns_pid (sv_procfs env) (as_tid s)) (\<lambda>tid. Inr (True, pid, tid)))))"

definition austin_arguments :: "int \<Rightarrow> int \<Rightarrow> string list" where
  "austin_arguments interval_us pid = [''-i'', str_of_int interval_us, ''-p'', str_of_int pid]"

definition sampler_start :: "sampler_env \<Rightarrow> austin_sampler \<Rightarrow> austin_sampler \<times> exn option" where
  "sampler_start env s =
     (if as_austin s \<noteq> None then (s, None)
      else case enter_namespaces env s of
             (s, Inl e) \<Rightarrow> (s, Some e)
           | (s, Inr (wrapped, pid, tid)) \<Rightarrow>
               let args = austin_arguments (as_interval_us s) pid;
                   s = s\<lparr>as_austin := Some (LoopspyAustin tid wrapped),
                         as_calls := as_calls s @ [AustinStart args]\<rparr>
               in case sv_start env args of
                    None \<Rightarrow> (s\<lparr>as_health_timer := True\<rparr>, None)
                  | Some e \<Rightarrow>
                      if is_Exception e
                      then (cleanup_nsenter_wrapper (sv_unlink_ok env) (s\<lparr>as_austin := None\<rparr>), Some e)
                      else (s, Some e))"

text \<open>\<open>_LoopspyAustin.terminate\<close>: the process group when the wrapper is in use. \<open>has_proc\<close> tells
  whether Austin has its process; the outcomes are those of \<open>super().terminate()\<close> and \<open>killpg\<close>.\<close>

record stop_env =
  se_has_proc :: bool
  se_terminate :: "exn option"
  se_killpg :: "exn option"
  se_join :: "exn option"
  se_unlink_ok :: bool

definition austin_terminate :: "stop_env \<Rightarrow> loopspy_austin \<Rightarrow> austin_call list \<times> exn option" where
  "austin_terminate env a =
     (if \<not> la_terminate_process_group a then ([AustinTerminate], se_terminate env)
      else if \<not> se_has_proc env then ([], Some AustinError)
      else ([AustinKillpg], if se_killpg env = Some ProcessLookupError then None else se_killpg env))"

text \<open>An \<open>Exception\<close> of either call is logged and dropped.\<close>

definition not_Exception :: "exn option \<Rightarrow> exn option" where
  "not_Exception x = (case x of Some e \<Rightarrow> if is_Exception e then None else Some e | None \<Rightarrow> None)"

definition sampler_stop :: "stop_env \<Rightarrow> austin_sampler \<Rightarrow> austin_sampler \<times> exn option" where
  "sampler_stop env s =
     (let s = s\<lparr>as_health_timer := False\<rparr> in
      case as_austin s of
        None \<Rightarrow> (s, None)
      | Some a \<Rightarrow>
          let (calls, x) = austin_terminate env a;
              s = s\<lparr>as_calls := as_calls s @ calls\<rparr>
          in case not_Exception x of
               Some e \<Rightarrow> (s, Some e)
             | None \<Rightarrow>
                 let s = s\<lparr>as_calls := as_calls s @ [AustinJoin]\<rparr>
                 in case not_Exception (se_join env) of
                      Some e \<Rightarrow> (s, Some e)
                    | None \<Rightarrow> (cleanup_nsenter_wrapper (se_unlink_ok env) (s\<lparr>as_austin := None\<rparr>), None))"

section \<open>Accepted samples\<close>

text \<open>Whether the two warnings about missing samples are logged: when Austin ends, and by the timer three
  seconds after the start, which reads the count of that moment.\<close>

definition on_terminate :: "loopspy_austin \<Rightarrow> bool" where
  "on_terminate a \<longleftrightarrow> la_sample_count a = 0"

definition sampler_check_health :: "austin_sampler \<Rightarrow> bool" where
  "sampler_check_health s = (case as_austin s of None \<Rightarrow> False | Some a \<Rightarrow> la_sample_count a = 0)"

text \<open>The trace a sample contributes for a thread, with the time it arrives.\<close>

definition accepted :: "int \<Rightarrow> (int \<times> austin_sample) list \<Rightarrow> (int \<times> python_stack_trace) list" where
  "accepted tid ss = List.map_filter (\<lambda>(now, s).
     case sm_frames s of
       None \<Rightarrow> None
     | Some fs \<Rightarrow> if sample_thread s = Some tid
                 then Some (now, \<lparr>thread_id = tid, thread_name = [], frames = fs\<rparr>) else None) ss"

definition with_frames :: "(int \<times> austin_sample) list \<Rightarrow> (int \<times> austin_sample) list" where
  "with_frames ss = filter (\<lambda>p. sm_frames (snd p) \<noteq> None) ss"

lemma accepted_simps [simp]:
  "accepted tid [] = []"
  "accepted tid ((now, s) # ss) =
     (case sm_frames s of
       None \<Rightarrow> accepted tid ss
     | Some fs \<Rightarrow> if sample_thread s = Some tid
                 then (now, \<lparr>thread_id = tid, thread_name = [], frames = fs\<rparr>) # accepted tid ss
                 else accepted tid ss)"
  by (auto simp: accepted_def map_filter_simps split: option.split)

lemma length_accepted_le: "length (accepted tid ss) \<le> length (with_frames ss)"
  by (induction ss) (auto simp: with_frames_def split: option.split)

lemma on_samples_run:
  "on_samples ss (a, rb) = bind_result (push_all (accepted (la_tid a) ss) rb) (\<lambda>rb'.
     Inr (a\<lparr>la_sample_count := la_sample_count a + length (accepted (la_tid a) ss),
            la_filtered_count := la_filtered_count a +
              (length (with_frames ss) - length (accepted (la_tid a) ss))\<rparr>, rb'))"
proof (induction ss arbitrary: a rb)
  case Nil
  show ?case by (simp add: with_frames_def)
next
  case (Cons p ss)
  obtain now s where p: "p = (now, s)"
    by fastforce
  show ?case
  proof (cases "sm_frames s")
    case None
    then show ?thesis
      by (simp add: p on_sample_def Cons with_frames_def)
  next
    case (Some fs)
    show ?thesis
    proof (cases "sample_thread s = Some (la_tid a)")
      case False
      with Some length_accepted_le [of "la_tid a" ss] show ?thesis
        by (simp add: p on_sample_def Cons with_frames_def Suc_diff_le)
    next
      case True
      with Some show ?thesis
        by (cases "push now \<lparr>thread_id = la_tid a, thread_name = [], frames = fs\<rparr> rb")
           (simp_all add: p on_sample_def Cons with_frames_def)
    qed
  qed
qed

lemma sorted_accepted: "sorted (map fst ss) \<Longrightarrow> sorted (map fst (accepted tid ss))"
proof (induction ss)
  case (Cons p ss)
  have "q \<in> set (accepted tid ss) \<Longrightarrow> fst q \<in> fst ` set ss" for q ss
    by (induction ss) (auto split: option.splits if_splits)
  with Cons show ?case
    by (cases p) (fastforce split: option.split)
qed simp

section \<open>Properties\<close>

text \<open>C26: Sampling never raises. Starting from an empty buffer, every sample with frames is either
  accepted, when its thread is the monitored one, or counted as filtered, and the ring buffer
  holds exactly the latest accepted traces, oldest first.\<close>

theorem sampler_keeps_latest_accepted:
  assumes "0 < n"
  shows "\<exists>a' rb'. on_samples ss (LoopspyAustin tid grp, StackRingBuffer n) = Inr (a', rb') \<and>
    la_sample_count a' = length (accepted tid ss) \<and>
    la_sample_count a' + la_filtered_count a' = length (filter (\<lambda>p. sm_frames (snd p) \<noteq> None) ss) \<and>
    ordered_entries rb' = map Some (drop (length (accepted tid ss) - n) (accepted tid ss))"
proof -
  obtain rb' where rb': "push_all (accepted tid ss) (StackRingBuffer n) = Inr rb'" "ring_inv rb'"
    "ring_entries rb' = drop (length (accepted tid ss) - n) (accepted tid ss)"
    using push_all_new [OF assms, of "accepted tid ss"] by blast
  then show ?thesis
    using length_accepted_le [of tid ss] ordered_entries_eq [OF rb'(2)]
    by (simp add: on_samples_run LoopspyAustin_def with_frames_def)
qed

definition example_sample :: "string \<Rightarrow> austin_sample" where
  "example_sample thread = \<lparr>sm_thread = Some thread,
     sm_frames = Some [\<lparr>fr_function = ''f'', fr_file = ''app.py'', fr_line = 7\<rparr>]\<rparr>"

lemma sampler_keeps_latest_accepted_witness:
  "\<exists>a' rb'. on_samples [(1, example_sample ''0x10''), (2, example_sample ''zz'')]
      (LoopspyAustin 16 False, StackRingBuffer 2) = Inr (a', rb') \<and>
    la_sample_count a' + la_filtered_count a' = 2"
  using sampler_keeps_latest_accepted [of 2 "[(1, example_sample ''0x10''), (2, example_sample ''zz'')]" 16 False]
  by (auto simp: example_sample_def)

text \<open>The warnings are true: they are logged exactly when no sample so far had frames and belonged to the
  monitored thread, so that every report so far had to do without stacks.\<close>

theorem sampler_warnings_truthful:
  assumes "on_samples ss (LoopspyAustin tid grp, StackRingBuffer n) = Inr (a, rb)" and "as_austin s = Some a"
  shows "(on_terminate a \<longleftrightarrow> accepted tid ss = []) \<and> (sampler_check_health s \<longleftrightarrow> accepted tid ss = []) \<and>
    (on_terminate a \<longleftrightarrow> (\<forall>(now, sample) \<in> set ss. sm_frames sample = None \<or> sample_thread sample \<noteq> Some tid))"
proof -
  have "la_sample_count a = length (accepted tid ss)"
    using assms(1) by (auto simp: on_samples_run LoopspyAustin_def bind_result_Inr_iff)
  moreover have "accepted tid ss = [] \<longleftrightarrow> (\<forall>(now, sample) \<in> set ss. sm_frames sample = None \<or> sample_thread sample \<noteq> Some tid)"
    by (induction ss) (auto split: option.splits if_splits)
  ultimately show ?thesis
    using assms(2) by (simp add: on_terminate_def sampler_check_health_def)
qed

text \<open>Names of the wrapper files.\<close>

definition file_names :: "austin_sampler \<Rightarrow> string list" where
  "file_names s = map wf_name (as_files s)"

lemma cleanup_files:
  "as_nsenter_wrapper s = Some w \<Longrightarrow> file_names (cleanup_nsenter_wrapper True s) = filter (\<lambda>n. n \<noteq> w) (file_names s)"
  by (simp add: cleanup_nsenter_wrapper_def file_names_def filter_map o_def)

lemma enter_namespaces_ok:
  assumes "enter_namespaces env s = (s', Inr (wrapped, pid, tid))"
  shows "if in_same_mount_ns (sv_procfs env) (as_pid s) then s' = s \<and> \<not> wrapped \<and> pid = as_pid s \<and> tid = as_tid s
    else wrapped \<and> resolve_ns_pid (sv_procfs env) (as_pid s) = Inr pid \<and>
      resolve_ns_pid (sv_procfs env) (as_tid s) = Inr tid \<and>
      (\<exists>w content. we_mkstemp (sv_wrapper env) = Inr w \<and>
         s' = s\<lparr>as_files := as_files s @ [WrapperFile w content], as_nsenter_wrapper := Some w\<rparr>)"
  using assms
  by (auto simp: enter_namespaces_def create_nsenter_wrapper_def bind_result_Inr_iff Let_def
      split: if_splits prod.splits sum.splits option.splits)

lemma filter_fresh: "w \<notin> set xs \<Longrightarrow> filter (\<lambda>n. n \<noteq> w) (xs @ [w]) = xs"
  by (induction xs) auto

lemma sampler_start_ok:
  assumes "sampler_start env s = (s1, None)" and "as_austin s = None"
  shows "\<exists>s0 wrapped pid tid. enter_namespaces env s = (s0, Inr (wrapped, pid, tid)) \<and>
    s1 = s0\<lparr>as_austin := Some (LoopspyAustin tid wrapped), as_health_timer := True,
           as_calls := as_calls s0 @ [AustinStart (austin_arguments (as_interval_us s0) pid)]\<rparr>"
proof -
  obtain s0 r where en: "enter_namespaces env s = (s0, r)"
    by fastforce
  with assms obtain wrapped pid tid where "r = Inr (wrapped, pid, tid)"
    by (cases r) (auto simp: sampler_start_def)
  with assms en show ?thesis
    by (auto simp: sampler_start_def Let_def split: option.splits if_splits)
qed

lemma not_Exception_None: "(\<forall>e. x = Some e \<longrightarrow> is_Exception e) \<Longrightarrow> not_Exception x = None"
  by (auto simp: not_Exception_def split: option.split)

lemma austin_terminate_ok:
  assumes "\<forall>e. se_terminate senv = Some e \<or> se_killpg senv = Some e \<longrightarrow> is_Exception e" and "se_has_proc senv"
  shows "\<exists>x. austin_terminate senv a =
    ([if la_terminate_process_group a then AustinKillpg else AustinTerminate], x) \<and> not_Exception x = None"
  using assms by (auto simp: austin_terminate_def intro!: not_Exception_None)

text \<open>A start that returns runs Austin once, on the target's process id and for its thread id; when
  blocksnoop and the target have different mount namespaces, both ids are translated into the
  target's PID namespace and Austin runs behind a wrapper, otherwise neither is.\<close>

theorem sampler_start_targets:
  assumes "sampler_start env s = (s1, None)" and "as_austin s = None"
  shows "\<exists>a pid. as_austin s1 = Some a \<and>
    as_calls s1 = as_calls s @ [AustinStart [''-i'', str_of_int (as_interval_us s), ''-p'', str_of_int pid]] \<and>
    la_sample_count a = 0 \<and> la_filtered_count a = 0 \<and>
    (if in_same_mount_ns (sv_procfs env) (as_pid s)
     then pid = as_pid s \<and> la_tid a = as_tid s \<and> \<not> la_terminate_process_group a
     else resolve_ns_pid (sv_procfs env) (as_pid s) = Inr pid \<and>
       resolve_ns_pid (sv_procfs env) (as_tid s) = Inr (la_tid a) \<and> la_terminate_process_group a)"
proof -
  obtain s0 wrapped pid tid where en: "enter_namespaces env s = (s0, Inr (wrapped, pid, tid))"
    and s1: "s1 = s0\<lparr>as_austin := Some (LoopspyAustin tid wrapped), as_health_timer := True,
           as_calls := as_calls s0 @ [AustinStart (austin_arguments (as_interval_us s0) pid)]\<rparr>"
    using sampler_start_ok [OF assms] by blast
  from enter_namespaces_ok [OF en] show ?thesis
    by (auto simp: s1 LoopspyAustin_def austin_arguments_def split: if_splits)
qed

text \<open>Stopping a started sampler never raises, whatever \<open>Exception\<close> terminating and joining Austin
  raise; it terminates Austin (its process group behind the wrapper), joins it, cancels the health
  timer and removes the wrapper file the start created, so that the files are those from before.\<close>

theorem sampler_stop_restores:
  assumes "sampler_start env s = (s1, None)" and "as_austin s = None" and "as_nsenter_wrapper s = None"
    and "\<forall>w. we_mkstemp (sv_wrapper env) = Inr w \<longrightarrow> w \<notin> set (file_names s)"
    and "\<forall>e. se_terminate senv = Some e \<or> se_killpg senv = Some e \<or> se_join senv = Some e \<longrightarrow> is_Exception e"
    and "se_has_proc senv" and "se_unlink_ok senv"
  shows "\<exists>s2. sampler_stop senv s1 = (s2, None) \<and> as_austin s2 = None \<and> \<not> as_health_timer s2 \<and>
    as_nsenter_wrapper s2 = None \<and> file_names s2 = file_names s \<and>
    (\<exists>call. as_calls s2 = as_calls s1 @ [call, AustinJoin] \<and> call \<in> {AustinTerminate, AustinKillpg})"
proof -
  obtain s0 wrapped pid tid where en: "enter_namespaces env s = (s0, Inr (wrapped, pid, tid))"
    and s1: "s1 = s0\<lparr>as_austin := Some (LoopspyAustin tid wrapped), as_health_timer := True,
           as_calls := as_calls s0 @ [AustinStart (austin_arguments (as_interval_us s0) pid)]\<rparr>"
    using sampler_start_ok [OF assms(1,2)] by blast
  obtain x where t: "austin_terminate senv (LoopspyAustin tid wrapped) =
      ([if wrapped then AustinKillpg else AustinTerminate], x)" "not_Exception x = None"
    using austin_terminate_ok [of senv "LoopspyAustin tid wrapped"] assms(5,6) by (auto simp: LoopspyAustin_def)
  have j: "not_Exception (se_join senv) = None"
    using assms(5) by (intro not_Exception_None) blast
  show ?thesis
  proof (cases "in_same_mount_ns (sv_procfs env) (as_pid s)")
    case True
    with enter_namespaces_ok [OF en] have "s0 = s" by simp
    with assms(3) t j show ?thesis
      by (simp add: sampler_stop_def s1 Let_def cleanup_nsenter_wrapper_def file_names_def)
  next
    case False
    with enter_namespaces_ok [OF en] obtain w content where "we_mkstemp (sv_wrapper env) = Inr w"
      and s0: "s0 = s\<lparr>as_files := as_files s @ [WrapperFile w content], as_nsenter_wrapper := Some w\<rparr>"
      by auto
    then have "w \<notin> set (file_names s)"
      using assms(4) by blast
    then have "filter (\<lambda>f. wf_name f \<noteq> w) (as_files s) = as_files s"
      by (auto simp: file_names_def filter_id_conv)
    with t j assms(7) show ?thesis
      by (simp add: sampler_stop_def s1 s0 Let_def cleanup_nsenter_wrapper_def file_names_def)
  qed
qed

text \<open>A start that fails with an \<open>Exception\<close> of Austin leaves no sampler running and no wrapper
  file behind. An \<open>NSpid\<close> line that is no number fails earlier, outside the handler: the wrapper
  file then stays, also after \<open>stop\<close>.\<close>

theorem sampler_failed_start:
  assumes "as_austin s = None" and "as_nsenter_wrapper s = None"
    and "\<not> in_same_mount_ns (sv_procfs env) (as_pid s)"
    and "create_nsenter_wrapper (sv_wrapper env) (as_pid s) (as_files s) = (as_files s @ [WrapperFile w content], Inr w)"
    and "w \<notin> set (file_names s)" and "sv_unlink_ok env"
  shows "(resolve_ns_pid (sv_procfs env) (as_pid s) = Inr pid \<and> resolve_ns_pid (sv_procfs env) (as_tid s) = Inr tid \<and>
      sv_start env (austin_arguments (as_interval_us s) pid) = Some e \<and> is_Exception e \<longrightarrow>
      (\<exists>s1. sampler_start env s = (s1, Some e) \<and> as_austin s1 = None \<and> file_names s1 = file_names s)) \<and>
    (resolve_ns_pid (sv_procfs env) (as_pid s) = Inl ValueError \<longrightarrow>
      (\<exists>s1. sampler_start env s = (s1, Some ValueError) \<and>
         w \<in> set (file_names (fst (sampler_stop senv s1)))))"
proof -
  have "filter (\<lambda>f. wf_name f \<noteq> w) (as_files s) = as_files s"
    using assms(5) by (auto simp: file_names_def filter_id_conv)
  then show ?thesis
    using assms by (auto simp: sampler_start_def enter_namespaces_def Let_def cleanup_nsenter_wrapper_def
        file_names_def sampler_stop_def)
qed

section \<open>Concrete runs\<close>

definition remote_fs :: procfs where
  "remote_fs = \<lparr>fs_stat = (\<lambda>p. if p = ''/proc/self/ns/mnt'' then Some (1, 1) else Some (1, 2)),
     fs_lines = (\<lambda>_. Some [nspid_line [1]])\<rparr>"

definition remote_env :: sampler_env where
  "remote_env = \<lparr>sv_procfs = remote_fs,
     sv_wrapper = \<lparr>we_which = (\<lambda>_. Some ''/usr/bin/austin''), we_glob = (\<lambda>_. []),
       we_mkstemp = Inr ''/tmp/w'', we_write = None\<rparr>,
     sv_start = (\<lambda>_. None), sv_unlink_ok = True\<rparr>"

definition new_sampler :: austin_sampler where
  "new_sampler = AustinSampler 7 50 None"

lemma remote_resolve: "resolve_ns_pid remote_fs p = Inr 1"
proof -
  have "py_int 10 (str_of_int 1) = Some 1"
    by (rule py_int_roundtrip) simp_all
  then have "first_nspid [nspid_line [1]] = Inr (Some 1)"
    by (simp add: split_ws_nspid_line)
  then show ?thesis
    by (simp add: resolve_ns_pid_def remote_fs_def)
qed

lemma new_sampler_fields [simp]:
  "as_austin new_sampler = None" "as_nsenter_wrapper new_sampler = None" "as_files new_sampler = []"
  "file_names new_sampler = []" "as_pid new_sampler = 7" "as_tid new_sampler = 7" "as_calls new_sampler = []"
  by (simp_all add: new_sampler_def AustinSampler_def file_names_def)

lemma remote_mnt: "\<not> in_same_mount_ns remote_fs 7"
  by (simp add: in_same_mount_ns_def remote_fs_def mnt_ns_path_def str_7)

lemma remote_start: "\<exists>s1. sampler_start remote_env new_sampler = (s1, None)"
  using remote_mnt
  by (simp add: sampler_start_def enter_namespaces_def remote_env_def create_nsenter_wrapper_def Let_def remote_resolve)

lemma sampler_start_targets_witness:
  "\<exists>s1 a. sampler_start remote_env new_sampler = (s1, None) \<and> as_austin s1 = Some a \<and> la_tid a = 1"
proof -
  obtain s1 where st: "sampler_start remote_env new_sampler = (s1, None)"
    using remote_start by blast
  from sampler_start_targets [OF st] remote_mnt st show ?thesis
    by (auto simp: remote_env_def remote_resolve)
qed

definition noisy_stop :: stop_env where
  "noisy_stop = \<lparr>se_has_proc = True, se_terminate = Some AustinError, se_killpg = Some ProcessLookupError,
     se_join = Some ValueError, se_unlink_ok = True\<rparr>"

lemma sampler_stop_restores_witness:
  "\<exists>s1 s2. sampler_start remote_env new_sampler = (s1, None) \<and> sampler_stop noisy_stop s1 = (s2, None) \<and>
     file_names s2 = []"
proof -
  obtain s1 where st: "sampler_start remote_env new_sampler = (s1, None)"
    using remote_start by blast
  from sampler_stop_restores [OF st, of noisy_stop] st show ?thesis
    by (auto simp: noisy_stop_def)
qed

lemma sampler_failed_start_witness:
  "\<exists>s1. sampler_start (remote_env\<lparr>sv_start := (\<lambda>_. Some AustinError)\<rparr>) new_sampler = (s1, Some AustinError) \<and>
     file_names s1 = []"
proof -
  have "create_nsenter_wrapper (sv_wrapper remote_env) 7 [] =
      ([] @ [WrapperFile ''/tmp/w'' (join newline (wrapper_lines ''/usr/bin/austin'' None 7) @ newline)], Inr ''/tmp/w'')"
    by (simp add: create_nsenter_wrapper_def remote_env_def find_musl_linker_def Let_def)
  with remote_mnt sampler_failed_start [THEN conjunct1, of new_sampler "remote_env\<lparr>sv_start := (\<lambda>_. Some AustinError)\<rparr>"
      "''/tmp/w''" _ 1 1 AustinError] show ?thesis
    by (auto simp: remote_env_def remote_resolve)
qed

end
