(* ===== verification/Cli.thy ===== *)
theory Cli
  imports Backends RunLoop Reporter Stats Sampler
begin

text \<open>
  The command line of \<open>blocksnoop/cli.py\<close> after argument parsing: resolving the target, checking
  the environment, building sinks, wiring the pipeline into the run loop, and the exit status.
  The \<open>argparse\<close> namespace is a record; what the operating system answers is an argument.
\<close>

section \<open>Arguments\<close>

record cli_args =
  ar_target :: "string option"
  ar_command :: "string list"
  ar_threshold :: "rat option"
  ar_stats :: bool
  ar_tid :: "int option"
  ar_backend :: string
  ar_json_mode :: bool
  ar_log_file :: "string option"
  ar_service :: string
  ar_env :: string
  ar_no_color :: bool
  ar_summary_only :: bool
  ar_error_threshold :: rat
  ar_correlation_padding :: rat
  ar_fail_on :: string
  ar_fail_on_loss :: bool

definition resolved_threshold :: "cli_args \<Rightarrow> rat" where
  "resolved_threshold args =
     (case ar_threshold args of Some t \<Rightarrow> t | None \<Rightarrow> if ar_stats args then 0 else 100)"

definition resolve_target :: "cli_args \<Rightarrow> int option \<times> string list" where
  "resolve_target args =
     (let command = (case ar_command args of [] \<Rightarrow> [] | c # cs \<Rightarrow> if c = ''--'' then cs else c # cs)
      in case ar_target args of
           None \<Rightarrow> (None, command)
         | Some t \<Rightarrow> (case py_int 10 t of Some pid \<Rightarrow> (Some pid, command) | None \<Rightarrow> (None, t # command)))"

section \<open>The environment\<close>

record cli_env =
  ce_euid :: int
  ce_host :: host_env
  ce_bcc_importable :: bool

text \<open>Each failed check prints its message and exits with status 1.\<close>

definition validate_environment :: "cli_env \<Rightarrow> bool \<Rightarrow> string \<Rightarrow> exn option" where
  "validate_environment env stats_mode backend =
     (if ce_euid env \<noteq> 0 then Some (SystemExit 1)
      else if \<not> stats_mode \<and> \<not> check_austin_available (env_which (ce_host env)) then Some (SystemExit 1)
      else case validate_backend_available (ce_bcc_importable env) (ce_host env) backend of
             Some e \<Rightarrow> if is_RuntimeError e then Some (SystemExit 1) else Some e
           | None \<Rightarrow> None)"

text \<open>\<open>open_log\<close> is the outcome of opening the log file.\<close>

definition build_sinks :: "(string \<Rightarrow> exn option) \<Rightarrow> cli_args \<Rightarrow> sink list result" where
  "build_sinks open_log args =
     (let first = (if ar_json_mode args then JsonStream (JsonStreamSink (ar_error_threshold args))
                   else Console (ConsoleSink (Some (\<not> ar_no_color args)) False (ar_error_threshold args)
                          (ar_summary_only args)))
      in case ar_log_file args of
           None \<Rightarrow> Inr [first]
         | Some path \<Rightarrow>
             if path = [] then Inr [first]
             else case open_log path of
                    Some e \<Rightarrow> Inl e
                  | None \<Rightarrow> Inr [first, JsonFile (JsonFileSink (ar_service args) (ar_env args) (ar_error_threshold args))])"

definition loss_warning :: "detector \<Rightarrow> string option" where
  "loss_warning d =
     (let losses = detector_loss_counts d;
          total = sum_list (dict_values losses)
      in if total \<noteq> 0
         then Some (''warning: detector lost '' @ str_of_int total @ '' events (''
                @ join '', '' (map (\<lambda>kv. fst kv @ ''='' @ str_of_int (snd kv)) (sort_key fst losses)) @ '')'')
         else None)"

definition normalise_child_returncode :: "int \<Rightarrow> int" where
  "normalise_child_returncode returncode = (if returncode < 0 then 128 - returncode else returncode)"

section \<open>The pipeline inside the run loop\<close>

text \<open>A sequence of calls as one call: it stops at the first that does not return.\<close>

fun in_sequence :: "outcome list \<Rightarrow> outcome" where
  "in_sequence [] = Returns"
| "in_sequence (r # rs) = (case r of Returns \<Rightarrow> in_sequence rs | _ \<Rightarrow> r)"

fun calls_made :: "'a list \<Rightarrow> outcome list \<Rightarrow> 'a list" where
  "calls_made (a # as) (r # rs) = a # (case r of Returns \<Rightarrow> calls_made as rs | _ \<Rightarrow> [])"
| "calls_made _ _ = []"

datatype part = PartReporter | PartSampler | PartDetector | PartCollector

definition normal_start_parts :: "part list" where
  "normal_start_parts = [PartReporter, PartSampler, PartDetector]"

definition normal_stop_parts :: "part list" where
  "normal_stop_parts = [PartDetector, PartSampler]"

definition stats_start_parts :: "part list" where
  "stats_start_parts = [PartCollector, PartDetector]"

definition stats_stop_parts :: "part list" where
  "stats_stop_parts = [PartDetector, PartCollector]"

text \<open>What the world does in one session: the outcomes of starting and stopping each part, the turns
  of the loop, reaping the child, and the exit callback.\<close>

record session_world =
  sw_child :: "proc_script option"
  sw_install :: outcome
  sw_start :: "part \<Rightarrow> outcome"
  sw_stop :: "part \<Rightarrow> outcome"
  sw_turns :: "turn list"
  sw_reap :: outcome
  sw_exit :: outcome

definition session_script :: "part list \<Rightarrow> part list \<Rightarrow> session_world \<Rightarrow> loop_script" where
  "session_script starts stops w =
     \<lparr>ls_child = sw_child w, ls_install = sw_install w,
      ls_start = in_sequence (map (sw_start w) starts), ls_turns = sw_turns w, ls_reap = sw_reap w,
      ls_stop = in_sequence (map (sw_stop w) stops), ls_exit = sw_exit w\<rparr>"

definition run_stats :: "session_world \<Rightarrow> loop_result" where
  "run_stats w = run_loop (session_script stats_start_parts stats_stop_parts w)"

definition run_normal :: "session_world \<Rightarrow> loop_result" where
  "run_normal w = run_loop (session_script normal_start_parts normal_stop_parts w)"

text \<open>\<open>_on_exit\<close> of the normal mode: the summary with the reason and the losses, then closing.\<close>

definition on_exit_normal ::
  "clock \<Rightarrow> rat \<Rightarrow> detector \<Rightarrow> string \<Rightarrow> reporter \<Rightarrow> reporter \<times> exn option" where
  "on_exit_normal clk start_time d termination_reason r =
     (case rp_summary clk (fsub (monotonic clk) start_time) (detector_loss_counts d) termination_reason r of
        (r', None) \<Rightarrow> (rp_close r', None)
      | (r', Some e) \<Rightarrow> (r', Some e))"

definition normal_config :: "cli_args \<Rightarrow> int \<Rightarrow> detector_config" where
  "normal_config args pid =
     DetectorConfig pid (resolved_threshold args) (ar_tid args) (ar_correlation_padding args)"

definition normal_reporter :: "cli_args \<Rightarrow> int \<Rightarrow> sink list \<Rightarrow> rat \<Rightarrow> string \<Rightarrow> reporter" where
  "normal_reporter args pid sinks now uuid =
     Reporter sinks (Some (ar_backend args)) (Some (resolved_threshold args)) (Some pid)
       (cfg_tid (normal_config args pid)) (ar_error_threshold args) (ar_summary_only args) now uuid"

definition normal_sampler :: "cli_args \<Rightarrow> int \<Rightarrow> austin_sampler" where
  "normal_sampler args pid =
     AustinSampler pid (cfg_sample_interval_ms (normal_config args pid)) (cfg_tid (normal_config args pid))"

definition normal_padding_ns :: "cli_args \<Rightarrow> int" where
  "normal_padding_ns args = trunc (fmul (ar_correlation_padding args) 1000000)"

section \<open>main\<close>

text \<open>Where the standard output of a launched program goes: with \<open>--json\<close> to the standard error of blocksnoop.\<close>

datatype stdout_target = Inherited | ToStderr

definition child_stdout :: "cli_args \<Rightarrow> stdout_target" where
  "child_stdout args = (if ar_json_mode args then ToStderr else Inherited)"

text \<open>What \<open>main\<close> sees besides: opening the log file, what \<open>subprocess.Popen\<close> makes of a command and a
  standard output (the pid of the process and how it behaves, or an exception), the session worlds of both modes for the launched child, and the reporter as
  the session leaves it. \<open>MainRunning\<close>: the session has not ended.\<close>

record main_world =
  mw_env :: cli_env
  mw_open_log :: "string \<Rightarrow> exn option"
  mw_popen :: "string list \<Rightarrow> stdout_target \<Rightarrow> (int \<times> proc_script) result"
  mw_session :: "proc_script option \<Rightarrow> session_world"
  mw_reporter :: "sink list \<Rightarrow> int \<Rightarrow> reporter"

datatype main_result =
    MainRunning
  | MainEnds (main_exit: "exn option") (main_loop: "action list option")

text \<open>The two handlers around the session turn a detector error into exit status 1.\<close>

fun detector_exit :: "exn \<Rightarrow> exn" where
  "detector_exit (CoreDetectorError m) = SystemExit 1"
| "detector_exit (BccDetectorError m) = SystemExit 1"
| "detector_exit e = e"

definition after_session :: "cli_args \<Rightarrow> int option \<Rightarrow> reporter option \<Rightarrow> exn option" where
  "after_session args child_returncode rep =
     (case child_returncode of
        Some rc \<Rightarrow>
          if rc \<noteq> 0 then Some (SystemExit (normalise_child_returncode rc))
          else (case rep of
                  Some r \<Rightarrow> if policy_failed (ar_fail_on args) (ar_fail_on_loss args) r then Some (SystemExit 3) else None
                | None \<Rightarrow> None)
      | None \<Rightarrow>
          (case rep of
             Some r \<Rightarrow> if policy_failed (ar_fail_on args) (ar_fail_on_loss args) r then Some (SystemExit 3) else None
           | None \<Rightarrow> None))"

definition end_session :: "cli_args \<Rightarrow> reporter option \<Rightarrow> loop_result \<Rightarrow> main_result" where
  "end_session args rep res =
     (case res of
        StillRunning _ \<Rightarrow> MainRunning
      | Escaped e tr \<Rightarrow> MainEnds (Some (detector_exit e)) (Some tr)
      | Returned rc tr \<Rightarrow> MainEnds (after_session args rc rep) (Some tr))"

definition run_session :: "main_world \<Rightarrow> cli_args \<Rightarrow> int \<Rightarrow> proc_script option \<Rightarrow> main_result" where
  "run_session mw args pid child =
     (if ar_stats args
      then (case create_detector (ar_backend args) (DetectorConfig pid (resolved_threshold args) (ar_tid args) 200) of
              Inl e \<Rightarrow> MainEnds (Some (detector_exit e)) None
            | Inr _ \<Rightarrow> end_session args None (run_stats ((mw_session mw child)\<lparr>sw_child := child\<rparr>)))
      else (case build_sinks (mw_open_log mw) args of
              Inl e \<Rightarrow> MainEnds (Some (detector_exit e)) None
            | Inr sinks \<Rightarrow>
                (case create_detector (ar_backend args) (normal_config args pid) of
                   Inl e \<Rightarrow> MainEnds (Some (detector_exit e)) None
                 | Inr _ \<Rightarrow> end_session args (Some (mw_reporter mw sinks pid))
                             (run_normal ((mw_session mw child)\<lparr>sw_child := child\<rparr>)))))"

text \<open>\<open>main\<close> without the \<open>doctor\<close> branch. \<open>parser.error\<close> exits with status 2.\<close>

definition main :: "main_world \<Rightarrow> cli_args \<Rightarrow> main_result" where
  "main mw args =
     (if ar_stats args \<and> (ar_fail_on args \<noteq> ''none'' \<or> ar_fail_on_loss args)
      then MainEnds (Some (SystemExit 2)) None
      else
        let (target_pid, command) = resolve_target args in
        case validate_environment (mw_env mw) (ar_stats args) (ar_backend args) of
          Some e \<Rightarrow> MainEnds (Some e) None
        | None \<Rightarrow>
            if command \<noteq> []
            then (case mw_popen mw command (child_stdout args) of
                    Inl e \<Rightarrow> MainEnds (Some e) None
                  | Inr (pid, p) \<Rightarrow> run_session mw args pid (Some p))
            else (case target_pid of
                    None \<Rightarrow> MainEnds (Some (SystemExit 1)) None
                  | Some pid \<Rightarrow> run_session mw args pid None))"

section \<open>How sessions end\<close>

lemma returned_possible:
  assumes "run_loop w = Returned rc tr"
  shows "\<exists>code. rc = Some code \<and> ls_child w \<noteq> None \<and> (\<exists>t \<in> set (ls_turns w). tn_exited t = Some code) \<and>
    OnExit (if code = 0 then ''clean'' else ''child_exit'') \<in> set tr"
proof -
  have inst: "\<forall>e. ls_install w \<noteq> Raises e"
    using assms by (auto simp: run_loop_def call_def)
  then obtain x where x: "ends_with w x (run_loop w)"
    using run_loop_ends [OF inst] assms by auto
  then obtain code where code: "x = Exited code" "rc = Some code" "cleanup_error w = None"
    by (cases x) (auto simp: ends_with_def assms split: option.splits)
  have "raised_in_cleanup (ls_stop w) = None"
    using code(3) by (auto simp: cleanup_error_def or_else_def split: option.splits)
  then have "OnExit (reason_of x) \<in> set tr"
    using x ends_with_trace [OF x] assms final_trace_OnExit [of w x tr]
    by (auto simp: effective_reason_def)
  with x code show ?thesis
    by (auto simp: ends_with_def possible_def reason_of_def)
qed

lemma session_script_fields [simp]:
  "ls_child (session_script ps qs w) = sw_child w" "ls_turns (session_script ps qs w) = sw_turns w"
  "ls_install (session_script ps qs w) = sw_install w" "ls_reap (session_script ps qs w) = sw_reap w"
  "ls_exit (session_script ps qs w) = sw_exit w"
  by (simp_all add: session_script_def)

lemma after_session_None:
  "after_session args rc rep = None \<Longrightarrow>
   (rc = None \<or> rc = Some 0) \<and> (\<forall>r. rep = Some r \<longrightarrow> \<not> policy_failed (ar_fail_on args) (ar_fail_on_loss args) r)"
  by (auto simp: after_session_def split: option.splits if_splits)

section \<open>Properties\<close>

text \<open>C14: \<open>main\<close> ends without an exit status only for a command it launched, when that command exited
  with status 0, the session was concluded as \<open>clean\<close>, and, in the normal mode, the policy did not
  fail: success is never reported for an interrupted, failed or unlaunched session.\<close>

theorem main_success_truthful:
  assumes "main mw args = MainEnds None lp"
  shows "snd (resolve_target args) \<noteq> [] \<and>
    (\<exists>pid p tr. mw_popen mw (snd (resolve_target args)) (child_stdout args) = Inr (pid, p) \<and> lp = Some tr \<and> OnExit ''clean'' \<in> set tr \<and>
      (\<exists>t \<in> set (sw_turns (mw_session mw (Some p))). tn_exited t = Some 0) \<and>
      (\<not> ar_stats args \<longrightarrow> (\<exists>sinks. build_sinks (mw_open_log mw) args = Inr sinks \<and>
         \<not> policy_failed (ar_fail_on args) (ar_fail_on_loss args) (mw_reporter mw sinks pid))))"
proof -
  obtain target command where rt: "resolve_target args = (target, command)"
    by fastforce
  have es: "\<exists>rc tr. res = Returned rc tr \<and> lp = Some tr \<and> after_session args rc rep = None"
    if "end_session args rep res = MainEnds None lp" for rep res
    using that by (cases res) (auto simp: end_session_def)
  have rs: "child \<noteq> None \<and> (\<exists>tr. lp = Some tr \<and> OnExit ''clean'' \<in> set tr \<and>
      (\<exists>t \<in> set (sw_turns (mw_session mw child)). tn_exited t = Some 0) \<and>
      (\<not> ar_stats args \<longrightarrow> (\<exists>sinks. build_sinks (mw_open_log mw) args = Inr sinks \<and>
         \<not> policy_failed (ar_fail_on args) (ar_fail_on_loss args) (mw_reporter mw sinks pid))))"
    if "run_session mw args pid child = MainEnds None lp" for pid child
  proof (cases "ar_stats args")
    case True
    with that have "end_session args None (run_stats ((mw_session mw child)\<lparr>sw_child := child\<rparr>)) = MainEnds None lp"
      by (auto simp: run_session_def split: sum.splits)
    from es [OF this] obtain rc tr where r: "run_stats ((mw_session mw child)\<lparr>sw_child := child\<rparr>) = Returned rc tr"
      "lp = Some tr" "after_session args rc None = None"
      by blast
    from returned_possible [OF r(1) [unfolded run_stats_def]] after_session_None [OF r(3)] True r(2) show ?thesis
      by auto
  next
    case False
    with that obtain sinks where sinks: "build_sinks (mw_open_log mw) args = Inr sinks"
      and "end_session args (Some (mw_reporter mw sinks pid))
        (run_normal ((mw_session mw child)\<lparr>sw_child := child\<rparr>)) = MainEnds None lp"
      by (auto simp: run_session_def split: sum.splits)
    from es [OF this(2)] obtain rc tr where r: "run_normal ((mw_session mw child)\<lparr>sw_child := child\<rparr>) = Returned rc tr"
      "lp = Some tr" "after_session args rc (Some (mw_reporter mw sinks pid)) = None"
      by blast
    from returned_possible [OF r(1) [unfolded run_normal_def]] after_session_None [OF r(3)] sinks r(2) show ?thesis
      by auto
  qed
  show ?thesis
    using assms rs by (auto simp: main_def rt Let_def split: if_splits option.splits sum.splits prod.splits)
qed

text \<open>C25: A child that ends with a non-zero status decides the exit status of \<open>main\<close>, whatever the
  policy says: its own code, or 128 plus the number of the signal that killed it.\<close>

theorem main_child_status:
  assumes "main mw args = MainEnds x (Some tr)" and "OnExit ''child_exit'' \<in> set tr"
    and "mw_popen mw (snd (resolve_target args)) (child_stdout args) = Inr (pid, p)" and "snd (resolve_target args) \<noteq> []"
    and "sw_exit (mw_session mw (Some p)) = Returns" and "proc_failures_caught p"
    and "\<forall>e. sw_install (mw_session mw (Some p)) \<noteq> Raises e"
  shows "\<exists>t \<in> set (sw_turns (mw_session mw (Some p))). \<exists>code. tn_exited t = Some code \<and> code \<noteq> 0 \<and>
    x = Some (SystemExit (if code < 0 then 128 + \<bar>code\<bar> else code))"
proof -
  define ps where "ps = (if ar_stats args then stats_start_parts else normal_start_parts)"
  define qs where "qs = (if ar_stats args then stats_stop_parts else normal_stop_parts)"
  define w where "w = session_script ps qs ((mw_session mw (Some p))\<lparr>sw_child := Some p\<rparr>)"
  obtain target command where rt: "resolve_target args = (target, command)"
    by fastforce
  have "run_session mw args pid (Some p) = MainEnds x (Some tr)"
    using assms(1,3,4)
    by (auto simp: main_def rt Let_def split: if_splits option.splits)
  then obtain rep where es: "end_session args rep (run_loop w) = MainEnds x (Some tr)"
    by (auto simp: run_session_def run_stats_def run_normal_def w_def ps_def qs_def split: sum.splits if_splits)
  have inst: "\<forall>e. ls_install w \<noteq> Raises e"
    using assms(7) by (simp add: w_def)
  have "\<not> is_running (run_loop w)"
    using es by (cases "run_loop w") (auto simp: end_session_def)
  from run_loop_ends [OF inst this] obtain y where y: "ends_with w y (run_loop w)"
    by blast
  have "final_trace w y tr"
    using es ends_with_trace [OF y] by (cases "run_loop w") (auto simp: end_session_def)
  then have reason: "effective_reason w (reason_of y) = ''child_exit''"
    using assms(2) final_trace_OnExit by metis
  then have stop: "raised_in_cleanup (ls_stop w) = None"
    by (auto simp: effective_reason_def split: if_splits)
  moreover have "snd (stop_child (ls_child w)) = None"
    using terminate_or_kill_silent [OF assms(6)] by (simp add: w_def stop_child_def)
  ultimately have ce: "cleanup_error w = None"
    using assms(5) by (simp add: cleanup_error_def) (simp add: w_def)
  from reason stop obtain code where code: "y = Exited code" "code \<noteq> 0"
    by (cases y) (auto simp: effective_reason_def reason_of_def split: if_splits)
  then have "\<exists>t \<in> set (ls_turns w). tn_exited t = Some code" and "\<exists>tr. run_loop w = Returned (Some code) tr"
    using y ce by (auto simp: ends_with_def possible_def)
  moreover from this(2) have "x = Some (SystemExit (if code < 0 then 128 + \<bar>code\<bar> else code))"
    using es code(2) by (auto simp: end_session_def after_session_def normalise_child_returncode_def)
  ultimately show ?thesis
    using code(2) by (auto simp: w_def simp del: split_paired_Ex if_split)
qed

text \<open>With a process id as the target the policy is never consulted: such a session can only end
  in an exception, so \<open>main\<close> leaves with the exit status of the signal or the error, never through
  the policy.\<close>

theorem main_attached_skips_policy:
  assumes "main mw args = MainEnds x (Some tr)" and "snd (resolve_target args) = []"
  shows "\<exists>e pid w. run_loop w = Escaped e tr \<and> ls_child w = None \<and> x = Some (detector_exit e) \<and>
    fst (resolve_target args) = Some pid"
proof -
  obtain target where rt: "resolve_target args = (target, [])"
    using assms(2) by (cases "resolve_target args") simp
  then obtain pid where pid: "target = Some pid" and "run_session mw args pid None = MainEnds x (Some tr)"
    using assms(1) by (auto simp: main_def Let_def split: if_splits option.splits)
  then obtain rep w where w: "end_session args rep (run_loop w) = MainEnds x (Some tr)" "ls_child w = None"
    by (auto simp: run_session_def run_stats_def run_normal_def split: sum.splits if_splits)
  then show ?thesis
    using returned_possible [of w] rt pid by (cases "run_loop w") (auto simp: end_session_def)
qed

text \<open>When the log file of the normal mode cannot be opened, the command has already been launched
  but the run loop is never entered: \<open>main\<close> ends with the error and nothing stops the child.\<close>

theorem main_log_error_leaves_child:
  assumes "\<not> ar_stats args" and "snd (resolve_target args) \<noteq> []"
    and "validate_environment (mw_env mw) False (ar_backend args) = None"
    and "mw_popen mw (snd (resolve_target args)) (child_stdout args) = Inr (pid, p)"
    and "ar_log_file args = Some path" "path \<noteq> []" "mw_open_log mw path = Some e"
  shows "main mw args = MainEnds (Some (detector_exit e)) None"
proof -
  have "build_sinks (mw_open_log mw) args = Inl e"
    using assms(5-7) by (simp add: build_sinks_def Let_def)
  with assms(1-4) show ?thesis
    by (cases "resolve_target args") (simp add: main_def run_session_def)
qed

text \<open>The target of the command line: a text that reads as an integer is the process id to attach
  to, any other text is the first word of the command; a separating \<open>--\<close> is dropped once.\<close>

theorem resolve_target_cases:
  "(\<bar>pid\<bar> < 10 ^ max_str_digits \<longrightarrow>
      resolve_target (args\<lparr>ar_target := Some (str_of_int pid), ar_command := []\<rparr>) = (Some pid, [])) \<and>
   (py_int 10 word = None \<longrightarrow>
      resolve_target (args\<lparr>ar_target := Some word, ar_command := rest\<rparr>) =
        (None, word # (if rest \<noteq> [] \<and> hd rest = ''--'' then tl rest else rest))) \<and>
   resolve_target (args\<lparr>ar_target := None, ar_command := ''--'' # rest\<rparr>) = (None, rest)"
  by (cases rest) (auto simp: resolve_target_def py_int_roundtrip)

section \<open>A concrete command line\<close>

definition example_args :: cli_args where
  "example_args = \<lparr>ar_target = None, ar_command = [''--'', ''app''], ar_threshold = None, ar_stats = True,
     ar_tid = None, ar_backend = ''core'', ar_json_mode = True, ar_log_file = None, ar_service = ''blocksnoop'',
     ar_env = [], ar_no_color = False, ar_summary_only = False, ar_error_threshold = 500,
     ar_correlation_padding = 200, ar_fail_on = ''none'', ar_fail_on_loss = False\<rparr>"

definition root_env :: cli_env where
  "root_env = \<lparr>ce_euid = 0,
     ce_host = \<lparr>env_BLOCKSNOOP_EBPF = None, env_platform = ''linux'', env_which = (\<lambda>_. Some ''/usr/bin/austin''),
       env_packaged = ''sidecar'', env_packaged_is_file = True, env_packaged_executable = True\<rparr>,
     ce_bcc_importable = False\<rparr>"

definition child_world :: "int \<Rightarrow> session_world" where
  "child_world code = \<lparr>sw_child = None, sw_install = Returns, sw_start = (\<lambda>_. Returns), sw_stop = (\<lambda>_. Returns),
     sw_turns = [\<lparr>tn_exited = Some code, tn_health = Returns, tn_sleep = Returns\<rparr>],
     sw_reap = Returns, sw_exit = Returns\<rparr>"

definition signal_world :: session_world where
  "signal_world = (child_world 0)\<lparr>sw_turns := [\<lparr>tn_exited = None, tn_health = Returns, tn_sleep = Signal 2\<rparr>]\<rparr>"

definition example_main :: "int \<Rightarrow> main_world" where
  "example_main code = \<lparr>mw_env = root_env, mw_open_log = (\<lambda>_. Some OSError), mw_popen = (\<lambda>_ _. Inr (9, example_child)),
     mw_session = (\<lambda>_. child_world code), mw_reporter = (\<lambda>sinks pid. example_reporter)\<rparr>"

lemma root_env_ok: "validate_environment root_env stats ''core'' = None"
  by (simp add: validate_environment_def root_env_def check_austin_available_def validate_backend_available_def
      find_sidecar_def packaged_sidecar_def)

lemma example_resolved: "resolve_target example_args = (None, [''app''])"
  by (simp add: resolve_target_def example_args_def)

lemmas main_eval = main_def example_resolved run_session_def run_stats_def end_session_def session_script_def
  child_world_def stats_start_parts_def stats_stop_parts_def loop_eval create_detector_def after_session_def
  normalise_child_returncode_def

lemma example_args_fields [simp]:
  "ar_stats example_args" "ar_backend example_args = ''core''" "ar_fail_on example_args = ''none''"
  "\<not> ar_fail_on_loss example_args"
  by (simp_all add: example_args_def)

lemma example_main_run:
  "main (example_main code) example_args =
   MainEnds (if code = 0 then None else Some (SystemExit (normalise_child_returncode code)))
     (Some [InstallHandlers, CallStart, PollChild, ReapChild, CallStop,
       OnExit (if code = 0 then ''clean'' else ''child_exit''), StopChild [Poll, Wait], RestoreHandlers])"
  by (simp add: main_eval example_main_def root_env_ok)

lemma main_success_truthful_witness:
  "main (example_main 0) example_args \<noteq> MainRunning \<and>
   (\<exists>t \<in> set (sw_turns (child_world 0)). tn_exited t = Some 0)"
proof -
  have "main (example_main 0) example_args = MainEnds None
     (Some [InstallHandlers, CallStart, PollChild, ReapChild, CallStop,
       OnExit ''clean'', StopChild [Poll, Wait], RestoreHandlers])"
    by (simp add: example_main_run)
  from main_success_truthful [OF this] this show ?thesis
    by (auto simp: example_main_def)
qed

lemma main_child_status_witness:
  "\<exists>tr. main (example_main (-9)) example_args = MainEnds (Some (SystemExit 137)) (Some tr) \<and>
     (\<exists>t \<in> set (sw_turns (child_world (-9))). \<exists>code. tn_exited t = Some code \<and> code \<noteq> 0 \<and>
        Some (SystemExit 137) = Some (SystemExit (if code < 0 then 128 + \<bar>code\<bar> else code)))"
proof -
  obtain tr where m: "main (example_main (-9)) example_args = MainEnds (Some (SystemExit 137)) (Some tr)"
    "OnExit ''child_exit'' \<in> set tr"
    by (simp add: example_main_run normalise_child_returncode_def)
  have "proc_failures_caught example_child"
    by (simp add: proc_failures_caught_def example_child_def)
  with main_child_status [OF m, of 9 example_child] m show ?thesis
    by (simp add: example_main_def example_resolved child_world_def)
qed

definition attach_args :: cli_args where
  "attach_args = example_args\<lparr>ar_target := Some ''7'', ar_command := []\<rparr>"

lemma attach_resolved: "resolve_target attach_args = (Some 7, [])"
proof -
  have "py_int 10 ''7'' = Some 7"
    by code_simp
  then show ?thesis
    by (simp add: resolve_target_def attach_args_def)
qed

lemma main_attached_skips_policy_witness:
  "\<exists>w e tr. run_loop w = Escaped e tr \<and> ls_child w = None \<and> detector_exit e = SystemExit 130"
proof -
  have "ar_stats attach_args" "ar_backend attach_args = ''core''" "ar_fail_on attach_args = ''none''"
    "\<not> ar_fail_on_loss attach_args"
    by (simp_all add: attach_args_def)
  then have "\<exists>tr. main ((example_main 0)\<lparr>mw_session := (\<lambda>_. signal_world)\<rparr>) attach_args =
      MainEnds (Some (SystemExit 130)) (Some tr)"
    by (simp add: main_def attach_resolved run_session_def run_stats_def end_session_def session_script_def
        signal_world_def child_world_def stats_start_parts_def stats_stop_parts_def loop_eval create_detector_def
        example_main_def root_env_ok)
  then obtain tr where m: "main ((example_main 0)\<lparr>mw_session := (\<lambda>_. signal_world)\<rparr>) attach_args =
      MainEnds (Some (SystemExit 130)) (Some tr)"
    by blast
  have "snd (resolve_target attach_args) = []"
    by (simp add: attach_resolved)
  from main_attached_skips_policy [OF m this] obtain e w where
    "run_loop w = Escaped e tr" "ls_child w = None" "detector_exit e = SystemExit 130"
    by auto
  then show ?thesis by blast
qed

lemma main_log_error_leaves_child_witness:
  "main (example_main 0) (example_args\<lparr>ar_stats := False, ar_log_file := Some ''/x''\<rparr>) =
   MainEnds (Some OSError) None"
  using main_log_error_leaves_child
    [of "example_args\<lparr>ar_stats := False, ar_log_file := Some ''/x''\<rparr>" "example_main 0" 9 example_child "''/x''" OSError]
    example_resolved root_env_ok
  by (simp add: example_main_def resolve_target_def)

lemma resolve_target_cases_witness:
  "resolve_target (example_args\<lparr>ar_target := Some (str_of_int 7), ar_command := []\<rparr>) = (Some 7, [])"
proof -
  have "(7 :: int) < 10 ^ max_str_digits"
    by (rule less_le_trans [of _ "10 ^ 1"], simp, rule power_increasing) (simp_all add: max_str_digits_def)
  then show ?thesis
    using resolve_target_cases [of 7 example_args "[]" "[]"] by simp
qed

end
