(* ===== verification/CoreProtocol.thy ===== *)
theory CoreProtocol
  imports CoreBackend
begin

text \<open>
  What the Core detector promises: the handshake, the delivered events, the loss ledger, the error
  state, start and stop. Each property is about runs of the operations of \<open>CoreBackend\<close>.
\<close>

section \<open>Events and losses\<close>

text \<open>A valid event message, field by field, and the event it tells of: of protocol version 2 (JSON does not
  tell \<open>2\<close> from \<open>2.0\<close>), with a well-ordered span of non-negative times, which may be empty, and the
  process, the thread and the PID namespace of the target. Further fields do not matter.\<close>

definition valid_event_message :: "json_obj \<Rightarrow> core_detector \<Rightarrow> blocking_event \<Rightarrow> bool" where
  "valid_event_message m d e \<longleftrightarrow>
     (dict_get m ''version'' = Some (JInt 2) \<or> dict_get m ''version'' = Some (JFloat 2)) \<and>
     dict_get m ''type'' = Some (JStr ''event'') \<and>
     dict_get m ''start_ns'' = Some (JInt (start_ns e)) \<and> dict_get m ''end_ns'' = Some (JInt (end_ns e)) \<and>
     0 \<le> start_ns e \<and> start_ns e \<le> end_ns e \<and>
     dict_get m ''pid'' = Some (JInt (ev_pid e)) \<and> ev_pid e = cd_expected_pid d \<and>
     dict_get m ''tid'' = Some (JInt (ev_tid e)) \<and> Some (ev_tid e) = cd_expected_tid d \<and>
     (\<exists>dev ino. dict_get m ''pidns_dev'' = Some (JInt dev) \<and> cd_pidns_dev d = Some dev \<and>
        dict_get m ''pidns_ino'' = Some (JInt ino) \<and> cd_pidns_ino d = Some ino) \<and>
     python_stacks e = []"

text \<open>The events that lines tell of, in their order; every other line tells of none.\<close>

inductive tells :: "core_detector \<Rightarrow> line_input list \<Rightarrow> blocking_event list \<Rightarrow> bool" for d :: core_detector where
  nothing: "tells d [] []"
| event: "\<lbrakk>valid_event_message m d e; tells d ls es\<rbrakk> \<Longrightarrow> tells d (Parsed (JObj m) # ls) (e # es)"
| other: "\<lbrakk>\<nexists>m e. l = Parsed (JObj m) \<and> valid_event_message m d e; tells d ls es\<rbrakk> \<Longrightarrow> tells d (l # ls) es"

lemma field_JStr: "field_or_none m f = JStr s \<longleftrightarrow> dict_get m f = Some (JStr s)"
  by (auto simp: field_or_none_def dict_get_default_def dict_get_def split: option.splits)

lemma field_version:
  "eq_int (field_or_none m f) 2 \<longleftrightarrow> dict_get m f = Some (JInt 2) \<or> dict_get m f = Some (JFloat 2)"
  by (cases "dict_get m f"; cases "the (dict_get m f)")
    (auto simp: field_or_none_def dict_get_default_def dict_get_def)

lemma event_of_message_Some:
  "event_of_message m d = Some e \<longleftrightarrow>
     dict_get m ''start_ns'' = Some (JInt (start_ns e)) \<and> dict_get m ''end_ns'' = Some (JInt (end_ns e)) \<and>
     0 \<le> start_ns e \<and> start_ns e \<le> end_ns e \<and>
     dict_get m ''pid'' = Some (JInt (ev_pid e)) \<and> ev_pid e = cd_expected_pid d \<and>
     dict_get m ''tid'' = Some (JInt (ev_tid e)) \<and> Some (ev_tid e) = cd_expected_tid d \<and>
     (\<exists>dev ino. dict_get m ''pidns_dev'' = Some (JInt dev) \<and> cd_pidns_dev d = Some dev \<and>
        dict_get m ''pidns_ino'' = Some (JInt ino) \<and> cd_pidns_ino d = Some ino) \<and>
     python_stacks e = []" (is "?l \<longleftrightarrow> ?r")
proof
  assume ?l
  then show ?r
    unfolding event_of_message_def
    by (auto simp: bind_result_Inr_iff require_event_int_Inr require_pidns_Inr expects_pidns_def
        split: sum.splits prod.splits if_splits)
next
  assume r: ?r
  then obtain dev ino where f: "require_event_int m ''start_ns'' = Inr (start_ns e)" "require_event_int m ''end_ns'' = Inr (end_ns e)"
    "require_event_int m ''pid'' = Inr (ev_pid e)" "require_event_int m ''tid'' = Inr (ev_tid e)"
    "require_pidns m = Inr (dev, ino)" "expects_pidns d (dev, ino)"
    by (auto simp: require_event_int_Inr require_pidns_Inr expects_pidns_def)
  with r show ?l
    by (cases e) (auto simp: event_of_message_def)
qed

lemma event_of_line_Some:
  "event_of_line l d = Some e \<longleftrightarrow> (\<exists>m. l = Parsed (JObj m) \<and> valid_event_message m d e)"
  unfolding event_of_line_def bind_eq_Some_conv event_of_message_Some valid_event_message_def
  by (auto simp: typed_message_def message_of_line_def PROTOCOL_VERSION_def field_version field_JStr
      split: line_input.splits json.splits option.splits if_splits)

lemma tells_events_in: "tells d (lines_of is) (events_in is d)"
proof (induction "is" rule: lines_of.induct)
  case (2 l "is")
  show ?case
  proof (cases "event_of_line l d")
    case None
    then have "\<nexists>m e. l = Parsed (JObj m) \<and> valid_event_message m d e"
      using event_of_line_Some [of l d] by auto
    then show ?thesis
      using 2 None by (simp add: tells.other)
  next
    case (Some e)
    then obtain m where "l = Parsed (JObj m)" "valid_event_message m d e"
      by (auto simp: event_of_line_Some)
    then show ?thesis
      using 2 Some by (simp add: tells.event)
  qed
qed (simp_all add: tells.nothing)

text \<open>C11: While no line makes the reader raise, the callback receives exactly the events that the valid
  event messages among the lines tell of, each once and in the order of the lines: none is refused,
  whatever it carries beside the fields of an event, and no other line yields one.\<close>

theorem core_delivers_valid_events:
  assumes "read_lines cb is d = (d', None)"
  shows "\<exists>events. cd_delivered d' = cd_delivered d @ events \<and> tells d (lines_of is) events"
  using read_lines_run [OF assms] tells_events_in [of d "is"] by blast

definition example_core :: core_detector where
  "example_core = (CoreDetector (DetectorConfig 7 100 None 200) DEFAULT_SIDECAR 5)
     \<lparr>cd_pidns_dev := Some 4, cd_pidns_ino := Some 9\<rparr>"

definition silent_callbacks :: callbacks where
  "silent_callbacks =
     \<lparr>on_blocking = (\<lambda>_. None), on_loss = None, texts = \<lparr>repr_json = (\<lambda>_. []), format_g = (\<lambda>_. [])\<rparr>\<rparr>"

definition ns_fields :: json_obj where
  "ns_fields = [(''pidns_dev'', JInt 4), (''pidns_ino'', JInt 9)]"

definition event_line :: "int \<Rightarrow> int \<Rightarrow> reader_input" where
  "event_line start stop = Line (Parsed (JObj ([(''version'', JInt 2), (''type'', JStr ''event''),
     (''start_ns'', JInt start), (''end_ns'', JInt stop), (''pid'', JInt 7), (''tid'', JInt 7)] @ ns_fields)))"

definition lost_line :: "json \<Rightarrow> int \<Rightarrow> reader_input" where
  "lost_line src n = Line (Parsed (JObj ([(''version'', JInt 2), (''type'', JStr ''lost''),
     (''count'', JInt n), (''source'', src)] @ ns_fields)))"

definition ready_input :: reader_input where
  "ready_input = Line (Parsed (JObj ([(''version'', JInt 2), (''type'', JStr ''ready''),
     (''pid'', JInt 7), (''tid'', JInt 7), (''threshold_ns'', JInt 100000000),
     (''tracepoints'', JList [JStr ''sys_exit_epoll_wait''])] @ ns_fields)))"

lemmas line_eval = event_line_def lost_line_def ready_input_def ns_fields_def handle_line_def handle_message_def
  field_or_none_def dict_get_default_def PROTOCOL_VERSION_def dict_get_def

lemma example_identity [simp]:
  "cd_expected_pid example_core = 7" "cd_expected_tid example_core = Some 7"
  "cd_pidns_dev example_core = Some 4" "cd_pidns_ino example_core = Some 9"
  "cd_delivered example_core = []" "cd_loss_counts example_core = []" "\<not> cd_ready example_core"
  "cd_startup_error example_core = None" "cd_runtime_error example_core = None"
  by (simp_all add: example_core_def CoreDetector_def DetectorConfig_def)

lemma example_threshold: "expected_threshold_ns example_core = 100000000"
  using threshold_ns_whole [of 100]
  by (simp add: expected_threshold_ns_def example_core_def CoreDetector_def DetectorConfig_def)

lemma event_line_step:
  assumes "0 \<le> start" "start \<le> stop" "identity d = identity example_core"
  shows "read_lines silent_callbacks (event_line start stop # is) d =
    read_lines silent_callbacks is (d\<lparr>cd_delivered := cd_delivered d @
      [\<lparr>start_ns = start, end_ns = stop, ev_pid = 7, ev_tid = 7, python_stacks = []\<rparr>]\<rparr>)"
proof -
  have "cd_expected_pid d = 7" "cd_expected_tid d = Some 7" "cd_pidns_dev d = Some 4" "cd_pidns_ino d = Some 9"
    using assms(3) by (simp_all add: identity_def)
  with assms(1,2) show ?thesis
    by (simp add: line_eval handle_event_def event_of_message_def require_event_int_def require_pidns_def
        expects_pidns_def swallowed_def silent_callbacks_def)
qed

lemma core_delivers_valid_events_witness:
  "\<exists>d'. read_lines silent_callbacks [event_line 30 30, event_line 30 10] example_core = (d', None) \<and>
     (\<exists>e. start_ns e = 30 \<and> end_ns e = 30 \<and> cd_delivered d' = [e] \<and>
       tells example_core (lines_of [event_line 30 30, event_line 30 10]) [e])"
proof -
  let ?e = "\<lparr>start_ns = 30, end_ns = 30, ev_pid = 7, ev_tid = 7, python_stacks = []\<rparr>"
  define d' where "d' = example_core\<lparr>cd_delivered := [?e]\<rparr>"
  have "read_lines silent_callbacks [event_line 30 10] d' = (d', None)"
    by (simp add: d'_def line_eval handle_event_def event_of_message_def require_event_int_def require_pidns_def)
  moreover have "identity d' = identity example_core"
    by (simp add: identity_def d'_def)
  ultimately have r: "read_lines silent_callbacks [event_line 30 30, event_line 30 10] example_core = (d', None)"
    by (simp add: event_line_step d'_def)
  have "cd_delivered d' = [?e]"
    by (simp add: d'_def)
  with r core_delivers_valid_events [OF r] show ?thesis
    by (intro exI [of _ d'] conjI exI [of _ ?e]) simp_all
qed

text \<open>C12: The loss ledger is the sum of the accepted loss records: per source it grows by exactly
  their counts, in total by all of them, whatever else the lines hold; it has no other source than
  the perf buffer, and no count is negative.\<close>

theorem core_losses_add_up:
  assumes "core_inv d" and "read_lines cb is d = (d', None)"
  defines "losses \<equiv> List.map_filter (\<lambda>l. loss_of_line l d) (lines_of is)"
  shows "dict_get_default (cd_loss_counts d') src 0 =
      dict_get_default (cd_loss_counts d) src 0 + losses_from src losses \<and>
    sum_list (dict_values (cd_loss_counts d')) =
      sum_list (dict_values (cd_loss_counts d)) + sum_list (map lost_count losses) \<and>
    set (dict_keys (cd_loss_counts d')) \<subseteq> {''perf_buffer''} \<and>
    list_all (\<lambda>n. 0 \<le> n) (dict_values (cd_loss_counts d'))"
proof -
  have "core_inv d'"
    using core_inv_read_lines [OF assms(1), of cb "is"] assms(2) by simp
  moreover have eq: "cd_loss_counts d' = cd_loss_counts (fold core_lose losses d)"
    using read_lines_run [OF assms(2)] by (simp add: core_ledger.counts_all losses_def losses_in_def)
  moreover have "distinct (dict_keys (cd_loss_counts d))"
    using assms(1) by (simp add: core_inv_def)
  ultimately show ?thesis
    using core_ledger.count_by_source [of losses d src] core_ledger.total_lost [of d losses]
    by (simp add: core_inv_def list_all_iff LOSS_SOURCES_def)
qed

lemma example_core_inv [simp]: "core_inv example_core"
  by (simp add: core_inv_def dict_keys_def dict_values_def)

lemma lost_line_step:
  assumes "0 \<le> n" "n \<le> UINT64_MAX" "identity d = identity example_core"
  shows "read_lines silent_callbacks (lost_line (JStr ''perf_buffer'') n # is) d =
    read_lines silent_callbacks is (core_lose \<lparr>lost_count = n, lost_source = ''perf_buffer''\<rparr> d)"
proof -
  have "cd_pidns_dev d = Some 4" "cd_pidns_ino d = Some 9"
    using assms(3) by (simp_all add: identity_def)
  with assms(1,2) show ?thesis
    by (simp add: line_eval handle_lost_def require_event_int_def require_pidns_def note_loss_def
        expects_pidns_def silent_callbacks_def source_known_def LOSS_SOURCES_def Let_def)
qed

lemma core_losses_add_up_witness:
  "\<exists>d'. read_lines silent_callbacks [lost_line (JStr ''perf_buffer'') 3] example_core = (d', None) \<and>
     sum_list (dict_values (cd_loss_counts d')) = 3"
proof -
  have r: "read_lines silent_callbacks [lost_line (JStr ''perf_buffer'') 3] example_core =
      (core_lose \<lparr>lost_count = 3, lost_source = ''perf_buffer''\<rparr> example_core, None)"
    by (simp add: lost_line_step UINT64_MAX_def)
  have "loss_of_message ([(''version'', JInt 2), (''type'', JStr ''lost''),
     (''count'', JInt 3), (''source'', JStr ''perf_buffer'')] @ ns_fields) example_core =
     Some \<lparr>lost_count = 3, lost_source = ''perf_buffer''\<rparr>"
    by (simp add: loss_of_message_Some ns_fields_def dict_get_def UINT64_MAX_def LOSS_SOURCES_def)
  then have "List.map_filter (\<lambda>l. loss_of_line l example_core) (lines_of [lost_line (JStr ''perf_buffer'') 3]) =
      [\<lparr>lost_count = 3, lost_source = ''perf_buffer''\<rparr>]"
    by (simp add: map_filter_simps lost_line_def loss_of_line_def typed_message_def message_of_line_def line_eval)
  with r core_losses_add_up [OF example_core_inv r] show ?thesis
    by (auto simp: dict_values_def)
qed

section \<open>Starting\<close>

lemma start_wait_ok: "start_wait pt d = (d', None) \<longleftrightarrow> d' = d \<and> cd_ready d \<and> cd_startup_error d = None"
  by (auto simp: start_wait_def raise_after_stop_def split: option.splits prod.splits)

lemma reader_until_ready:
  assumes "cd_process d \<noteq> None" "\<not> cd_ready d" "cd_startup_error d = None"
    and "cd_ready (reader_until cb is ended d)" "cd_startup_error (reader_until cb is ended d) = None"
  shows "\<exists>l \<in> set (lines_of is). ready_line l d"
proof -
  define d1 where "d1 = fst (read_lines cb is d)"
  have "cd_ready d1 \<and> cd_startup_error d1 = None"
    using reader_until_cases [OF assms(1), of cb "is" ended] assms(4,5)
    by (auto simp: reader_finally_def set_error_def simp flip: d1_def split: if_splits)
  then show ?thesis
    using read_lines_ready [of cb "is" d] assms(2) by (simp add: d1_def)
qed

text \<open>C10: A start that does not raise has launched the sidecar with the command built from the
  target, and has seen a ready message for exactly that target: protocol version 2, the
  namespaced process and thread, the PID namespace, the threshold and a non-empty list of
  tracepoints. No timeout, no premature end of the stream and no earlier error passes for it.\<close>

theorem core_start_handshake:
  assumes "core_start env fs popen cb is ended d = (d', None)" and "cd_process d = None"
  shows "\<exists>sidecar command d1 p m. find_sidecar env (cd_executable d) = Some sidecar \<and>
    build_command fs sidecar (reset_session d) = (d1, Inr command) \<and>
    popen command = Spawned p \<and> cd_process d' = Some p \<and>
    cd_ready d' \<and> cd_startup_error d' = None \<and>
    Line (Parsed (JObj m)) \<in> set is \<and>
    eq_int (field_or_none m ''version'') 2 \<and> field_or_none m ''type'' = JStr ''ready'' \<and>
    ready_matches m d1"
proof -
  obtain d0 r where sl: "start_locked env fs popen d = (d0, r)"
    by fastforce
  then have r: "r = Inr True"
    using assms by (cases r) (auto simp: core_start_def start_locked_def split: option.splits if_splits prod.splits)
  then obtain sidecar where sc: "find_sidecar env (cd_executable d) = Some sidecar"
    and la: "launch fs popen sidecar d = (d0, None)"
    using sl assms(2) by (auto simp: start_locked_def split: option.splits if_splits prod.splits)
  obtain d1 command p where b: "build_command fs sidecar (reset_session d) = (d1, Inr command)"
    and p: "popen command = Spawned p" and d0: "d0 = d1\<lparr>cd_process := Some p\<rparr>"
    using launch_ok [OF la] by blast
  note f = build_command_fields [OF b]
  have d': "d' = reader_until cb is ended d0" "cd_ready d'" "cd_startup_error d' = None"
    using assms(1) by (auto simp: core_start_def sl r start_wait_ok)
  have "cd_process d0 \<noteq> None" "\<not> cd_ready d0" "cd_startup_error d0 = None"
    using f by (simp_all add: d0)
  from reader_until_ready [OF this] d' obtain l where l: "l \<in> set (lines_of is)" "ready_line l d0"
    by blast
  have "identity d0 = identity d1"
    by (simp add: d0 identity_def)
  with l(2) have "ready_line l d1"
    using line_cong(1) by blast
  then obtain m where m: "l = Parsed (JObj m)" "eq_int (field_or_none m ''version'') 2"
    "field_or_none m ''type'' = JStr ''ready''" "ready_matches m d1"
    by (auto simp: ready_line_def typed_message_def message_of_line_def PROTOCOL_VERSION_def
        split: option.splits if_splits line_input.splits json.splits)
  have "Line l \<in> set is"
    using l(1) by (induction "is" rule: lines_of.induct) auto
  moreover have "cd_process d' = Some p"
    using reader_until_process [of d0 cb "is" ended] by (simp add: d'(1) d0)
  ultimately show ?thesis
    using sc b p m d' by blast
qed

text \<open>The process a start creates: there is one when the sidecar is found, the command can be built and
  \<open>Popen\<close> returns, whether or not the reader threads can be started then.\<close>

definition started_process :: "host_env \<Rightarrow> procfs \<Rightarrow> (string list \<Rightarrow> spawn) \<Rightarrow> core_detector \<Rightarrow> proc_script option" where
  "started_process env fs popen d =
     (case find_sidecar env (cd_executable d) of
        None \<Rightarrow> None
      | Some sidecar \<Rightarrow> if cfg_tid (cd_config d) = None then None else launched fs popen sidecar d)"

lemma started_process_ok:
  assumes "started_process env fs popen d = Some p" and "\<And>c. spawn_ok (popen c)"
  shows "proc_failures_caught p"
proof -
  obtain sidecar where "launched fs popen sidecar d = Some p"
    using assms(1) by (auto simp: started_process_def split: option.splits if_splits)
  then obtain command where "popen command = Spawned p \<or> (\<exists>x detail. popen command = ReaderRaises p x detail)"
    by (auto simp: launched_def split: prod.splits sum.splits spawn.splits)
  with assms(2) [of command] show ?thesis
    by (auto simp: spawn_ok_def)
qed

text \<open>C27: A start that raises leaves no sidecar behind, whatever failed: the command, the launch, a reader
  thread, the handshake or the wait for it. If the start had created no process, no call on any is
  made; if it had, that process has been terminated when it still ran and waited for, and killed
  when either failed, provided the calls on it fail in the ways the teardown handles.\<close>

theorem core_start_leaves_no_sidecar:
  assumes "core_start env fs popen cb is ended d = (d', Some e)" and "cd_process d = None"
    and "\<And>c. spawn_ok (popen c)"
  shows "cd_process d' = None \<and>
    (\<exists>calls. cd_proc_calls d' = cd_proc_calls d @ calls \<and>
      (case started_process env fs popen d of None \<Rightarrow> calls = [] | Some p \<Rightarrow> taken_down p calls))"
proof -
  have down: "taken_down p (teardown (Some p))" if "started_process env fs popen d = Some p" for p
  proof -
    have "proc_failures_caught p"
      using that assms(3) by (rule started_process_ok)
    then show ?thesis
      by (simp add: teardown_def terminate_or_kill_takes_down)
  qed
  have "cd_process d' = None \<and> cd_proc_calls d' = cd_proc_calls d @ teardown (started_process env fs popen d)"
  proof -
    obtain d0 r where sl: "start_locked env fs popen d = (d0, r)"
      by fastforce
    show ?thesis
    proof (cases r)
      case (Inl x)
      then show ?thesis
        using sl assms launch_raises [of fs popen _ d]
        by (auto simp: core_start_def start_locked_def started_process_def teardown_def
            split: option.splits if_splits prod.splits)
    next
      case (Inr started)
      then obtain sidecar where started: "started" and sc: "find_sidecar env (cd_executable d) = Some sidecar"
        "cfg_tid (cd_config d) \<noteq> None" and la: "launch fs popen sidecar d = (d0, None)"
        using sl assms(2) by (auto simp: start_locked_def split: option.splits if_splits prod.splits)
      obtain d1 p command where b: "build_command fs sidecar (reset_session d) = (d1, Inr command)"
        and p: "popen command = Spawned p" and d0: "d0 = d1\<lparr>cd_process := Some p\<rparr>"
        using launch_ok [OF la] by blast
      have proc: "started_process env fs popen d = Some p"
        using sc b p by (auto simp: started_process_def launched_def)
      define d2 where "d2 = reader_until cb is ended d0"
      have "cd_process d2 = Some p" and calls: "cd_proc_calls d2 = cd_proc_calls d"
        using reader_until_process [of d0 cb "is" ended] build_command_fields(10) [OF b] by (simp_all add: d2_def d0)
      moreover have "proc_failures_caught p"
        using assms(3) [of command] p by (simp add: spawn_ok_def)
      ultimately have "core_stop d2 = (d2\<lparr>cd_stop_requested := True, cd_process := None,
          cd_proc_calls := cd_proc_calls d @ teardown (Some p)\<rparr>, None)"
        using core_stop_ok [of d2] by simp
      moreover have "start_wait (texts cb) d2 = (d', Some e)"
        using assms(1) Inr started by (simp add: core_start_def sl d2_def)
      ultimately show ?thesis
        by (auto simp: start_wait_def raise_after_stop_def proc split: if_splits option.splits)
    qed
  qed
  then show ?thesis
    using down by (cases "started_process env fs popen d") (auto simp: teardown_def)
qed

section \<open>Errors, the end of the stream and stop\<close>

text \<open>C28: The first startup error and the first runtime error stay: no later line, end of stream or
  standard error output replaces or clears them.\<close>

theorem core_errors_sticky:
  assumes "core_inv d"
  shows "(cd_startup_error d = Some e \<longrightarrow>
      cd_startup_error (reader_finally (fst (read_lines cb is (read_stderr chunks d)))) = Some e) \<and>
    (cd_runtime_error d = Some e' \<longrightarrow>
      cd_runtime_error (reader_finally (fst (read_lines cb is (read_stderr chunks d)))) = Some e')"
proof -
  have st: "cd_startup_error (read_stderr chunks d) = cd_startup_error d \<and>
      cd_runtime_error (read_stderr chunks d) = cd_runtime_error d \<and>
      cd_ready (read_stderr chunks d) = cd_ready d"
    by (induction chunks d rule: read_stderr.induct) simp_all
  define d1 where "d1 = fst (read_lines cb is (read_stderr chunks d))"
  have "cd_startup_error d1 = Some e" if "cd_startup_error d = Some e"
    using startup_error_kept [of "read_stderr chunks d" e cb "is"] that assms st
    by (simp add: d1_def core_inv_def)
  moreover have "cd_runtime_error d1 = Some e'" if "cd_runtime_error d = Some e'"
    using runtime_error_kept [of "read_stderr chunks d" e' cb "is"] that st by (simp add: d1_def)
  ultimately show ?thesis
    by (simp add: reader_finally_def flip: d1_def)
qed

text \<open>When the stream ends although no stop was requested, the failure is on record: an error is
  set, and after a successful handshake the next health check raises, whether or not the process
  is seen to have exited. After a requested stop the end of the stream changes nothing.\<close>

theorem core_end_of_stream:
  fixes cb :: callbacks and "is" :: "reader_input list"
  assumes "cd_process d \<noteq> None"
  defines "d' \<equiv> fst (read_messages cb is d)"
  shows "(\<not> cd_stop_requested d' \<longrightarrow> cd_startup_error d' \<noteq> None \<or> cd_runtime_error d' \<noteq> None) \<and>
    (\<not> cd_stop_requested d' \<and> cd_startup_error d' = None \<longrightarrow> core_check_health exited d' \<noteq> None) \<and>
    (cd_stop_requested (fst (read_lines cb is d)) \<longrightarrow> d' = fst (read_lines cb is d))"
proof -
  have d': "d' = reader_finally (fst (read_lines cb is d))"
    using assms(1) by (auto simp: d'_def read_messages_def Let_def case_prod_beta')
  then have a: "\<not> cd_stop_requested d' \<Longrightarrow> cd_startup_error d' \<noteq> None \<or> cd_runtime_error d' \<noteq> None"
    by (auto simp: reader_finally_def set_error_def split: if_splits)
  moreover have "cd_runtime_error d' \<noteq> None \<Longrightarrow> core_check_health exited d' \<noteq> None"
    by (auto simp: core_check_health_def Let_def)
  ultimately show ?thesis
    by (auto simp: d' reader_finally_def)
qed

text \<open>Stopping never raises (given a process whose calls fail in the handled ways), takes the
  process down, may be repeated without a further call on it, and keeps the ledger and the
  delivered events; a health check afterwards only reports an error recorded before the stop.\<close>

theorem core_stop_graceful:
  assumes "\<And>p. cd_process d = Some p \<Longrightarrow> proc_failures_caught p"
  shows "\<exists>d'. core_stop d = (d', None) \<and> cd_process d' = None \<and> core_stop d' = (d', None) \<and>
    cd_loss_counts d' = cd_loss_counts d \<and> cd_delivered d' = cd_delivered d \<and>
    (core_check_health exited d' \<noteq> None \<longleftrightarrow> cd_runtime_error d \<noteq> None)"
proof -
  obtain calls where
    "core_stop d = (d\<lparr>cd_stop_requested := True, cd_process := None, cd_proc_calls := calls\<rparr>, None)"
    using core_stop_ok assms by blast
  then show ?thesis
    by (auto simp: core_stop_def cleanup_locked_def core_check_health_def Let_def split: option.splits)
qed

section \<open>The target in its namespace\<close>

lemma nspid_value_innermost:
  assumes "list_all (\<lambda>l. \<not> startswith l ''NSpid:'') before"
    and "pids \<noteq> []" and "list_all (\<lambda>p. \<bar>p\<bar> < 10 ^ max_str_digits) pids"
  shows "nspid_value (before @ nspid_line pids # after) = Some (last pids)"
proof -
  have "nspid_value (before @ nspid_line pids # after) = nspid_value (nspid_line pids # after)"
    using assms(1) by (induction before) simp_all
  also have "\<dots> = py_int 10 (str_of_int (last pids))"
    using assms(2) by (simp add: split_ws_nspid_line last_map Let_def)
  also have "\<dots> = Some (last pids)"
    using assms(2,3) by (intro py_int_roundtrip) (simp add: list_all_iff)
  finally show ?thesis .
qed

lemma add_status_field_other:
  assumes "\<not> startswith l (k @ '':'')"
  shows "dict_get (add_status_field d l) k = dict_get d k"
proof (cases "dropWhile (\<lambda>c. c \<noteq> CHR '':'') l")
  case (Cons c v)
  then have "c = CHR '':''"
    using hd_dropWhile [of "\<lambda>c. c \<noteq> CHR '':''" l] by simp
  then have "l = takeWhile (\<lambda>c. c \<noteq> CHR '':'') l @ '':'' @ v"
    using Cons takeWhile_dropWhile_id [of "\<lambda>c. c \<noteq> CHR '':''" l] by simp
  with assms have "takeWhile (\<lambda>c. c \<noteq> CHR '':'') l \<noteq> k"
    by (auto simp: startswith_iff)
  then show ?thesis
    by (simp add: add_status_field_def split_once_def Cons)
next
  case Nil
  show ?thesis
    by (simp add: add_status_field_def split_once_def Nil)
qed

lemma status_fields_skip:
  "list_all (\<lambda>l. \<not> startswith l (k @ '':'')) ls \<Longrightarrow> dict_get (foldl add_status_field d ls) k = dict_get d k"
  by (induction ls arbitrary: d) (simp_all add: add_status_field_other)

lemma status_fields_nspid:
  assumes "lists_ids lines ids"
  shows "\<exists>v. dict_get (status_fields lines) ''NSpid'' = Some v \<and> split_ws v = map str_of_int ids"
proof -
  obtain before after where lines: "lines = before @ nspid_line ids # after"
    and after: "list_all (\<lambda>l. \<not> startswith l (''NSpid'' @ '':'')) after"
    using assms by (elim lists_idsE) simp
  let ?v = "concat (map (\<lambda>p. CHR 0x09 # str_of_int p) ids) @ [CHR 0x0A]"
  have "split_once (CHR '':'') (nspid_line ids) = (''NSpid'', Some ?v)"
    by (simp add: split_once_def nspid_line_def)
  then have "dict_get (status_fields lines) ''NSpid'' = Some (strip ?v)"
    unfolding lines status_fields_def by (simp add: status_fields_skip [OF after] add_status_field_def)
  then show ?thesis
    using split_ws_strip split_ws_values by metis
qed

lemma resolve_lists_ids:
  "\<lbrakk>fs_lines fs (status_path pid) = Some lines; lists_ids lines ids\<rbrakk> \<Longrightarrow> resolve_namespace_pid fs pid = Inr (last ids)"
  by (erule lists_idsE) (simp add: resolve_namespace_pid_def nspid_value_innermost)

text \<open>The process or thread id handed to the sidecar is the innermost one the kernel lists on the
  \<open>NSpid\<close> line of the task, wherever the line stands in the status file.\<close>

theorem resolve_namespace_pid_innermost:
  assumes "fs_lines fs (status_path pid) = Some (before @ nspid_line pids # after)"
    and "list_all (\<lambda>l. \<not> startswith l ''NSpid:'') before"
    and "pids \<noteq> []" and "list_all (\<lambda>p. \<bar>p\<bar> < 10 ^ max_str_digits) pids"
  shows "resolve_namespace_pid fs pid = Inr (last pids)"
  using assms(1) nspid_value_innermost [OF assms(2-4), of after] by (simp add: resolve_namespace_pid_def)

section \<open>A concrete session\<close>

definition example_fs :: procfs where
  "example_fs =
     \<lparr>fs_stat = (\<lambda>p. if p = pid_ns_path 7 then Some (4, 9) else None),
      fs_lines = (\<lambda>p. if p = status_path 7 then Some [tgid_line 7, nspid_line [7]] else None)\<rparr>"

lemma tgid_line_not_nspid: "\<not> startswith (tgid_line p) ''NSpid:''"
  by (simp add: tgid_line_def startswith_def)

lemma resolve_namespace_pid_innermost_witness:
  "resolve_namespace_pid (example_fs\<lparr>fs_lines := (\<lambda>_. Some [tgid_line 7, nspid_line [4711, 7]])\<rparr>) 4711 = Inr 7"
  by (rule resolve_namespace_pid_innermost [of _ _ "[tgid_line 7]" "[4711, 7]" "[]", simplified])
     (simp_all add: tgid_line_not_nspid)

lemma example_resolve: "resolve_namespace_pid example_fs 7 = Inr 7"
proof -
  have "nspid_value ([tgid_line 7] @ nspid_line [7] # []) = Some (last [7])"
    by (rule nspid_value_innermost) (simp_all add: tgid_line_not_nspid)
  then have "nspid_value [tgid_line 7, nspid_line [7]] = Some 7"
    by (simp only: append.simps last.simps refl if_True)
  then show ?thesis
    by (simp add: resolve_namespace_pid_def example_fs_def)
qed

lemma example_fields: "dict_get (status_fields [tgid_line 7, nspid_line [7]]) ''Tgid'' = Some ''7''"
  by (simp add: status_fields_def add_status_field_def tgid_line_def nspid_line_def str_7 split_once_def dict_set_def dict_get_def
      strip_def lstrip_def is_space_def)

definition idle_core :: core_detector where
  "idle_core = CoreDetector (DetectorConfig 7 100 None 200) DEFAULT_SIDECAR 5"

definition example_env :: host_env where
  "example_env = \<lparr>env_BLOCKSNOOP_EBPF = None, env_platform = ''linux'', env_which = (\<lambda>_. None),
     env_packaged = ''blocksnoop-ebpf'', env_packaged_is_file = True, env_packaged_executable = True\<rparr>"

definition quiet_process :: proc_script where
  "quiet_process = \<lparr>ps_running = True, ps_terminate = None, ps_wait = None, ps_kill = None, ps_wait_killed = None\<rparr>"

lemma example_find: "find_sidecar example_env DEFAULT_SIDECAR = Some ''blocksnoop-ebpf''"
  by (simp add: find_sidecar_def example_env_def packaged_sidecar_def DEFAULT_SIDECAR_def)

lemma idle_core_fields [simp]:
  "cd_process idle_core = None" "cd_executable idle_core = DEFAULT_SIDECAR"
  "cfg_tid (cd_config idle_core) = Some 7" "cfg_pid (cd_config idle_core) = 7"
  by (simp_all add: idle_core_def CoreDetector_def DetectorConfig_def)

lemma example_build:
  "\<exists>command. build_command example_fs ''blocksnoop-ebpf'' (reset_session idle_core) = (example_core, Inr command)"
proof -
  have "pid_namespace example_fs (Some 7) = Some (4, 9)"
    by (simp add: pid_namespace_def example_fs_def)
  moreover have "validate_target_tid example_fs 7 (4, 9) d = Inr ()" if "cfg_pid (cd_config d) = 7" for d
    using that example_fields by (simp add: validate_target_tid_def pid_namespace_def str_7 example_fs_def)
  ultimately show ?thesis
    by (simp add: build_command_def example_resolve Let_def)
       (simp add: idle_core_def reset_session_def example_core_def CoreDetector_def DetectorConfig_def)
qed

lemma example_handshake:
  "handle_line silent_callbacks (Parsed (JObj ([(''version'', JInt 2), (''type'', JStr ''ready''),
     (''pid'', JInt 7), (''tid'', JInt 7), (''threshold_ns'', JInt 100000000),
     (''tracepoints'', JList [JStr ''sys_exit_epoll_wait''])] @ ns_fields))) (example_core\<lparr>cd_process := p\<rparr>) =
   (example_core\<lparr>cd_process := p, cd_ready := True\<rparr>, None)"
proof -
  have "expected_threshold_ns (example_core\<lparr>cd_process := p\<rparr>) = 100000000"
    using example_threshold by (simp add: expected_threshold_ns_def)
  then show ?thesis
    by (simp add: line_eval handle_ready_def require_event_int_def require_pidns_def expects_pidns_def
        tracepoints_ok_def)
qed

lemma example_start:
  "core_start example_env example_fs (\<lambda>_. Spawned quiet_process) silent_callbacks [ready_input] False idle_core =
   (example_core\<lparr>cd_process := Some quiet_process, cd_ready := True\<rparr>, None)"
proof -
  obtain command where "build_command example_fs ''blocksnoop-ebpf'' (reset_session idle_core) = (example_core, Inr command)"
    using example_build by blast
  then have "start_locked example_env example_fs (\<lambda>_. Spawned quiet_process) idle_core =
      (example_core\<lparr>cd_process := Some quiet_process\<rparr>, Inr True)"
    by (simp add: start_locked_def example_find launch_def)
  then show ?thesis
    using example_handshake [of "Some quiet_process"]
    by (simp add: core_start_def reader_until_def ready_input_def start_wait_def)
qed

lemma core_start_handshake_witness:
  "\<exists>m. Line (Parsed (JObj m)) \<in> set [ready_input] \<and> ready_matches m example_core"
proof -
  obtain sidecar command d1 p m where h: "find_sidecar example_env DEFAULT_SIDECAR = Some sidecar"
    "build_command example_fs sidecar (reset_session idle_core) = (d1, Inr command)"
    "Line (Parsed (JObj m)) \<in> set [ready_input]" "ready_matches m d1"
    using core_start_handshake [OF example_start] by auto
  then have "d1 = example_core"
    using example_build by (auto simp: example_find)
  with h show ?thesis by blast
qed

lemma quiet_process_ok [simp]: "proc_failures_caught quiet_process"
  by (simp add: proc_failures_caught_def quiet_process_def)

lemma core_start_leaves_no_sidecar_witness:
  "\<exists>d' e. core_start example_env example_fs (\<lambda>_. Spawned quiet_process) silent_callbacks [] False idle_core =
     (d', Some e) \<and> Terminate \<in> set (cd_proc_calls d') \<and> last (cd_proc_calls d') = Wait"
proof -
  obtain command where b: "build_command example_fs ''blocksnoop-ebpf'' (reset_session idle_core) = (example_core, Inr command)"
    using example_build by blast
  then have "start_locked example_env example_fs (\<lambda>_. Spawned quiet_process) idle_core =
      (example_core\<lparr>cd_process := Some quiet_process\<rparr>, Inr True)"
    by (simp add: start_locked_def example_find launch_def)
  then obtain d' e where se: "core_start example_env example_fs (\<lambda>_. Spawned quiet_process) silent_callbacks [] False
      idle_core = (d', Some e)"
    using core_stop_ok [of "example_core\<lparr>cd_process := Some quiet_process\<rparr>"]
    by (auto simp: core_start_def reader_until_def start_wait_def raise_after_stop_def)
  have "started_process example_env example_fs (\<lambda>_. Spawned quiet_process) idle_core = Some quiet_process"
    by (simp add: started_process_def example_find launched_def b)
  moreover have "cd_proc_calls idle_core = []"
    by (simp add: idle_core_def CoreDetector_def)
  ultimately show ?thesis
    using core_start_leaves_no_sidecar [OF se] se
    by (intro exI [of _ d'] exI [of _ e]) (simp add: spawn_ok_def taken_down_def, simp add: quiet_process_def)
qed

lemma core_errors_sticky_witness:
  "cd_runtime_error (reader_finally (fst (read_lines silent_callbacks [Line DecodeError]
     (read_stderr [''x''] (example_core\<lparr>cd_ready := True, cd_runtime_error := Some ''first''\<rparr>))))) = Some ''first''"
  by (rule core_errors_sticky [of _ "[]" silent_callbacks "[Line DecodeError]" "[''x'']" "''first''",
        THEN conjunct2, rule_format])
     (simp_all add: core_inv_def dict_keys_def dict_values_def)

lemma core_end_of_stream_witness:
  "core_check_health False (fst (read_messages silent_callbacks []
     (example_core\<lparr>cd_ready := True, cd_process := Some quiet_process\<rparr>))) \<noteq> None"
  by (rule core_end_of_stream [THEN conjunct2, THEN conjunct1, rule_format])
     (simp_all add: read_messages_def reader_finally_def set_error_def,
      simp_all add: example_core_def CoreDetector_def)

lemma core_stop_graceful_witness:
  "\<exists>d'. core_stop (example_core\<lparr>cd_process := Some quiet_process\<rparr>) = (d', None) \<and> cd_process d' = None"
  using core_stop_graceful [of "example_core\<lparr>cd_process := Some quiet_process\<rparr>"] by auto

text \<open>A loss record whose source is a JSON list or object makes the reader raise \<open>TypeError\<close>
  instead of recording an invalid loss record: the lines after it are not read any more, and what
  is reported is an unexpected exit of the sidecar.\<close>

theorem core_unhashable_source_ends_reader:
  assumes "cd_process d \<noteq> None" and "\<not> cd_stop_requested d"
    and "cd_ready d" and "cd_startup_error d = None" and "cd_runtime_error d = None"
  shows "read_messages cb (lost_line (JList vs) 1 # rest) d =
    (d\<lparr>cd_runtime_error := Some ''sidecar exited unexpectedly after ready''\<rparr>, Some TypeError)"
proof -
  have "read_lines cb (lost_line (JList vs) 1 # rest) d = (d, Some TypeError)"
    by (simp add: line_eval handle_lost_def require_event_int_def require_pidns_def source_known_def
        UINT64_MAX_def Let_def)
  with assms show ?thesis
    by (auto simp: read_messages_def reader_finally_def set_error_def)
qed

lemma core_unhashable_source_ends_reader_witness:
  "snd (read_messages silent_callbacks [lost_line (JList []) 1, event_line 10 30]
     (example_core\<lparr>cd_ready := True, cd_process := Some quiet_process\<rparr>)) = Some TypeError"
  by (subst core_unhashable_source_ends_reader)
     (simp_all, simp add: example_core_def CoreDetector_def)

end
