(* ===== verification/Diagnostics.thy ===== *)
theory Diagnostics
  imports Cli CoreProtocol
begin

text \<open>
  The read-only checks of \<open>blocksnoop doctor\<close> (\<open>blocksnoop/diagnostics.py\<close>) and the doctor branch of
  the command line. What the host answers is one record; \<open>dn_probe\<close> stands for
  \<open>path.is_file() and os.access(path, R_OK)\<close>, with the error number of an \<open>OSError\<close>, and
  \<open>dn_bcc_spec\<close> for \<open>importlib.util.find_spec("bcc") is not None\<close>.
\<close>

section \<open>Checks and reports\<close>

datatype status = Pass | Warn | Fail

fun status_str :: "status \<Rightarrow> string" where
  "status_str Pass = ''pass''"
| "status_str Warn = ''warn''"
| "status_str Fail = ''fail''"

fun status_upper :: "status \<Rightarrow> string" where
  "status_upper Pass = ''PASS''"
| "status_upper Warn = ''WARN''"
| "status_upper Fail = ''FAIL''"

record check =
  ck_name :: string
  ck_status :: status
  ck_detail :: string
  ck_remediation :: "string option"

definition passed :: "string \<Rightarrow> string \<Rightarrow> check" where
  "passed name detail = \<lparr>ck_name = name, ck_status = Pass, ck_detail = detail, ck_remediation = None\<rparr>"

definition not_passed :: "string \<Rightarrow> status \<Rightarrow> string \<Rightarrow> string \<Rightarrow> check" where
  "not_passed name st detail remediation =
     \<lparr>ck_name = name, ck_status = st, ck_detail = detail, ck_remediation = Some remediation\<rparr>"

record target_namespace =
  tn_target_pid :: int
  tn_target_tid :: int
  tn_local_pid :: int
  tn_local_tid :: int
  tn_pidns_dev :: int
  tn_pidns_ino :: int
  tn_same_as_collector :: bool

record doctor_report =
  dr_requested_backend :: string
  dr_effective_backend :: "string option"
  dr_checks :: "check list"
  dr_namespace :: "target_namespace option"
  dr_stats_mode :: bool

definition healthy :: "doctor_report \<Rightarrow> bool" where
  "healthy r = (dr_effective_backend r \<noteq> None)"

record doctor_env =
  dn_cli :: cli_env
  dn_probe :: "string \<Rightarrow> int + bool"
  dn_procfs :: procfs
  dn_release :: string
  dn_bpf_object :: "string option"
  dn_bcc_spec :: bool

definition dn_host :: "doctor_env \<Rightarrow> host_env" where
  "dn_host env = ce_host (dn_cli env)"

section \<open>The single checks\<close>

definition check_platform :: "doctor_env \<Rightarrow> check" where
  "check_platform env =
     (if env_platform (dn_host env) = ''linux'' then passed ''platform'' ''Linux runtime detected''
      else not_passed ''platform'' Fail (''unsupported platform: '' @ env_platform (dn_host env))
             ''Run blocksnoop on a Linux host or use a Linux debug container.'')"

definition check_root :: "doctor_env \<Rightarrow> check" where
  "check_root env =
     (if ce_euid (dn_cli env) = 0 then passed ''root'' ''running as root''
      else not_passed ''root'' Fail ''blocksnoop currently requires an effective UID of 0''
             ''Run with sudo, or use a privileged debug container.'')"

definition check_austin :: "doctor_env \<Rightarrow> check" where
  "check_austin env =
     (if env_which (dn_host env) ''austin'' \<noteq> None then passed ''austin'' ''Austin sampler is available''
      else not_passed ''austin'' Fail ''Austin sampler was not found in PATH''
             ''Install Austin or use `blocksnoop doctor --stats` for eBPF-only mode.'')"

text \<open>\<open>EACCES\<close>, \<open>EPERM\<close>, \<open>ENOENT\<close>, \<open>ENOTDIR\<close> and \<open>ESTALE\<close> on Linux.\<close>

definition EXPECTED_FILESYSTEM_ERRORS :: "int list" where
  "EXPECTED_FILESYSTEM_ERRORS = [13, 1, 2, 20, 116]"

definition is_readable_file :: "doctor_env \<Rightarrow> string \<Rightarrow> bool result" where
  "is_readable_file env path =
     (case dn_probe env path of
        Inr b \<Rightarrow> Inr b
      | Inl errno \<Rightarrow> if errno \<in> set EXPECTED_FILESYSTEM_ERRORS then Inr False else Inl OSError)"

definition check_path :: "doctor_env \<Rightarrow> string \<Rightarrow> string \<Rightarrow> string \<Rightarrow> string \<Rightarrow> bool \<Rightarrow> check result" where
  "check_path env name path success remediation required =
     bind_result (is_readable_file env path) (\<lambda>readable.
       Inr (if readable then passed name success
            else not_passed name (if required then Fail else Warn) (''not readable: '' @ path) remediation))"

definition EPOLL_SYSCALLS :: "string list" where
  "EPOLL_SYSCALLS = [''epoll_wait'', ''epoll_pwait'', ''epoll_pwait2'']"

definition TRACEFS_ROOTS :: "string list" where
  "TRACEFS_ROOTS = [''/sys/kernel/tracing/events/syscalls'', ''/sys/kernel/debug/tracing/events/syscalls'']"

definition readable_pair :: "doctor_env \<Rightarrow> string \<Rightarrow> string \<Rightarrow> bool result" where
  "readable_pair env base syscall =
     bind_result (is_readable_file env (base @ ''/sys_enter_'' @ syscall @ ''/format'')) (\<lambda>entered.
       if entered then is_readable_file env (base @ ''/sys_exit_'' @ syscall @ ''/format'') else Inr False)"

fun readable_pairs :: "doctor_env \<Rightarrow> string \<Rightarrow> string list \<Rightarrow> string list result" where
  "readable_pairs env base [] = Inr []"
| "readable_pairs env base (s # ss) =
     bind_result (readable_pair env base s) (\<lambda>b.
     bind_result (readable_pairs env base ss) (\<lambda>ps. Inr (if b then s # ps else ps)))"

fun check_tracepoint_roots :: "doctor_env \<Rightarrow> string list \<Rightarrow> check result" where
  "check_tracepoint_roots env [] =
     Inr (not_passed ''tracepoints'' Fail ''no readable complete epoll tracepoint pair''
            ''Mount tracefs and grant read access to epoll syscall tracepoints.'')"
| "check_tracepoint_roots env (base # bases) =
     bind_result (readable_pairs env base EPOLL_SYSCALLS) (\<lambda>pairs.
       if pairs \<noteq> [] then Inr (passed ''tracepoints'' (''epoll pairs available: '' @ join '', '' pairs))
       else check_tracepoint_roots env bases)"

definition check_tracepoints :: "doctor_env \<Rightarrow> check result" where
  "check_tracepoints env = check_tracepoint_roots env TRACEFS_ROOTS"

definition effective_capabilities :: "doctor_env \<Rightarrow> int option" where
  "effective_capabilities env =
     Option.bind (fs_lines (dn_procfs env) ''/proc/self/status'') (\<lambda>lines.
     Option.bind (dict_get (status_fields lines) ''CapEff'') (py_int 16))"

definition check_privileges :: "doctor_env \<Rightarrow> check" where
  "check_privileges env =
     (case effective_capabilities env of
        None \<Rightarrow> not_passed ''privileges'' Warn ''effective BPF capabilities could not be proven''
                  (''Run as root in a privileged debug container and verify CAP_SYS_ADMIN, ''
                   @ ''or both CAP_BPF and CAP_PERFMON, before attaching.'')
      | Some capabilities \<Rightarrow>
          let has_sys_admin = bit capabilities 21;
              has_bpf_pair = bit capabilities 38 \<and> bit capabilities 39
          in if has_sys_admin \<or> has_bpf_pair
             then passed ''privileges'' ''effective BPF capabilities are present''
             else not_passed ''privileges'' Fail ''CAP_SYS_ADMIN or CAP_BPF+CAP_PERFMON is missing''
                    (''Run blocksnoop as root in a privileged debug container. Capability-only ''
                     @ ''operation is not yet a supported end-to-end profile.''))"

text \<open>\<open>re.match(r"(\d+)\.(\d+)", release)\<close> on a release string of ASCII characters without quotes and
  backslashes, so that its \<open>repr\<close> is the string between single quotes.\<close>

definition ascii_digit :: "char \<Rightarrow> bool" where
  "ascii_digit c = (case digit_val c of Some d \<Rightarrow> d < 10 | None \<Rightarrow> False)"

definition parse_release :: "string \<Rightarrow> (nat \<times> nat) option" where
  "parse_release release =
     (let major = takeWhile ascii_digit release;
          rest = dropWhile ascii_digit release
      in case rest of
           [] \<Rightarrow> None
         | c # cs \<Rightarrow>
             if major = [] \<or> c \<noteq> CHR ''.'' \<or> takeWhile ascii_digit cs = [] then None
             else (case (parse_digits 10 0 True major, parse_digits 10 0 True (takeWhile ascii_digit cs)) of
                     (Some a, Some b) \<Rightarrow> Some (a, b)
                   | _ \<Rightarrow> None))"

definition check_pid_namespace_helper :: "doctor_env \<Rightarrow> check" where
  "check_pid_namespace_helper env =
     (let remedy = ''Use kernel 5.7+ or a kernel with the helper backported.'' in
      case parse_release (dn_release env) of
        None \<Rightarrow> not_passed ''pid_namespace_helper'' Warn
                  (''could not determine helper support from kernel release ''
                   @ [CHR 0x27] @ dn_release env @ [CHR 0x27]) remedy
      | Some (major, minor) \<Rightarrow>
          if 5 < major \<or> major = 5 \<and> 7 \<le> minor
          then passed ''pid_namespace_helper''
                 (''kernel '' @ dn_release env @ '' meets the 5.7 helper baseline; attach is authoritative'')
          else not_passed ''pid_namespace_helper'' Fail
                 (''kernel '' @ dn_release env @ '' is older than the 5.7 helper baseline'') remedy)"

definition check_sidecar :: "string option \<Rightarrow> string \<Rightarrow> check" where
  "check_sidecar sidecar backend =
     (case sidecar of
        Some s \<Rightarrow>
          if s \<noteq> [] then passed ''sidecar'' (''resolved: '' @ s)
          else not_passed ''sidecar'' (if backend = ''core'' then Fail else Warn)
                 ''blocksnoop-ebpf sidecar was not found''
                 (''Install a native Linux blocksnoop wheel, use the official Docker image, ''
                  @ ''or set BLOCKSNOOP_EBPF to a compatible sidecar.'')
      | None \<Rightarrow>
          not_passed ''sidecar'' (if backend = ''core'' then Fail else Warn)
            ''blocksnoop-ebpf sidecar was not found''
            (''Install a native Linux blocksnoop wheel, use the official Docker image, ''
             @ ''or set BLOCKSNOOP_EBPF to a compatible sidecar.''))"

text \<open>POSIX paths: whether they are absolute, and their parts.\<close>

type_synonym path = "bool \<times> string list"

fun split_slash :: "string \<Rightarrow> string \<Rightarrow> string list" where
  "split_slash acc [] = [rev acc]"
| "split_slash acc (c # cs) = (if c = CHR ''/'' then rev acc # split_slash [] cs else split_slash (c # acc) cs)"

definition path_of :: "string \<Rightarrow> path" where
  "path_of s = (startswith s ''/'', filter (\<lambda>p. p \<noteq> [] \<and> p \<noteq> ''.'') (split_slash [] s))"

definition path_str :: "path \<Rightarrow> string" where
  "path_str p = (if fst p then ''/'' @ join ''/'' (snd p) else if snd p = [] then ''.'' else join ''/'' (snd p))"

definition parent :: "path \<Rightarrow> path" where
  "parent p = (fst p, butlast (snd p))"

definition below :: "path \<Rightarrow> string list \<Rightarrow> path" where
  "below p names = (fst p, snd p @ names)"

definition bpf_object_candidates :: "string option \<Rightarrow> string list" where
  "bpf_object_candidates sidecar =
     (case sidecar of
        None \<Rightarrow> []
      | Some s \<Rightarrow>
          let binary = path_of s
          in map path_str
               [below (parent (parent binary)) [''blocksnoop'', ''bpf'', ''core_blockdetect.bpf.o''],
                below (parent (parent binary)) [''bpf'', ''core_blockdetect.bpf.o''],
                below (parent binary) [''core_blockdetect.bpf.o'']])"

fun first_readable :: "doctor_env \<Rightarrow> string list \<Rightarrow> string option result" where
  "first_readable env [] = Inr None"
| "first_readable env (p # ps) =
     bind_result (is_readable_file env p) (\<lambda>b. if b then Inr (Some p) else first_readable env ps)"

definition check_bpf_object :: "doctor_env \<Rightarrow> string option \<Rightarrow> string \<Rightarrow> check result" where
  "check_bpf_object env sidecar backend =
     (let candidates = (case dn_bpf_object env of
                          Some c \<Rightarrow> if c \<noteq> [] then [path_str (path_of c)] else bpf_object_candidates sidecar
                        | None \<Rightarrow> bpf_object_candidates sidecar)
      in bind_result (first_readable env candidates) (\<lambda>found.
           Inr (case found of
                  Some p \<Rightarrow> passed ''bpf_object'' (''resolved: '' @ p)
                | None \<Rightarrow> not_passed ''bpf_object'' (if backend = ''core'' then Fail else Warn)
                    (if candidates = [] then ''no object path could be proven''
                     else ''not readable: '' @ join '', '' candidates)
                    ''Build core_blockdetect.bpf.o or set BLOCKSNOOP_BPF_OBJECT.'')))"

definition check_bcc :: "doctor_env \<Rightarrow> check" where
  "check_bcc env =
     (if dn_bcc_spec env then passed ''bcc'' ''legacy Python bcc module is importable''
      else not_passed ''bcc'' Fail ''legacy Python bcc module is not importable''
             (''Install BCC for the explicit `--backend bcc` compatibility path, ''
              @ ''or use the default Core backend.''))"

section \<open>The namespace of the target\<close>

definition stat_or_raise :: "procfs \<Rightarrow> string \<Rightarrow> (int \<times> int) result" where
  "stat_or_raise fs path = (case fs_stat fs path of Some st \<Rightarrow> Inr st | None \<Rightarrow> Inl OSError)"

definition fields_or_raise :: "procfs \<Rightarrow> int \<Rightarrow> (string, string) dict result" where
  "fields_or_raise fs pid =
     (case fs_lines fs (status_path pid) of Some ls \<Rightarrow> Inr (status_fields ls) | None \<Rightarrow> Inl OSError)"

text \<open>\<open>int(values["NSpid"].split()[-1])\<close>\<close>

definition local_id :: "(string, string) dict \<Rightarrow> int result" where
  "local_id vals =
     (case dict_get vals ''NSpid'' of
        None \<Rightarrow> Inl KeyError
      | Some v \<Rightarrow> bind_result (py_index (split_ws v) (-1)) (\<lambda>w.
          case py_int 10 w of Some p \<Rightarrow> Inr p | None \<Rightarrow> Inl ValueError))"

definition inspect_namespace :: "procfs \<Rightarrow> int \<Rightarrow> int \<Rightarrow> target_namespace result" where
  "inspect_namespace fs target_pid tid =
     bind_result (stat_or_raise fs (pid_ns_path target_pid)) (\<lambda>target.
     bind_result (stat_or_raise fs (pid_ns_path tid)) (\<lambda>task.
     bind_result (fields_or_raise fs target_pid) (\<lambda>target_values.
     bind_result (fields_or_raise fs tid) (\<lambda>task_values.
       if dict_get task_values ''Tgid'' \<noteq> Some (str_of_int target_pid) \<or> target \<noteq> task then Inl ValueError
       else
         bind_result (local_id target_values) (\<lambda>local_pid.
         bind_result (local_id task_values) (\<lambda>local_tid.
         bind_result (stat_or_raise fs ''/proc/self/ns/pid'') (\<lambda>own.
           Inr \<lparr>tn_target_pid = target_pid, tn_target_tid = tid, tn_local_pid = local_pid,
                tn_local_tid = local_tid, tn_pidns_dev = fst target, tn_pidns_ino = snd target,
                tn_same_as_collector = (target = own)\<rparr>)))))))"

definition check_namespace ::
  "procfs \<Rightarrow> int option \<Rightarrow> int option \<Rightarrow> (target_namespace option \<times> check) result" where
  "check_namespace fs target_pid target_tid =
     (case target_pid of
        None \<Rightarrow> Inr (None, not_passed ''namespace'' Warn
                  ''no target PID supplied; namespace identity will be verified at attach''
                  ''Run `blocksnoop doctor PID` for target-specific checks.'')
      | Some pid \<Rightarrow>
          (case inspect_namespace fs pid (case target_tid of None \<Rightarrow> pid | Some t \<Rightarrow> t) of
             Inr ns \<Rightarrow> Inr (Some ns, passed ''namespace'' ''target PID/TID and PID namespace are consistent'')
           | Inl e \<Rightarrow>
               if is_OSError e \<or> e = KeyError \<or> e = ValueError
               then Inr (None, not_passed ''namespace'' Fail ''target namespace could not be proven''
                      ''Ensure /proc/PID and /proc/TID are readable while the target runs.'')
               else Inl e))"

section \<open>The report\<close>

definition backend_checks :: "doctor_env \<Rightarrow> string \<Rightarrow> check list result" where
  "backend_checks env backend =
     (if backend = ''core''
      then
        bind_result (check_path env ''btf'' ''/sys/kernel/btf/vmlinux''
            ''kernel BTF is readable (informational for this tracepoint-only program)''
            ''Kernel BTF is optional here; attach is authoritative for Core support.'' False) (\<lambda>btf.
        bind_result (check_tracepoints env) (\<lambda>tracepoints.
        let sidecar = find_sidecar (dn_host env) DEFAULT_SIDECAR in
        bind_result (check_bpf_object env sidecar backend) (\<lambda>bpf_object.
          Inr [btf, tracepoints, check_privileges env, check_pid_namespace_helper env,
               check_sidecar sidecar backend, bpf_object])))
      else
        bind_result (check_tracepoints env) (\<lambda>tracepoints.
          Inr [tracepoints, check_privileges env, check_bcc env]))"

definition required_checks :: "string \<Rightarrow> bool \<Rightarrow> int option \<Rightarrow> string list" where
  "required_checks backend stats_mode target_pid =
     (if backend = ''bcc'' then [''platform'', ''root'', ''tracepoints'', ''privileges'', ''bcc'']
      else [''platform'', ''root'', ''tracepoints'', ''privileges'', ''pid_namespace_helper'', ''sidecar'', ''bpf_object''])
     @ (if stats_mode then [] else [''austin''])
     @ (if target_pid \<noteq> None then [''namespace''] else [])"

definition collect_diagnostics ::
  "doctor_env \<Rightarrow> string \<Rightarrow> int option \<Rightarrow> int option \<Rightarrow> bool \<Rightarrow> doctor_report result" where
  "collect_diagnostics env backend target_pid target_tid stats_mode =
     bind_result (backend_checks env backend) (\<lambda>bchecks.
     bind_result (check_namespace (dn_procfs env) target_pid target_tid) (\<lambda>(namespace, namespace_check).
       let checks = [check_platform env, check_root env] @ bchecks
             @ (if stats_mode then [] else [check_austin env]) @ [namespace_check];
           required = required_checks backend stats_mode target_pid;
           failing = list_ex (\<lambda>c. ck_name c \<in> set required \<and> ck_status c \<noteq> Pass) checks
       in Inr \<lparr>dr_requested_backend = backend, dr_effective_backend = (if failing then None else Some backend),
               dr_checks = checks, dr_namespace = namespace, dr_stats_mode = stats_mode\<rparr>))"

section \<open>Output\<close>

definition render_check :: "bool \<Rightarrow> check \<Rightarrow> string list" where
  "render_check verbose c =
     (if verbose \<or> ck_status c \<noteq> Pass
      then [ljust 5 (status_upper (ck_status c)) @ '' '' @ ck_name c @ '': '' @ ck_detail c]
           @ (case ck_remediation c of
                Some rem \<Rightarrow> if rem \<noteq> [] \<and> ck_status c \<noteq> Pass then [''      fix: '' @ rem] else []
              | None \<Rightarrow> [])
      else [])"

definition render_diagnostics :: "bool \<Rightarrow> doctor_report \<Rightarrow> string" where
  "render_diagnostics verbose r =
     (let effective = (case dr_effective_backend r of Some b \<Rightarrow> if b \<noteq> [] then b else ''unavailable''
                       | None \<Rightarrow> ''unavailable'')
      in join newline
           ([''blocksnoop doctor'',
             ''status: '' @ (if healthy r then ''ready'' else ''not_ready''),
             ''mode: '' @ (if dr_stats_mode r then ''stats'' else ''capture''),
             ''backend: requested='' @ dr_requested_backend r @ '' effective='' @ effective]
            @ concat (map (render_check verbose) (dr_checks r))))"

definition check_dict :: "check \<Rightarrow> json" where
  "check_dict c = JObj [(''name'', JStr (ck_name c)), (''status'', JStr (status_str (ck_status c))),
     (''detail'', JStr (ck_detail c)), (''remediation'', json_opt JStr (ck_remediation c))]"

definition namespace_dict :: "target_namespace \<Rightarrow> json" where
  "namespace_dict n = JObj [(''target_pid'', JInt (tn_target_pid n)), (''target_tid'', JInt (tn_target_tid n)),
     (''local_pid'', JInt (tn_local_pid n)), (''local_tid'', JInt (tn_local_tid n)),
     (''pidns_dev'', JInt (tn_pidns_dev n)), (''pidns_ino'', JInt (tn_pidns_ino n)),
     (''same_as_collector'', JBool (tn_same_as_collector n))]"

definition as_dict :: "doctor_report \<Rightarrow> json" where
  "as_dict r = JObj [(''schema'', JStr ''blocksnoop.doctor/v1''), (''schema_version'', JInt 1),
     (''status'', JStr (if healthy r then ''ready'' else ''not_ready'')),
     (''mode'', JStr (if dr_stats_mode r then ''stats'' else ''capture'')),
     (''requested_backend'', JStr (dr_requested_backend r)),
     (''effective_backend'', json_opt JStr (dr_effective_backend r)),
     (''checks'', JList (map check_dict (dr_checks r))),
     (''namespace'', json_opt namespace_dict (dr_namespace r))]"

text \<open>The doctor branch of the command line: what it prints and its exit status.\<close>

definition run_doctor ::
  "doctor_env \<Rightarrow> string \<Rightarrow> string option \<Rightarrow> int option \<Rightarrow> bool \<Rightarrow> bool \<Rightarrow> bool \<Rightarrow> out list \<times> exn option" where
  "run_doctor env backend target tid stats json_mode verbose =
     (let parsed = (case target of None \<Rightarrow> Inr None
                    | Some t \<Rightarrow> (case py_int 10 t of Some p \<Rightarrow> Inr (Some p) | None \<Rightarrow> Inl (SystemExit 2)))
      in case parsed of
           Inl e \<Rightarrow> ([], Some e)
         | Inr pid \<Rightarrow>
             (case collect_diagnostics env backend pid tid stats of
                Inl e \<Rightarrow> ([], Some e)
              | Inr rep \<Rightarrow>
                  ([if json_mode then JsonLine (sorted_keys (as_dict rep))
                    else Text (render_diagnostics verbose rep @ newline)],
                   if healthy rep then None else Some (SystemExit 1))))"


section \<open>What the report says\<close>

lemma check_names [simp]:
  "ck_name (passed n d) = n" "ck_name (not_passed n st d rem) = n"
  "ck_name (check_platform env) = ''platform''" "ck_name (check_root env) = ''root''"
  "ck_name (check_austin env) = ''austin''" "ck_name (check_privileges env) = ''privileges''"
  "ck_name (check_pid_namespace_helper env) = ''pid_namespace_helper''"
  "ck_name (check_sidecar sidecar b) = ''sidecar''" "ck_name (check_bcc env) = ''bcc''"
  by (simp_all add: passed_def not_passed_def check_platform_def check_root_def check_austin_def
      check_privileges_def check_pid_namespace_helper_def check_sidecar_def check_bcc_def Let_def
      split: option.split prod.split)

lemma check_statuses [simp]:
  "ck_status (passed n d) = Pass" "ck_status (not_passed n st d rem) = st"
  by (simp_all add: passed_def not_passed_def)

lemma check_path_name: "check_path env n p d rem req = Inr c \<Longrightarrow> ck_name c = n"
  by (auto simp: check_path_def bind_result_Inr_iff)

lemma check_tracepoint_roots_name: "check_tracepoint_roots env bases = Inr c \<Longrightarrow> ck_name c = ''tracepoints''"
  by (induction bases) (auto simp: bind_result_Inr_iff split: if_splits)

lemma check_tracepoints_name: "check_tracepoints env = Inr c \<Longrightarrow> ck_name c = ''tracepoints''"
  by (simp add: check_tracepoints_def check_tracepoint_roots_name)

lemma check_bpf_object_name: "check_bpf_object env sidecar b = Inr c \<Longrightarrow> ck_name c = ''bpf_object''"
  by (auto simp: check_bpf_object_def bind_result_Inr_iff Let_def split: option.splits)

lemma check_namespace_name: "check_namespace fs pid tid = Inr (ns, c) \<Longrightarrow> ck_name c = ''namespace''"
  by (auto simp: check_namespace_def split: option.splits sum.splits if_splits)

lemmas fallible_check_names =
  check_path_name check_tracepoints_name check_bpf_object_name check_namespace_name

definition backend_check_names :: "string \<Rightarrow> string list" where
  "backend_check_names backend =
     (if backend = ''core''
      then [''btf'', ''tracepoints'', ''privileges'', ''pid_namespace_helper'', ''sidecar'', ''bpf_object'']
      else [''tracepoints'', ''privileges'', ''bcc''])"

lemma backend_checks_names: "backend_checks env b = Inr cs \<Longrightarrow> map ck_name cs = backend_check_names b"
  by (auto simp: backend_checks_def backend_check_names_def bind_result_Inr_iff Let_def fallible_check_names
      split: if_splits)

lemma collect_checks:
  assumes "collect_diagnostics env backend pid tid stats = Inr r"
  obtains bs ns c where "backend_checks env backend = Inr bs"
    and "check_namespace (dn_procfs env) pid tid = Inr (ns, c)"
    and "dr_checks r = [check_platform env, check_root env] @ bs @ (if stats then [] else [check_austin env]) @ [c]"
    and "dr_namespace r = ns"
    and "healthy r = (\<not> list_ex (\<lambda>c. ck_name c \<in> set (required_checks backend stats pid) \<and> ck_status c \<noteq> Pass)
           (dr_checks r))"
  using assms
  by (auto simp: collect_diagnostics_def bind_result_Inr_iff Let_def healthy_def split: if_splits)

lemma collect_names:
  assumes "collect_diagnostics env backend pid tid stats = Inr r"
  shows "map ck_name (dr_checks r) =
    [''platform'', ''root''] @ backend_check_names backend @ (if stats then [] else [''austin'']) @ [''namespace'']"
proof -
  obtain bs ns c where "backend_checks env backend = Inr bs"
    and "check_namespace (dn_procfs env) pid tid = Inr (ns, c)"
    and checks: "dr_checks r = [check_platform env, check_root env] @ bs @ (if stats then [] else [check_austin env]) @ [c]"
    using collect_checks [OF assms] by metis
  then have "map ck_name bs = backend_check_names backend" and "ck_name c = ''namespace''"
    by (simp_all only: backend_checks_names check_namespace_name)
  then show ?thesis
    by (simp add: checks)
qed

lemma required_names_listed:
  assumes "backend = ''core'' \<or> backend = ''bcc''"
  shows "set (required_checks backend stats pid) \<subseteq>
      set ([''platform'', ''root''] @ backend_check_names backend @ (if stats then [] else [''austin'']) @ [''namespace''])"
    and "distinct ([''platform'', ''root''] @ backend_check_names backend @ (if stats then [] else [''austin'']) @ [''namespace''])"
proof -
  have core: "required_checks ''core'' stats pid = [''platform'', ''root'', ''tracepoints'', ''privileges'',
      ''pid_namespace_helper'', ''sidecar'', ''bpf_object'']
      @ (if stats then [] else [''austin'']) @ (if pid \<noteq> None then [''namespace''] else [])"
    by (simp add: required_checks_def)
  have bcc: "required_checks ''bcc'' stats pid = [''platform'', ''root'', ''tracepoints'', ''privileges'', ''bcc'']
      @ (if stats then [] else [''austin'']) @ (if pid \<noteq> None then [''namespace''] else [])"
    by (simp add: required_checks_def)
  have names: "backend_check_names ''core'' = [''btf'', ''tracepoints'', ''privileges'', ''pid_namespace_helper'',
      ''sidecar'', ''bpf_object'']" "backend_check_names ''bcc'' = [''tracepoints'', ''privileges'', ''bcc'']"
    by (simp_all add: backend_check_names_def)
  show "set (required_checks backend stats pid) \<subseteq>
      set ([''platform'', ''root''] @ backend_check_names backend @ (if stats then [] else [''austin'']) @ [''namespace''])"
    using assms by (elim disjE) (simp_all only: core bcc names set_append list.set Un_insert_left Un_empty_left, auto)
  show "distinct ([''platform'', ''root''] @ backend_check_names backend @ (if stats then [] else [''austin'']) @ [''namespace''])"
    using assms by (elim disjE) (simp_all only: names, simp_all)
qed

lemma all_required_pass:
  assumes "distinct (map f xs)" and "set req \<subseteq> set (map f xs)"
  shows "(\<not> list_ex (\<lambda>x. f x \<in> set req \<and> \<not> P x) xs) = (\<forall>n \<in> set req. \<exists>x \<in> set xs. f x = n \<and> P x)"
  using assms unfolding list_ex_iff distinct_map inj_on_def by (auto, blast+)

lemma ready_iff:
  assumes "collect_diagnostics env backend pid tid stats = Inr r" and "backend = ''core'' \<or> backend = ''bcc''"
  shows "distinct (map ck_name (dr_checks r)) \<and>
    healthy r = (\<forall>n \<in> set (required_checks backend stats pid).
      \<exists>c \<in> set (dr_checks r). ck_name c = n \<and> ck_status c = Pass)"
proof -
  let ?req = "required_checks backend stats pid"
  note names = collect_names [OF assms(1)] and listed = required_names_listed [OF assms(2)]
  have uniq: "distinct (map ck_name (dr_checks r))"
    unfolding names by (rule listed)
  have "set ?req \<subseteq> set (map ck_name (dr_checks r))"
    unfolding names by (rule listed)
  note all_required_pass [OF uniq this, of "\<lambda>c. ck_status c = Pass"]
  moreover have "healthy r = (\<not> list_ex (\<lambda>c. ck_name c \<in> set ?req \<and> ck_status c \<noteq> Pass) (dr_checks r))"
    using collect_checks [OF assms(1)] by metis
  ultimately show ?thesis
    using uniq by simp
qed

lemma ready_pass:
  assumes "collect_diagnostics env backend pid tid stats = Inr r" and "healthy r"
    and "c \<in> set (dr_checks r)" and "ck_name c \<in> set (required_checks backend stats pid)"
  shows "ck_status c = Pass"
proof -
  have "\<not> list_ex (\<lambda>c. ck_name c \<in> set (required_checks backend stats pid) \<and> ck_status c \<noteq> Pass) (dr_checks r)"
    using collect_checks [OF assms(1)] assms(2) by metis
  with assms(3,4) show ?thesis
    unfolding list_ex_iff by blast
qed

lemma ready_validates:
  assumes "collect_diagnostics env backend pid tid stats = Inr r" and "healthy r"
    and "backend = ''core'' \<or> backend = ''bcc''" and "dn_bcc_spec env \<longrightarrow> ce_bcc_importable (dn_cli env)"
  shows "validate_environment (dn_cli env) stats backend = None"
proof -
  obtain bs ns c where bs: "backend_checks env backend = Inr bs"
    and checks: "dr_checks r = [check_platform env, check_root env] @ bs @ (if stats then [] else [check_austin env]) @ [c]"
    using collect_checks [OF assms(1)] by metis
  note ready = ready_pass [OF assms(1,2)]
  have "ck_status (check_root env) = Pass"
    by (rule ready) (simp_all add: checks required_checks_def)
  then have root: "ce_euid (dn_cli env) = 0"
    by (simp add: check_root_def split: if_splits)
  have "\<not> stats \<longrightarrow> ck_status (check_austin env) = Pass"
    by (intro impI ready) (simp_all add: checks required_checks_def)
  then have austin: "stats \<or> check_austin_available (env_which (dn_host env))"
    by (auto simp: check_austin_def check_austin_available_def split: if_splits)
  have "validate_backend_available (ce_bcc_importable (dn_cli env)) (dn_host env) backend = None"
    using assms(3)
  proof
    assume b: "backend = ''core''"
    then have "check_sidecar (find_sidecar (dn_host env) DEFAULT_SIDECAR) backend \<in> set bs"
      using bs by (auto simp: backend_checks_def bind_result_Inr_iff Let_def)
    then have "ck_status (check_sidecar (find_sidecar (dn_host env) DEFAULT_SIDECAR) backend) = Pass"
      by (intro ready) (simp_all add: checks required_checks_def b)
    then show ?thesis
      by (auto simp: b check_sidecar_def validate_backend_available_def split: option.splits if_splits)
  next
    assume b: "backend = ''bcc''"
    then have "check_bcc env \<in> set bs"
      using bs by (auto simp: backend_checks_def bind_result_Inr_iff)
    then have "ck_status (check_bcc env) = Pass"
      by (intro ready) (simp_all add: checks required_checks_def b)
    then show ?thesis
      using assms(4) by (simp add: b check_bcc_def validate_backend_available_def split: if_splits)
  qed
  with root austin show ?thesis
    by (simp add: validate_environment_def dn_host_def)
qed

text \<open>C34: A ready report means what it says: the backend is reported effective exactly when each check
  the chosen mode requires is in the report and passed, every check appears once, and then the
  command of the same mode passes its own environment checks (with an importable \<open>bcc\<close> module
  where one is found).\<close>

theorem doctor_ready_truthful:
  assumes "collect_diagnostics env backend pid tid stats = Inr r" and "backend = ''core'' \<or> backend = ''bcc''"
    and "dn_bcc_spec env \<longrightarrow> ce_bcc_importable (dn_cli env)"
  shows "distinct (map ck_name (dr_checks r)) \<and>
    healthy r = (\<forall>n \<in> set (required_checks backend stats pid).
      \<exists>c \<in> set (dr_checks r). ck_name c = n \<and> ck_status c = Pass) \<and>
    (healthy r \<longrightarrow> validate_environment (dn_cli env) stats backend = None)"
  using ready_iff [OF assms(1,2)] ready_validates [OF assms(1) _ assms(2,3)] by blast

section \<open>The doctor and the attach agree on the target\<close>

lemma local_id_last:
  assumes "lists_ids lines ids"
  shows "local_id (status_fields lines) = Inr (last ids)"
proof -
  obtain v where "dict_get (status_fields lines) ''NSpid'' = Some v" and v: "split_ws v = map str_of_int ids"
    using status_fields_nspid [OF assms] by blast
  moreover have "ids \<noteq> []" and ids: "list_all (\<lambda>p. \<bar>p\<bar> < 10 ^ max_str_digits) ids"
    using assms by (simp_all add: lists_ids_def)
  moreover have "py_int 10 (str_of_int (last ids)) = Some (last ids)"
    using ids \<open>ids \<noteq> []\<close> by (intro py_int_roundtrip) (simp add: list_all_iff)
  ultimately show ?thesis
    by (simp add: local_id_def py_index_def last_conv_nth Suc_le_eq)
qed

lemma inspect_namespace_Inr:
  assumes "inspect_namespace fs pid tid = Inr ns"
  obtains target_lines task_lines where "fs_lines fs (status_path pid) = Some target_lines"
    and "fs_lines fs (status_path tid) = Some task_lines"
    and "dict_get (status_fields task_lines) ''Tgid'' = Some (str_of_int pid)"
    and "fs_stat fs (pid_ns_path pid) = Some (tn_pidns_dev ns, tn_pidns_ino ns)"
    and "fs_stat fs (pid_ns_path tid) = Some (tn_pidns_dev ns, tn_pidns_ino ns)"
    and "local_id (status_fields target_lines) = Inr (tn_local_pid ns)"
    and "local_id (status_fields task_lines) = Inr (tn_local_tid ns)"
  using assms
  by (auto simp: inspect_namespace_def bind_result_Inr_iff stat_or_raise_def fields_or_raise_def
      split: option.splits if_splits)

text \<open>When the doctor's namespace check of a process and thread passes, starting the Core detector
  on the same target builds its command, and hands the sidecar exactly the ids and the namespace of
  the report; for status files as the kernel writes them these are the innermost ids.\<close>

theorem doctor_namespace_is_attached:
  assumes "check_namespace fs (Some pid) tid = Inr (Some ns, c)"
    and "cfg_pid (cd_config d) = pid" and "cfg_tid (cd_config d) = Some (case tid of None \<Rightarrow> pid | Some t \<Rightarrow> t)"
    and "\<And>task lines. fs_lines fs (status_path task) = Some lines \<Longrightarrow> lists_ids lines (ids task)"
  shows "tn_local_pid ns = last (ids pid) \<and>
    tn_local_tid ns = last (ids (case tid of None \<Rightarrow> pid | Some t \<Rightarrow> t)) \<and>
    snd (build_command fs sidecar d) =
      Inr (command_line sidecar (tn_local_pid ns) (tn_local_tid ns) (tn_pidns_dev ns, tn_pidns_ino ns)
             (expected_threshold_ns d))"
proof -
  let ?tid = "case tid of None \<Rightarrow> pid | Some t \<Rightarrow> t"
  have "inspect_namespace fs pid ?tid = Inr ns"
    using assms(1) by (auto simp: check_namespace_def split: sum.splits if_splits)
  then obtain l1 l2 where lines: "fs_lines fs (status_path pid) = Some l1" "fs_lines fs (status_path ?tid) = Some l2"
    and tgid: "dict_get (status_fields l2) ''Tgid'' = Some (str_of_int pid)"
    and stat: "fs_stat fs (pid_ns_path pid) = Some (tn_pidns_dev ns, tn_pidns_ino ns)"
      "fs_stat fs (pid_ns_path ?tid) = Some (tn_pidns_dev ns, tn_pidns_ino ns)"
    and ids: "local_id (status_fields l1) = Inr (tn_local_pid ns)" "local_id (status_fields l2) = Inr (tn_local_tid ns)"
    by (rule inspect_namespace_Inr)
  have locals: "tn_local_pid ns = last (ids pid)" "tn_local_tid ns = last (ids ?tid)"
    using ids local_id_last [OF assms(4) [OF lines(1)]] local_id_last [OF assms(4) [OF lines(2)]] by simp_all
  have resolved: "resolve_namespace_pid fs pid = Inr (tn_local_pid ns)" "resolve_namespace_pid fs ?tid = Inr (tn_local_tid ns)"
    unfolding locals using resolve_lists_ids lines assms(4) by blast+
  have "snd (build_command fs sidecar d) =
      Inr (command_line sidecar (tn_local_pid ns) (tn_local_tid ns) (tn_pidns_dev ns, tn_pidns_ino ns)
             (expected_threshold_ns d))"
    using stat lines tgid resolved assms(2,3)
    by (simp add: build_command_def pid_namespace_def validate_target_tid_def Let_def expected_threshold_ns_def)
  with locals show ?thesis
    by simp
qed

text \<open>The two tracefs mount points are not treated alike: where only \<open>/sys/kernel/tracing\<close> offers the
  epoll tracepoints the doctor passes its tracepoint check, but the BCC backend it reports as ready
  finds no tracepoint and raises.\<close>

theorem doctor_tracefs_not_bcc:
  assumes "\<And>name. name \<in> set EPOLL_CANDIDATES \<Longrightarrow>
      dn_probe env (''/sys/kernel/tracing/events/syscalls/sys_enter_'' @ name @ ''/format'') = Inr True \<and>
      dn_probe env (''/sys/kernel/tracing/events/syscalls/sys_exit_'' @ name @ ''/format'') = Inr True"
    and "\<And>name. name \<in> set EPOLL_CANDIDATES \<Longrightarrow> \<not> isdir (TRACEFS_EVENTS @ ''/sys_enter_'' @ name)"
  shows "(\<exists>c. check_tracepoints env = Inr c \<and> ck_status c = Pass) \<and>
    (\<exists>msg. detect_epoll_syscalls isdir = Inl (PyRuntimeError msg))"
proof -
  have "readable_pair env ''/sys/kernel/tracing/events/syscalls'' n = Inr True" if "n \<in> set EPOLL_CANDIDATES" for n
    using assms(1) [OF that] by (simp add: readable_pair_def is_readable_file_def)
  then have "readable_pairs env ''/sys/kernel/tracing/events/syscalls'' EPOLL_SYSCALLS = Inr EPOLL_SYSCALLS"
    unfolding EPOLL_SYSCALLS_def by (simp only: EPOLL_CANDIDATES_def list.set insert_iff simp_thms readable_pairs.simps
        bind_result_simps if_True)
  then have "\<exists>c. check_tracepoints env = Inr c \<and> ck_status c = Pass"
    by (simp add: check_tracepoints_def TRACEFS_ROOTS_def) (simp add: EPOLL_SYSCALLS_def)
  moreover have "filter (\<lambda>name. isdir (TRACEFS_EVENTS @ ''/sys_enter_'' @ name)) EPOLL_CANDIDATES = []"
    using assms(2) by (simp add: filter_empty_conv)
  ultimately show ?thesis
    by (simp add: detect_epoll_syscalls_def)
qed

section \<open>Concrete hosts\<close>

definition doctor_host :: doctor_env where
  "doctor_host =
     \<lparr>dn_cli = \<lparr>ce_euid = 0,
         ce_host = \<lparr>env_BLOCKSNOOP_EBPF = None, env_platform = ''linux'', env_which = (\<lambda>_. None),
             env_packaged = [], env_packaged_is_file = False, env_packaged_executable = False\<rparr>,
         ce_bcc_importable = True\<rparr>,
      dn_probe = (\<lambda>_. Inr True),
      dn_procfs = \<lparr>fs_stat = (\<lambda>_. None), fs_lines = (\<lambda>_. Some [''CapEff:200000''])\<rparr>,
      dn_release = ''6.1'', dn_bpf_object = None, dn_bcc_spec = True\<rparr>"

lemma doctor_host_readable: "is_readable_file doctor_host p = Inr True"
  by (simp add: is_readable_file_def doctor_host_def)

lemma doctor_host_tracepoints: "\<exists>d. check_tracepoints doctor_host = Inr (passed ''tracepoints'' d)"
  by (rule exI) (simp add: check_tracepoints_def TRACEFS_ROOTS_def EPOLL_SYSCALLS_def readable_pair_def doctor_host_readable)

lemma doctor_host_capabilities: "effective_capabilities doctor_host = Some 2097152"
proof -
  have "dict_get (status_fields [''CapEff:200000'']) ''CapEff'' = Some ''200000''"
    by (simp add: status_fields_def add_status_field_def split_once_def dict_set_def dict_get_def
        strip_def lstrip_def is_space_def)
  moreover have "py_int 16 ''200000'' = Some 2097152"
    by (simp add: py_int_def Let_def strip_def lstrip_def is_space_def startswith_def drop_hex_prefix_def digit_val_def)
  ultimately show ?thesis
    by (simp add: effective_capabilities_def doctor_host_def)
qed

lemma doctor_host_privileges: "check_privileges doctor_host = passed ''privileges'' ''effective BPF capabilities are present''"
  by (simp add: check_privileges_def doctor_host_capabilities Let_def bit_iff_odd)

lemma doctor_host_report:
  obtains r where "collect_diagnostics doctor_host ''bcc'' None None True = Inr r" and "healthy r"
proof -
  obtain d where "check_tracepoints doctor_host = Inr (passed ''tracepoints'' d)"
    using doctor_host_tracepoints by blast
  then obtain r where r: "collect_diagnostics doctor_host ''bcc'' None None True = Inr r" "healthy r"
    by (simp add: collect_diagnostics_def backend_checks_def check_namespace_def doctor_host_privileges Let_def)
       (simp add: required_checks_def healthy_def check_platform_def check_root_def check_bcc_def doctor_host_def dn_host_def)
  then show ?thesis ..
qed

lemma doctor_ready_truthful_witness: "validate_environment (dn_cli doctor_host) True ''bcc'' = None"
proof -
  obtain r where "collect_diagnostics doctor_host ''bcc'' None None True = Inr r" and "healthy r"
    by (rule doctor_host_report)
  then show ?thesis
    using doctor_ready_truthful [of doctor_host "''bcc''" None None True r] by (simp add: doctor_host_def)
qed

lemma doctor_tracefs_not_bcc_witness: "\<exists>msg. detect_epoll_syscalls (\<lambda>_. False) = Inl (PyRuntimeError msg)"
  using doctor_tracefs_not_bcc [of doctor_host "\<lambda>_. False"] by (simp add: doctor_host_def)

lemma example_inspect:
  "\<exists>ns c. check_namespace (example_fs\<lparr>fs_stat := (\<lambda>_. Some (4, 9))\<rparr>) (Some 7) None = Inr (Some ns, c)"
proof -
  have "py_int 10 ''7'' = Some 7"
    by code_simp
  moreover have "dict_get (status_fields [tgid_line 7, nspid_line [7]]) ''NSpid'' = Some ''7''"
    by (simp add: status_fields_def add_status_field_def tgid_line_def nspid_line_def str_7 split_once_def
        dict_set_def dict_get_def strip_def lstrip_def is_space_def)
  moreover have "split_ws ''7'' = [''7'']"
    by code_simp
  ultimately show ?thesis
    by (simp add: check_namespace_def inspect_namespace_def stat_or_raise_def fields_or_raise_def example_fs_def
        example_fields str_7 local_id_def py_index_def)
qed

lemma example_lists:
  "fs_lines (example_fs\<lparr>fs_stat := st\<rparr>) (status_path task) = Some lines \<Longrightarrow> lists_ids lines [7]"
  by (auto simp: example_fs_def lists_ids_def tgid_line_not_nspid split: if_splits)

lemma doctor_namespace_is_attached_witness:
  "\<exists>command. snd (build_command (example_fs\<lparr>fs_stat := (\<lambda>_. Some (4, 9))\<rparr>) ''blocksnoop-ebpf'' idle_core) = Inr command"
proof -
  obtain ns c where "check_namespace (example_fs\<lparr>fs_stat := (\<lambda>_. Some (4, 9))\<rparr>) (Some 7) None = Inr (Some ns, c)"
    using example_inspect by blast
  then show ?thesis
    using doctor_namespace_is_attached [of "example_fs\<lparr>fs_stat := (\<lambda>_. Some (4, 9))\<rparr>" 7 None ns c idle_core "\<lambda>_. [7]"]
      example_lists by (auto simp: idle_core_def CoreDetector_def DetectorConfig_def)
qed

end
