(* ===== verification/CliArgs.thy ===== *)
theory CliArgs
  imports ArgParse Cli Diagnostics
begin

text \<open>
  \<open>_parse_args\<close> and the top of \<open>main\<close> in \<open>blocksnoop/cli.py\<close>: the two parsers as tables in the order of
  the source, the defaults, and the dispatch between the doctor and a session. \<open>to_float\<close> stands
  for \<open>float(...)\<close> on a word, which gives \<open>None\<close> where Python raises \<open>ValueError\<close>; \<open>nan\<close> and \<open>inf\<close> as thresholds are outside the model.
\<close>

section \<open>The two parsers\<close>

record cli_namespace = cli_args +
  ar_verbose :: bool

record doctor_args =
  da_target :: "string option"
  da_tid :: "int option"
  da_backend :: string
  da_stats :: bool
  da_json_mode :: bool
  da_verbose :: bool

definition BACKEND_CHOICES :: "string list" where
  "BACKEND_CHOICES = [''bcc'', ''core'']"

definition FAIL_ON_CHOICES :: "string list" where
  "FAIL_ON_CHOICES = [''none'', ''event'', ''error'']"

text \<open>\<open>type=\<close> and \<open>choices=\<close>\<close>

definition typed :: "(string \<Rightarrow> 'v option) \<Rightarrow> ('v \<Rightarrow> 'n \<Rightarrow> 'n) \<Rightarrow> 'n opt_action" where
  "typed conv put = Valued (\<lambda>word ns. map_option (\<lambda>v. put v ns) (conv word))"

definition text_value :: "(string \<Rightarrow> 'n \<Rightarrow> 'n) \<Rightarrow> 'n opt_action" where
  "text_value put = Valued (\<lambda>word ns. Some (put word ns))"

definition one_of :: "string list \<Rightarrow> (string \<Rightarrow> 'n \<Rightarrow> 'n) \<Rightarrow> 'n opt_action" where
  "one_of choices put = Valued (\<lambda>word ns. if word \<in> set choices then Some (put word ns) else None)"

definition doctor_options :: "doctor_args opt_table" where
  "doctor_options =
     [(''-h'', ShowHelp), (''--help'', ShowHelp),
      (''--tid'', typed (py_int 10) (\<lambda>v ns. ns\<lparr>da_tid := Some v\<rparr>)),
      (''--backend'', one_of BACKEND_CHOICES (\<lambda>v ns. ns\<lparr>da_backend := v\<rparr>)),
      (''--stats'', Flag (\<lambda>ns. ns\<lparr>da_stats := True\<rparr>)),
      (''--json'', Flag (\<lambda>ns. ns\<lparr>da_json_mode := True\<rparr>)),
      (''-v'', Flag (\<lambda>ns. ns\<lparr>da_verbose := True\<rparr>)), (''--verbose'', Flag (\<lambda>ns. ns\<lparr>da_verbose := True\<rparr>))]"

definition doctor_parser :: "doctor_args arg_parser" where
  "doctor_parser = \<lparr>ap_options = doctor_options, ap_target = (\<lambda>v ns. ns\<lparr>da_target := Some v\<rparr>), ap_remainder = None\<rparr>"

definition doctor_defaults :: doctor_args where
  "doctor_defaults = \<lparr>da_target = None, da_tid = None, da_backend = ''core'', da_stats = False,
     da_json_mode = False, da_verbose = False\<rparr>"

definition main_options :: "(string \<Rightarrow> rat option) \<Rightarrow> cli_namespace opt_table" where
  "main_options to_float =
     [(''-h'', ShowHelp), (''--help'', ShowHelp),
      (''-t'', typed to_float (\<lambda>v ns. ns\<lparr>ar_threshold := Some v\<rparr>)),
      (''--threshold'', typed to_float (\<lambda>v ns. ns\<lparr>ar_threshold := Some v\<rparr>)),
      (''--stats'', Flag (\<lambda>ns. ns\<lparr>ar_stats := True\<rparr>)),
      (''--tid'', typed (py_int 10) (\<lambda>v ns. ns\<lparr>ar_tid := Some v\<rparr>)),
      (''--backend'', one_of BACKEND_CHOICES (\<lambda>v ns. ns\<lparr>ar_backend := v\<rparr>)),
      (''--json'', Flag (\<lambda>ns. ns\<lparr>ar_json_mode := True\<rparr>)),
      (''--log-file'', text_value (\<lambda>v ns. ns\<lparr>ar_log_file := Some v\<rparr>)),
      (''--service'', text_value (\<lambda>v ns. ns\<lparr>ar_service := v\<rparr>)),
      (''--env'', text_value (\<lambda>v ns. ns\<lparr>ar_env := v\<rparr>)),
      (''--no-color'', Flag (\<lambda>ns. ns\<lparr>ar_no_color := True\<rparr>)),
      (''--summary-only'', Flag (\<lambda>ns. ns\<lparr>ar_summary_only := True\<rparr>)),
      (''-v'', Flag (\<lambda>ns. ns\<lparr>ar_verbose := True\<rparr>)), (''--verbose'', Flag (\<lambda>ns. ns\<lparr>ar_verbose := True\<rparr>)),
      (''--error-threshold'', typed to_float (\<lambda>v ns. ns\<lparr>ar_error_threshold := v\<rparr>)),
      (''--correlation-padding'', typed to_float (\<lambda>v ns. ns\<lparr>ar_correlation_padding := v\<rparr>)),
      (''--fail-on'', one_of FAIL_ON_CHOICES (\<lambda>v ns. ns\<lparr>ar_fail_on := v\<rparr>)),
      (''--fail-on-loss'', Flag (\<lambda>ns. ns\<lparr>ar_fail_on_loss := True\<rparr>))]"

definition main_parser :: "(string \<Rightarrow> rat option) \<Rightarrow> cli_namespace arg_parser" where
  "main_parser to_float = \<lparr>ap_options = main_options to_float,
     ap_target = (\<lambda>v ns. ns\<lparr>ar_target := Some v\<rparr>),
     ap_remainder = Some (\<lambda>words ns. ns\<lparr>ar_command := words\<rparr>)\<rparr>"

definition main_defaults :: cli_namespace where
  "main_defaults = \<lparr>ar_target = None, ar_command = [], ar_threshold = None, ar_stats = False, ar_tid = None,
     ar_backend = ''core'', ar_json_mode = False, ar_log_file = None, ar_service = ''blocksnoop'', ar_env = [],
     ar_no_color = False, ar_summary_only = False, ar_error_threshold = 500, ar_correlation_padding = 200,
     ar_fail_on = ''none'', ar_fail_on_loss = False, ar_verbose = False\<rparr>"

datatype parsed_args =
    ParseExit int
  | DoctorArgs doctor_args
  | SessionArgs cli_namespace

definition parse_cli_args :: "(string \<Rightarrow> rat option) \<Rightarrow> string list \<Rightarrow> parsed_args" where
  "parse_cli_args to_float arguments =
     (if arguments \<noteq> [] \<and> hd arguments = ''doctor''
      then (case parse_args doctor_parser doctor_defaults (tl arguments) of
              Inl status \<Rightarrow> ParseExit status
            | Inr args \<Rightarrow> DoctorArgs args)
      else (case parse_args (main_parser to_float) main_defaults arguments of
              Inl status \<Rightarrow> ParseExit status
            | Inr args \<Rightarrow> SessionArgs args))"

section \<open>The program\<close>

text \<open>\<open>main\<close> from the words of the command line: what the doctor prints, and how the program ends.\<close>

definition blocksnoop :: "(string \<Rightarrow> rat option) \<Rightarrow> doctor_env \<Rightarrow> main_world \<Rightarrow> string list \<Rightarrow> out list \<times> main_result" where
  "blocksnoop to_float env mw arguments =
     (case parse_cli_args to_float arguments of
        ParseExit status \<Rightarrow> ([], MainEnds (Some (SystemExit status)) None)
      | DoctorArgs a \<Rightarrow>
          (case run_doctor env (da_backend a) (da_target a) (da_tid a) (da_stats a) (da_json_mode a) (da_verbose a) of
             (printed, e) \<Rightarrow> (printed, MainEnds e None))
      | SessionArgs ns \<Rightarrow> ([], main mw (cli_args.truncate ns)))"

section \<open>Command lines for a namespace\<close>

definition value_word :: "string \<Rightarrow> string option \<Rightarrow> string list" where
  "value_word opt v = (case v of None \<Rightarrow> [] | Some t \<Rightarrow> [opt @ CHR ''='' # t])"

definition flag_word :: "string \<Rightarrow> bool \<Rightarrow> string list" where
  "flag_word opt b = (if b then [opt] else [])"

text \<open>The options that ask for the settings of a namespace; \<open>ft\<close> writes a float.\<close>

definition setting_words :: "(rat \<Rightarrow> string) \<Rightarrow> cli_namespace \<Rightarrow> string list" where
  "setting_words ft ns =
     value_word ''--threshold'' (map_option ft (ar_threshold ns)) @
     flag_word ''--stats'' (ar_stats ns) @
     value_word ''--tid'' (map_option str_of_int (ar_tid ns)) @
     value_word ''--backend'' (Some (ar_backend ns)) @
     flag_word ''--json'' (ar_json_mode ns) @
     value_word ''--log-file'' (ar_log_file ns) @
     value_word ''--service'' (Some (ar_service ns)) @
     value_word ''--env'' (Some (ar_env ns)) @
     flag_word ''--no-color'' (ar_no_color ns) @
     flag_word ''--summary-only'' (ar_summary_only ns) @
     flag_word ''-v'' (ar_verbose ns) @
     value_word ''--error-threshold'' (Some (ft (ar_error_threshold ns))) @
     value_word ''--correlation-padding'' (Some (ft (ar_correlation_padding ns))) @
     value_word ''--fail-on'' (Some (ar_fail_on ns)) @
     flag_word ''--fail-on-loss'' (ar_fail_on_loss ns)"

text \<open>The namespaces the options can ask for.\<close>

definition expressible :: "(rat \<Rightarrow> string) \<Rightarrow> (string \<Rightarrow> rat option) \<Rightarrow> cli_namespace \<Rightarrow> bool" where
  "expressible ft to_float ns \<longleftrightarrow>
     ar_backend ns \<in> set BACKEND_CHOICES \<and> ar_fail_on ns \<in> set FAIL_ON_CHOICES \<and>
     (\<forall>i. ar_tid ns = Some i \<longrightarrow> \<bar>i\<bar> < 10 ^ max_str_digits) \<and>
     (\<forall>x \<in> set_option (ar_threshold ns) \<union> {ar_error_threshold ns, ar_correlation_padding ns}. to_float (ft x) = Some x)"

lemma reads_flag_word:
  assumes "map_of tab opt = Some (Flag f)" and "opt \<noteq> []" "hd opt = CHR ''-''" "opt \<noteq> ''--''"
  shows "reads tab (flag_word opt b) ns (if b then f ns else ns)"
  using reads_flag [OF assms] by (simp add: flag_word_def)

lemma reads_value_word:
  assumes "map_of tab opt = Some (Valued f)" and "list_all (\<lambda>(opt, a). CHR ''='' \<notin> set opt) tab"
    and "opt \<noteq> []" "hd opt = CHR ''-''" and "\<And>t. v = Some t \<Longrightarrow> f t ns = Some ns'" and "v = None \<Longrightarrow> ns' = ns"
  shows "reads tab (value_word opt v) ns ns'"
  using assms reads_value [OF assms(1-4)] by (cases v) (simp_all add: value_word_def)

lemma reads_flag_field:
  assumes "map_of tab opt = Some (Flag f)" and "opt \<noteq> []" "hd opt = CHR ''-''" "opt \<noteq> ''--''"
    and "b \<Longrightarrow> f ns = ns'" and "\<not> b \<Longrightarrow> ns = ns'"
  shows "reads tab (flag_word opt b) ns ns'"
  using reads_flag_word [OF assms(1-4), of b ns] assms(5,6) by (cases b) simp_all

lemma main_options_no_equals: "list_all (\<lambda>(opt, a). CHR ''='' \<notin> set opt) (main_options to_float)"
  by (simp add: main_options_def)

lemma main_options_lookup:
  "map_of (main_options to_float) ''--threshold'' = Some (typed to_float (\<lambda>v ns. ns\<lparr>ar_threshold := Some v\<rparr>))"
  "map_of (main_options to_float) ''--stats'' = Some (Flag (\<lambda>ns. ns\<lparr>ar_stats := True\<rparr>))"
  "map_of (main_options to_float) ''--tid'' = Some (typed (py_int 10) (\<lambda>v ns. ns\<lparr>ar_tid := Some v\<rparr>))"
  "map_of (main_options to_float) ''--backend'' = Some (one_of BACKEND_CHOICES (\<lambda>v ns. ns\<lparr>ar_backend := v\<rparr>))"
  "map_of (main_options to_float) ''--json'' = Some (Flag (\<lambda>ns. ns\<lparr>ar_json_mode := True\<rparr>))"
  "map_of (main_options to_float) ''--log-file'' = Some (text_value (\<lambda>v ns. ns\<lparr>ar_log_file := Some v\<rparr>))"
  "map_of (main_options to_float) ''--service'' = Some (text_value (\<lambda>v ns. ns\<lparr>ar_service := v\<rparr>))"
  "map_of (main_options to_float) ''--env'' = Some (text_value (\<lambda>v ns. ns\<lparr>ar_env := v\<rparr>))"
  "map_of (main_options to_float) ''--no-color'' = Some (Flag (\<lambda>ns. ns\<lparr>ar_no_color := True\<rparr>))"
  "map_of (main_options to_float) ''--summary-only'' = Some (Flag (\<lambda>ns. ns\<lparr>ar_summary_only := True\<rparr>))"
  "map_of (main_options to_float) ''-v'' = Some (Flag (\<lambda>ns. ns\<lparr>ar_verbose := True\<rparr>))"
  "map_of (main_options to_float) ''--error-threshold'' =
     Some (typed to_float (\<lambda>v ns. ns\<lparr>ar_error_threshold := v\<rparr>))"
  "map_of (main_options to_float) ''--correlation-padding'' =
     Some (typed to_float (\<lambda>v ns. ns\<lparr>ar_correlation_padding := v\<rparr>))"
  "map_of (main_options to_float) ''--fail-on'' = Some (one_of FAIL_ON_CHOICES (\<lambda>v ns. ns\<lparr>ar_fail_on := v\<rparr>))"
  "map_of (main_options to_float) ''--fail-on-loss'' = Some (Flag (\<lambda>ns. ns\<lparr>ar_fail_on_loss := True\<rparr>))"
  by (simp_all add: main_options_def)


text \<open>One option at a time: the namespace after reading it differs in its field only.\<close>

lemma reads_main_option:
  assumes "expressible ft to_float ns"
  shows
    "ar_threshold n = None \<Longrightarrow>
       reads (main_options to_float)
         (value_word ''--threshold'' (map_option ft (ar_threshold ns)))
         n (n\<lparr>ar_threshold := ar_threshold ns\<rparr>)"
    "\<not> ar_stats n \<Longrightarrow>
       reads (main_options to_float)
         (flag_word ''--stats'' (ar_stats ns))
         n (n\<lparr>ar_stats := ar_stats ns\<rparr>)"
    "ar_tid n = None \<Longrightarrow>
       reads (main_options to_float)
         (value_word ''--tid'' (map_option str_of_int (ar_tid ns)))
         n (n\<lparr>ar_tid := ar_tid ns\<rparr>)"
    "reads (main_options to_float)
         (value_word ''--backend'' (Some (ar_backend ns)))
         n (n\<lparr>ar_backend := ar_backend ns\<rparr>)"
    "\<not> ar_json_mode n \<Longrightarrow>
       reads (main_options to_float)
         (flag_word ''--json'' (ar_json_mode ns))
         n (n\<lparr>ar_json_mode := ar_json_mode ns\<rparr>)"
    "ar_log_file n = None \<Longrightarrow>
       reads (main_options to_float)
         (value_word ''--log-file'' (ar_log_file ns))
         n (n\<lparr>ar_log_file := ar_log_file ns\<rparr>)"
    "reads (main_options to_float)
         (value_word ''--service'' (Some (ar_service ns)))
         n (n\<lparr>ar_service := ar_service ns\<rparr>)"
    "reads (main_options to_float)
         (value_word ''--env'' (Some (ar_env ns)))
         n (n\<lparr>ar_env := ar_env ns\<rparr>)"
    "\<not> ar_no_color n \<Longrightarrow>
       reads (main_options to_float)
         (flag_word ''--no-color'' (ar_no_color ns))
         n (n\<lparr>ar_no_color := ar_no_color ns\<rparr>)"
    "\<not> ar_summary_only n \<Longrightarrow>
       reads (main_options to_float)
         (flag_word ''--summary-only'' (ar_summary_only ns))
         n (n\<lparr>ar_summary_only := ar_summary_only ns\<rparr>)"
    "\<not> ar_verbose n \<Longrightarrow>
       reads (main_options to_float)
         (flag_word ''-v'' (ar_verbose ns))
         n (n\<lparr>ar_verbose := ar_verbose ns\<rparr>)"
    "reads (main_options to_float)
         (value_word ''--error-threshold'' (Some (ft (ar_error_threshold ns))))
         n (n\<lparr>ar_error_threshold := ar_error_threshold ns\<rparr>)"
    "reads (main_options to_float)
         (value_word ''--correlation-padding'' (Some (ft (ar_correlation_padding ns))))
         n (n\<lparr>ar_correlation_padding := ar_correlation_padding ns\<rparr>)"
    "reads (main_options to_float)
         (value_word ''--fail-on'' (Some (ar_fail_on ns)))
         n (n\<lparr>ar_fail_on := ar_fail_on ns\<rparr>)"
    "\<not> ar_fail_on_loss n \<Longrightarrow>
       reads (main_options to_float)
         (flag_word ''--fail-on-loss'' (ar_fail_on_loss ns))
         n (n\<lparr>ar_fail_on_loss := ar_fail_on_loss ns\<rparr>)"
  subgoal using assms by (intro reads_value_word [OF main_options_lookup(1) [unfolded typed_def text_value_def one_of_def] main_options_no_equals]) (cases n; auto simp: expressible_def py_int_roundtrip)+
  subgoal by (rule reads_flag_field [OF main_options_lookup(2)]) (cases n; simp)+
  subgoal using assms by (intro reads_value_word [OF main_options_lookup(3) [unfolded typed_def text_value_def one_of_def] main_options_no_equals]) (cases n; auto simp: expressible_def py_int_roundtrip)+
  subgoal using assms by (intro reads_value_word [OF main_options_lookup(4) [unfolded typed_def text_value_def one_of_def] main_options_no_equals]) (cases n; auto simp: expressible_def py_int_roundtrip)+
  subgoal by (rule reads_flag_field [OF main_options_lookup(5)]) (cases n; simp)+
  subgoal using assms by (intro reads_value_word [OF main_options_lookup(6) [unfolded typed_def text_value_def one_of_def] main_options_no_equals]) (cases n; auto simp: expressible_def py_int_roundtrip)+
  subgoal using assms by (intro reads_value_word [OF main_options_lookup(7) [unfolded typed_def text_value_def one_of_def] main_options_no_equals]) (cases n; auto simp: expressible_def py_int_roundtrip)+
  subgoal using assms by (intro reads_value_word [OF main_options_lookup(8) [unfolded typed_def text_value_def one_of_def] main_options_no_equals]) (cases n; auto simp: expressible_def py_int_roundtrip)+
  subgoal by (rule reads_flag_field [OF main_options_lookup(9)]) (cases n; simp)+
  subgoal by (rule reads_flag_field [OF main_options_lookup(10)]) (cases n; simp)+
  subgoal by (rule reads_flag_field [OF main_options_lookup(11)]) (cases n; simp)+
  subgoal using assms by (intro reads_value_word [OF main_options_lookup(12) [unfolded typed_def text_value_def one_of_def] main_options_no_equals]) (cases n; auto simp: expressible_def py_int_roundtrip)+
  subgoal using assms by (intro reads_value_word [OF main_options_lookup(13) [unfolded typed_def text_value_def one_of_def] main_options_no_equals]) (cases n; auto simp: expressible_def py_int_roundtrip)+
  subgoal using assms by (intro reads_value_word [OF main_options_lookup(14) [unfolded typed_def text_value_def one_of_def] main_options_no_equals]) (cases n; auto simp: expressible_def py_int_roundtrip)+
  subgoal by (rule reads_flag_field [OF main_options_lookup(15)]) (cases n; simp)+
  done

lemma reads_setting_words:
  assumes "expressible ft to_float ns"
  shows "reads (main_options to_float) (setting_words ft ns) main_defaults (ns\<lparr>ar_target := None, ar_command := []\<rparr>)"
proof -
  note opt = reads_main_option [OF assms]
  have "\<exists>n. reads (main_options to_float) (setting_words ft ns) main_defaults n \<and> n = ns\<lparr>ar_target := None, ar_command := []\<rparr>"
    unfolding setting_words_def
    by (intro exI conjI)
      (rule reads_append, rule opt(1), simp add: main_defaults_def,
       rule reads_append, rule opt(2), simp add: main_defaults_def,
       rule reads_append, rule opt(3), simp add: main_defaults_def,
       rule reads_append, rule opt(4),
       rule reads_append, rule opt(5), simp add: main_defaults_def,
       rule reads_append, rule opt(6), simp add: main_defaults_def,
       rule reads_append, rule opt(7),
       rule reads_append, rule opt(8),
       rule reads_append, rule opt(9), simp add: main_defaults_def,
       rule reads_append, rule opt(10), simp add: main_defaults_def,
       rule reads_append, rule opt(11), simp add: main_defaults_def,
       rule reads_append, rule opt(12),
       rule reads_append, rule opt(13),
       rule reads_append, rule opt(14),
       rule opt(15), simp add: main_defaults_def,
       cases ns, simp add: main_defaults_def)
  then show ?thesis by simp
qed

section \<open>The doctor's options\<close>

definition doctor_words :: "doctor_args \<Rightarrow> string list" where
  "doctor_words a =
     value_word ''--tid'' (map_option str_of_int (da_tid a)) @
     value_word ''--backend'' (Some (da_backend a)) @
     flag_word ''--stats'' (da_stats a) @
     flag_word ''--json'' (da_json_mode a) @
     flag_word ''-v'' (da_verbose a)"

lemma doctor_options_no_equals: "list_all (\<lambda>(opt, a). CHR ''='' \<notin> set opt) doctor_options"
  by (simp add: doctor_options_def)

lemma doctor_options_lookup:
  "map_of doctor_options ''--tid'' = Some (typed (py_int 10) (\<lambda>v ns. ns\<lparr>da_tid := Some v\<rparr>))"
  "map_of doctor_options ''--backend'' = Some (one_of BACKEND_CHOICES (\<lambda>v ns. ns\<lparr>da_backend := v\<rparr>))"
  "map_of doctor_options ''--stats'' = Some (Flag (\<lambda>ns. ns\<lparr>da_stats := True\<rparr>))"
  "map_of doctor_options ''--json'' = Some (Flag (\<lambda>ns. ns\<lparr>da_json_mode := True\<rparr>))"
  "map_of doctor_options ''-v'' = Some (Flag (\<lambda>ns. ns\<lparr>da_verbose := True\<rparr>))"
  by (simp_all add: doctor_options_def)

lemma reads_doctor_words:
  assumes "da_backend a \<in> set BACKEND_CHOICES" and "\<And>i. da_tid a = Some i \<Longrightarrow> \<bar>i\<bar> < 10 ^ max_str_digits"
  shows "reads doctor_options (doctor_words a) (doctor_defaults\<lparr>da_target := t\<rparr>) (a\<lparr>da_target := t\<rparr>)"
proof -
  let ?n1 = "doctor_defaults\<lparr>da_target := t, da_tid := da_tid a\<rparr>"
  let ?n2 = "?n1\<lparr>da_backend := da_backend a\<rparr>"
  let ?n3 = "?n2\<lparr>da_stats := da_stats a\<rparr>"
  let ?n4 = "?n3\<lparr>da_json_mode := da_json_mode a\<rparr>"
  let ?n5 = "?n4\<lparr>da_verbose := da_verbose a\<rparr>"
  have 1: "reads doctor_options (value_word ''--tid'' (map_option str_of_int (da_tid a))) (doctor_defaults\<lparr>da_target := t\<rparr>) ?n1"
    using assms(2)
    by (intro reads_value_word [OF doctor_options_lookup(1) [unfolded typed_def] doctor_options_no_equals])
      (auto simp: doctor_defaults_def py_int_roundtrip)
  have 2: "reads doctor_options (value_word ''--backend'' (Some (da_backend a))) ?n1 ?n2"
    using assms(1)
    by (intro reads_value_word [OF doctor_options_lookup(2) [unfolded one_of_def] doctor_options_no_equals]) auto
  have 3: "reads doctor_options (flag_word ''--stats'' (da_stats a)) ?n2 ?n3"
    by (rule reads_flag_field [OF doctor_options_lookup(3)]) (simp_all add: doctor_defaults_def)
  have 4: "reads doctor_options (flag_word ''--json'' (da_json_mode a)) ?n3 ?n4"
    by (rule reads_flag_field [OF doctor_options_lookup(4)]) (simp_all add: doctor_defaults_def)
  have 5: "reads doctor_options (flag_word ''-v'' (da_verbose a)) ?n4 ?n5"
    by (rule reads_flag_field [OF doctor_options_lookup(5)]) (simp_all add: doctor_defaults_def)
  have "?n5 = a\<lparr>da_target := t\<rparr>"
    by (cases a) (simp add: doctor_defaults_def)
  with reads_append [OF 1 reads_append [OF 2 reads_append [OF 3 reads_append [OF 4 5]]]] show ?thesis
    by (simp add: doctor_words_def)
qed

lemma reads_starts_with_dash: "reads tab ws ns ns' \<Longrightarrow> w \<in> set ws \<Longrightarrow> w \<noteq> [] \<and> hd w = CHR ''-''"
  unfolding reads_def list_all2_conv_all_nth in_set_conv_nth plain_word_def
  by (elim exE conjE) (auto simp: classify_def split: if_splits)

lemma reads_not_doctor:
  assumes "reads tab ws ns ns'" and "w \<noteq> ''doctor''"
  shows "hd (ws @ w # rest) \<noteq> ''doctor''"
proof (cases ws)
  case (Cons v vs)
  then show ?thesis
    using reads_starts_with_dash [OF assms(1), of v] by auto
qed (use assms(2) in simp)

lemma parser_options [simp]:
  "ap_options (main_parser to_float) = main_options to_float" "ap_options doctor_parser = doctor_options"
  "ap_remainder doctor_parser = None"
  "ap_remainder (main_parser to_float) = Some (\<lambda>words ns. ns\<lparr>ar_command := words\<rparr>)"
  "ap_target (main_parser to_float) = (\<lambda>v ns. ns\<lparr>ar_target := Some v\<rparr>)"
  "ap_target doctor_parser = (\<lambda>v ns. ns\<lparr>da_target := Some v\<rparr>)"
  by (simp_all add: main_parser_def doctor_parser_def)

text \<open>Options first, then the rest of the line.\<close>

lemma parse_cli_options:
  assumes "expressible ft to_float ns" and "w \<noteq> ''doctor''"
  shows "parse_cli_args to_float (setting_words ft ns @ w # rest) =
    (case parse_args (main_parser to_float) (ns\<lparr>ar_target := None, ar_command := []\<rparr>) (w # rest) of
       Inl status \<Rightarrow> ParseExit status | Inr args \<Rightarrow> SessionArgs args)"
  using reads_not_doctor [OF reads_setting_words [OF assms(1)] assms(2), of rest]
    parse_args_reads [of "main_parser to_float", simplified, OF reads_setting_words [OF assms(1)], of "w # rest"]
  by (simp add: parse_cli_args_def)

lemma namespace_rebuilt: "ns\<lparr>ar_target := None, ar_command := [], ar_target := t, ar_command := c\<rparr> = ns\<lparr>ar_target := t, ar_command := c\<rparr>"
  by simp

section \<open>Properties\<close>

text \<open>C16: Every session the options can describe can be asked for, and is what the parser hands to the
  program: the options written out for a namespace, \<open>--\<close>, the target and the command parse back to
  exactly that namespace.\<close>

theorem cli_arguments_roundtrip:
  assumes "expressible ft to_float ns" and "ar_target ns = Some target"
  shows "parse_cli_args to_float (setting_words ft ns @ ''--'' # target # ar_command ns) = SessionArgs ns"
  using parse_cli_options [OF assms(1), of "''--''"] parse_separated [of "main_parser to_float"] assms(2)
  by (cases ns) simp

lemma words_launch:
  assumes "expressible ft to_float ns"
    and args: "args = cli_args.truncate (ns\<lparr>ar_target := Some program, ar_command := arguments\<rparr>)"
  shows "blocksnoop to_float env mw (setting_words ft ns @ ''--'' # program # arguments) = ([], main mw args)"
    and "resolve_target args =
      (let rest = (if arguments \<noteq> [] \<and> hd arguments = ''--'' then tl arguments else arguments)
       in case py_int 10 program of None \<Rightarrow> (None, program # rest) | Some pid \<Rightarrow> (Some pid, rest))"
proof -
  have "parse_cli_args to_float (setting_words ft ns @ ''--'' # program # arguments) =
      SessionArgs (ns\<lparr>ar_target := Some program, ar_command := arguments\<rparr>)"
    using parse_cli_options [OF assms(1), of "''--''"] parse_separated [of "main_parser to_float"] by simp
  then show "blocksnoop to_float env mw (setting_words ft ns @ ''--'' # program # arguments) = ([], main mw args)"
    by (simp add: blocksnoop_def args)
  show "resolve_target args =
      (let rest = (if arguments \<noteq> [] \<and> hd arguments = ''--'' then tl arguments else arguments)
       in case py_int 10 program of None \<Rightarrow> (None, program # rest) | Some pid \<Rightarrow> (Some pid, rest))"
    unfolding args by (auto simp: resolve_target_def cli_args.defs Let_def split: list.split option.split)
qed

text \<open>C17: What a command line \<open>blocksnoop OPTIONS -- PROGRAM ARGUMENTS\<close> launches, when the environment is
  fine and \<open>--stats\<close> is not combined with a policy. A program that does not read as a number is launched
  with exactly the arguments typed, whatever they look like; only a first argument \<open>--\<close> is lost. Its
  output goes to the standard error in the JSON mode and is inherited otherwise; the session with
  the options that were typed runs on the process that was created, and an exception of the launch
  ends blocksnoop. A program that reads as a number is not launched: it is taken for a process id. Then
  its arguments are launched as a command of their own, if there are any, and otherwise the session
  attaches to that process.\<close>

theorem cli_launches_command:
  assumes "expressible ft to_float ns" and "validate_environment (mw_env mw) (ar_stats ns) (ar_backend ns) = None"
    and "\<not> (ar_stats ns \<and> (ar_fail_on ns \<noteq> ''none'' \<or> ar_fail_on_loss ns))"
    and "args = cli_args.truncate (ns\<lparr>ar_target := Some program, ar_command := arguments\<rparr>)"
    and "rest = (if arguments \<noteq> [] \<and> hd arguments = ''--'' then tl arguments else arguments)"
    and "launching = (\<lambda>command. case mw_popen mw command (if ar_json_mode ns then ToStderr else Inherited) of
        Inl e \<Rightarrow> MainEnds (Some e) None
      | Inr (pid, process) \<Rightarrow> run_session mw args pid (Some process))"
  shows "blocksnoop to_float env mw (setting_words ft ns @ ''--'' # program # arguments) =
    ([], case py_int 10 program of
           None \<Rightarrow> launching (program # rest)
         | Some pid \<Rightarrow> if rest \<noteq> [] then launching rest else run_session mw args pid None)"
proof -
  have "ar_stats args = ar_stats ns" "ar_backend args = ar_backend ns" "ar_fail_on args = ar_fail_on ns"
    "ar_fail_on_loss args = ar_fail_on_loss ns" "ar_json_mode args = ar_json_mode ns"
    by (simp_all add: assms(4) cli_args.defs)
  then have "main mw args =
      (case py_int 10 program of
         None \<Rightarrow> launching (program # rest)
       | Some pid \<Rightarrow> if rest \<noteq> [] then launching rest else run_session mw args pid None)"
    using assms(2,3) words_launch(2) [OF assms(1,4)] unfolding Let_def assms(5) [symmetric]
    by (auto simp: main_def child_stdout_def assms(6) split: option.split)
  then show ?thesis
    by (simp add: words_launch(1) [OF assms(1,4)])
qed

text \<open>C32: Options are only read before the process id: those that follow it are not settings of the
  session but the command, so \<open>main\<close> launches them instead of attaching to the process.\<close>

theorem cli_options_after_pid:
  assumes "expressible ft to_float ns" "expressible ft to_float late"
    and "py_int 10 pid = Some p" and "pid \<noteq> []" "hd pid \<noteq> CHR ''-''"
  shows "parse_cli_args to_float (setting_words ft ns @ pid # setting_words ft late) =
      SessionArgs (ns\<lparr>ar_target := Some pid, ar_command := setting_words ft late\<rparr>) \<and>
    resolve_target (cli_args.truncate (ns\<lparr>ar_target := Some pid, ar_command := setting_words ft late\<rparr>)) =
      (Some p, setting_words ft late) \<and> setting_words ft late \<noteq> []"
proof -
  note late = reads_setting_words [OF assms(2)]
  have "py_int 10 ''doctor'' = None"
    by code_simp
  then have ne: "pid \<noteq> ''--''" "pid \<noteq> ''doctor''"
    using assms(3,5) by auto
  have first: "setting_words ft late = [] \<or> hd (setting_words ft late) \<noteq> ''--''"
    using reads_no_dashes [OF late] list.set_sel(1) by metis
  have cw: "classify_words (main_options to_float) (setting_words ft late) = classified (main_options to_float) (setting_words ft late)"
    using classify_words_append [OF reads_no_dashes [OF late], of "main_options to_float" "[]"] by simp
  have "\<not> list_ex (\<lambda>w. is_ambiguous (snd w)) (classify_words (main_options to_float) (setting_words ft late))"
    unfolding cw using reads_not_ambiguous [OF late] by (auto simp: classified_def list_ex_iff)
  with parse_target [of "main_parser to_float" _ pid "setting_words ft late"] first ne assms(4,5)
  have "parse_args (main_parser to_float) n (pid # setting_words ft late) =
      Inr (n\<lparr>ar_target := Some pid, ar_command := setting_words ft late\<rparr>)" for n
    by (simp add: classify_def)
  with parse_cli_options [OF assms(1) ne(2), of "setting_words ft late"] first assms(3) show ?thesis
    by (auto simp: resolve_target_def cli_args.defs Let_def setting_words_def value_word_def split: list.split)
qed

text \<open>The options of the doctor may stand before or after the process id, in any setting.\<close>

theorem doctor_options_either_side:
  assumes "da_backend a \<in> set BACKEND_CHOICES" and "\<And>i. da_tid a = Some i \<Longrightarrow> \<bar>i\<bar> < 10 ^ max_str_digits"
    and "da_target a = Some target" and "target \<noteq> []" "hd target \<noteq> CHR ''-''"
  shows "parse_cli_args to_float (''doctor'' # doctor_words a @ [target]) = DoctorArgs a \<and>
    parse_cli_args to_float (''doctor'' # target # doctor_words a) = DoctorArgs a"
proof -
  have a: "a\<lparr>da_target := Some target\<rparr> = a"
    using assms(3) by (cases a) simp
  have d: "doctor_defaults\<lparr>da_target := None\<rparr> = doctor_defaults"
    by (simp add: doctor_defaults_def)
  have t: "classify doctor_options target = Positional" "target \<noteq> ''--''"
    using assms(4,5) by (auto simp: classify_def)
  note before = reads_doctor_words [OF assms(1,2), where t = None, unfolded d]
  note after = reads_doctor_words [OF assms(1,2), where t = "Some target", unfolded a]
  have "parse_args doctor_parser doctor_defaults (doctor_words a @ [target]) = Inr a"
    using parse_args_reads [of doctor_parser, simplified, OF before, of "[target]"]
      parse_target_reads [of doctor_parser target "[]"] t a by simp
  moreover have "parse_args doctor_parser doctor_defaults (target # doctor_words a) = Inr a"
    using parse_target_reads [of doctor_parser target "doctor_words a" doctor_defaults a] t after by simp
  ultimately show ?thesis
    by (simp add: parse_cli_args_def)
qed

lemma doctor_parser_keeps_backend: "parser_keeps (\<lambda>a. da_backend a \<in> set BACKEND_CHOICES) doctor_parser"
  by (auto simp: parser_keeps_def doctor_options_def typed_def one_of_def)

lemma main_parser_keeps_choices:
  "parser_keeps (\<lambda>ns. ar_backend ns \<in> set BACKEND_CHOICES \<and> ar_fail_on ns \<in> set FAIL_ON_CHOICES) (main_parser to_float)"
  by (auto simp: parser_keeps_def main_options_def typed_def text_value_def one_of_def)

lemma default_choices:
  "da_backend doctor_defaults \<in> set BACKEND_CHOICES" "ar_backend main_defaults \<in> set BACKEND_CHOICES"
  "ar_fail_on main_defaults \<in> set FAIL_ON_CHOICES"
  by (simp_all add: doctor_defaults_def main_defaults_def BACKEND_CHOICES_def FAIL_ON_CHOICES_def)

text \<open>C30: Whatever the command line, a session or a doctor run that starts has a backend that exists and a
  policy that is defined: the parser lets nothing else through.\<close>

theorem cli_choices_valid:
  "(case parse_cli_args to_float arguments of
      ParseExit status \<Rightarrow> status \<in> {0, 2}
    | DoctorArgs a \<Rightarrow> da_backend a \<in> set BACKEND_CHOICES
    | SessionArgs ns \<Rightarrow> ar_backend ns \<in> set BACKEND_CHOICES \<and> ar_fail_on ns \<in> set FAIL_ON_CHOICES \<and>
        (\<exists>d. create_detector (ar_backend ns) config = Inr d))"
proof (cases "parse_cli_args to_float arguments")
  case (ParseExit status)
  then have "parse_args doctor_parser doctor_defaults (tl arguments) = Inl status \<or>
      parse_args (main_parser to_float) main_defaults arguments = Inl status"
    by (simp add: parse_cli_args_def split: if_splits sum.splits)
  then have "status \<in> {0, 2}"
    by (elim disjE) (rule parse_args_status, assumption)+
  then show ?thesis
    by (simp add: ParseExit)
next
  case (DoctorArgs a)
  then have "parse_args doctor_parser doctor_defaults (tl arguments) = Inr a"
    by (simp add: parse_cli_args_def split: if_splits sum.splits)
  from parse_args_keeps [OF this doctor_parser_keeps_backend default_choices(1)] show ?thesis
    by (simp add: DoctorArgs)
next
  case (SessionArgs ns)
  then have "parse_args (main_parser to_float) main_defaults arguments = Inr ns"
    by (simp add: parse_cli_args_def split: if_splits sum.splits)
  from parse_args_keeps [OF this main_parser_keeps_choices] default_choices
  have "ar_backend ns \<in> set BACKEND_CHOICES \<and> ar_fail_on ns \<in> set FAIL_ON_CHOICES"
    by simp
  moreover from this have "\<exists>d. create_detector (ar_backend ns) config = Inr d"
    by (auto simp: BACKEND_CHOICES_def create_detector_def)
  ultimately show ?thesis
    by (simp add: SessionArgs)
qed

lemma classify_unknown_long:
  assumes "w = ''--'' @ c # cs" and "CHR ''='' \<notin> set w" "CHR '' '' \<notin> set w"
    and "list_all (\<lambda>(opt, a). \<not> startswith opt w) tab"
  shows "classify tab w = Optional None w False None"
proof -
  have "map_of tab w = None"
    using assms(4) by (auto simp: map_of_eq_None_iff list_all_iff startswith_def)
  moreover have "split_once (CHR ''='') w = (w, None)"
  proof -
    have all: "\<forall>c \<in> set w. c \<noteq> CHR ''=''"
      using assms(2) by auto
    then have "dropWhile (\<lambda>c. c \<noteq> CHR ''='') w = []"
      by (simp only: dropWhile_eq_Nil_conv)
    moreover have "takeWhile (\<lambda>c. c \<noteq> CHR ''='') w = w"
      using all by (simp only: takeWhile_eq_all_conv)
    ultimately show ?thesis
      by (simp only: split_once_def list.case)
  qed
  moreover have "option_tuples tab w = []"
    using assms(1,4) calculation(2)
    by (auto simp: option_tuples_def startswith_def filter_empty_conv list_all_iff)
  moreover have "\<not> negative_number w"
    by (simp add: assms(1) negative_number_def ap_digit_def)
  ultimately show ?thesis
    using assms(1,3) by (simp add: classify_def)
qed

text \<open>C31: A misspelt option never starts a session: the program ends with the usage status before the
  environment is checked, anything is launched or attached, and whatever follows on the line.\<close>

theorem cli_unknown_option:
  assumes "expressible ft to_float ns"
    and "w = ''--'' @ c # cs" "CHR ''='' \<notin> set w" "CHR '' '' \<notin> set w"
    and "list_all (\<lambda>(opt, a). \<not> startswith opt w) (main_options to_float)"
  shows "\<exists>status \<in> {0, 2}. blocksnoop to_float env mw (setting_words ft ns @ w # rest) =
    ([], MainEnds (Some (SystemExit status)) None)"
proof -
  have w: "w \<noteq> ''--''" "w \<noteq> ''doctor''"
    using assms(2) by auto
  obtain status where st: "parse_args (main_parser to_float) (ns\<lparr>ar_target := None, ar_command := []\<rparr>) (w # rest) = Inl status"
    using parse_args_unknown [of "main_parser to_float" w] classify_unknown_long [OF assms(2-5)] w(1) by auto
  then have "blocksnoop to_float env mw (setting_words ft ns @ w # rest) = ([], MainEnds (Some (SystemExit status)) None)"
    by (simp add: blocksnoop_def parse_cli_options [OF assms(1) w(2)])
  with parse_args_status [OF st] show ?thesis
    by blast
qed

section \<open>Concrete command lines\<close>

definition example_ft :: "rat \<Rightarrow> string" where
  "example_ft x = (if x = 500 then ''500.0'' else ''200.0'')"

definition example_float :: "string \<Rightarrow> rat option" where
  "example_float s = (if s = ''500.0'' then Some 500 else if s = ''200.0'' then Some 200 else None)"

lemma main_defaults_expressible: "expressible example_ft example_float main_defaults"
  by (auto simp: expressible_def main_defaults_def BACKEND_CHOICES_def FAIL_ON_CHOICES_def example_ft_def example_float_def)

lemma example_expressible:
  "expressible example_ft example_float (main_defaults\<lparr>ar_target := t, ar_command := c\<rparr>)"
  using main_defaults_expressible by (simp add: expressible_def)

lemma cli_arguments_roundtrip_witness:
  "parse_cli_args example_float
     (setting_words example_ft main_defaults @ [''--'', ''python'', ''app.py'', ''--json'']) =
   SessionArgs (main_defaults\<lparr>ar_target := Some ''python'', ar_command := [''app.py'', ''--json'']\<rparr>)"
  using cli_arguments_roundtrip [OF example_expressible [where t = "Some ''python''" and c = "[''app.py'', ''--json'']"]]
  by (simp add: setting_words_def)

lemma cli_launches_command_witness:
  "blocksnoop example_float doctor_host
     ((example_main 0)\<lparr>mw_popen := (\<lambda>command out. if command = [''x'', ''y''] \<and> out = Inherited
        then Inl OSError else Inr (9, example_child))\<rparr>)
     (setting_words example_ft main_defaults @ [''--'', ''x'', ''--'', ''y'']) = ([], MainEnds (Some OSError) None)"
proof -
  have "py_int 10 ''x'' = None"
    by code_simp
  moreover have "validate_environment root_env (ar_stats main_defaults) (ar_backend main_defaults) = None"
    by (simp add: main_defaults_def root_env_ok)
  ultimately show ?thesis
    by (subst cli_launches_command [OF main_defaults_expressible _ _ refl refl refl, where program = "''x''"
          and arguments = "[''--'', ''y'']", simplified])
      (simp_all add: main_defaults_def example_main_def)
qed

lemma cli_options_after_pid_witness:
  "parse_cli_args example_float (setting_words example_ft main_defaults @ ''7'' # setting_words example_ft main_defaults) =
    SessionArgs (main_defaults\<lparr>ar_target := Some ''7'', ar_command := setting_words example_ft main_defaults\<rparr>)"
proof -
  have "py_int 10 ''7'' = Some 7"
    by code_simp
  from cli_options_after_pid [OF main_defaults_expressible main_defaults_expressible this] show ?thesis
    by simp
qed

lemma doctor_options_either_side_witness:
  "parse_cli_args example_float [''doctor'', ''7'', ''--backend=core'', ''--json''] =
     DoctorArgs (doctor_defaults\<lparr>da_target := Some ''7'', da_json_mode := True\<rparr>)"
  using doctor_options_either_side [of "doctor_defaults\<lparr>da_target := Some ''7'', da_json_mode := True\<rparr>" "''7''"]
  by (simp add: doctor_defaults_def BACKEND_CHOICES_def doctor_words_def value_word_def flag_word_def)

lemma cli_unknown_option_witness:
  "\<exists>status \<in> {0, 2}. blocksnoop example_float doctor_host (example_main 0)
     (setting_words example_ft main_defaults @ [''--statistics'', ''7'']) = ([], MainEnds (Some (SystemExit status)) None)"
  by (rule cli_unknown_option [OF main_defaults_expressible, where c = "CHR ''s''" and cs = "''tatistics''"])
    (simp_all add: main_options_def startswith_def)

end
