(* ===== verification/JsonText.thy ===== *)
theory JsonText
  imports PyFormat
begin

text \<open>
  \<open>json.dumps\<close> and \<open>json.loads\<close> on ASCII text, as the JSON sinks and the sidecar protocol use them.
  The text of a float is a parameter: \<open>ft_repr\<close> stands for \<open>float.__repr__\<close> and \<open>ft_parse\<close> for the
  conversion of a number with a fraction or an exponent. \<open>NaN\<close> and the infinities are not modelled.
\<close>

section \<open>Writing\<close>

record float_text =
  ft_repr :: "rat \<Rightarrow> string"
  ft_parse :: "string \<Rightarrow> rat"

definition hex_char :: "nat \<Rightarrow> char" where
  "hex_char d = char_of (if d < 10 then 48 + d else 87 + d)"

definition escape_char :: "char \<Rightarrow> string" where
  "escape_char c =
     (let n = of_char c :: nat
      in if c = CHR 0x22 then [CHR 0x5C, CHR 0x22]
         else if c = CHR 0x5C then [CHR 0x5C, CHR 0x5C]
         else if c = CHR 0x0A then [CHR 0x5C, CHR ''n'']
         else if c = CHR 0x0D then [CHR 0x5C, CHR ''r'']
         else if c = CHR 0x09 then [CHR 0x5C, CHR ''t'']
         else if c = CHR 0x0C then [CHR 0x5C, CHR ''f'']
         else if c = CHR 0x08 then [CHR 0x5C, CHR ''b'']
         else if 32 \<le> n \<and> n \<le> 126 then [c]
         else [CHR 0x5C, CHR ''u'', CHR ''0'', CHR ''0'', hex_char (n div 16), hex_char (n mod 16)])"

definition dumps_str :: "string \<Rightarrow> string" where
  "dumps_str s = CHR 0x22 # concat (map escape_char s) @ [CHR 0x22]"

text \<open>\<open>sp\<close> is the white space after commas and colons: a blank by default, nothing in compact text.\<close>

primrec dumps_sp :: "string \<Rightarrow> float_text \<Rightarrow> json \<Rightarrow> string" where
  "dumps_sp sp ft JNull = ''null''"
| "dumps_sp sp ft (JBool b) = (if b then ''true'' else ''false'')"
| "dumps_sp sp ft (JInt i) = str_of_int i"
| "dumps_sp sp ft (JFloat x) = ft_repr ft x"
| "dumps_sp sp ft (JStr s) = dumps_str s"
| "dumps_sp sp ft (JList vs) = CHR ''['' # join ('','' @ sp) (map (dumps_sp sp ft) vs) @ '']''"
| "dumps_sp sp ft (JObj kvs) =
     CHR ''{'' # join ('','' @ sp)
       (map (\<lambda>kt. dumps_str (fst kt) @ '':'' @ sp @ snd kt) (map (map_prod id (dumps_sp sp ft)) kvs)) @ ''}''"

abbreviation dumps :: "float_text \<Rightarrow> json \<Rightarrow> string" where
  "dumps \<equiv> dumps_sp '' ''"

section \<open>Reading\<close>

definition json_space :: "char \<Rightarrow> bool" where
  "json_space c \<longleftrightarrow> c \<in> set [CHR '' '', CHR 0x09, CHR 0x0A, CHR 0x0D]"

definition skip :: "string \<Rightarrow> string" where
  "skip s = dropWhile json_space s"

definition hex_val :: "char \<Rightarrow> nat option" where
  "hex_val c = (case digit_val c of Some d \<Rightarrow> if d < 16 then Some d else None | None \<Rightarrow> None)"

definition hex4 :: "string \<Rightarrow> (nat \<times> string) option" where
  "hex4 s =
     (case s of
        a # b # c # d # r \<Rightarrow>
          (case (hex_val a, hex_val b, hex_val c, hex_val d) of
             (Some a, Some b, Some c, Some d) \<Rightarrow> Some (((a * 16 + b) * 16 + c) * 16 + d, r)
           | _ \<Rightarrow> None)
      | _ \<Rightarrow> None)"

text \<open>The characters after a backslash, besides \<open>u\<close>.\<close>

definition short_escape :: "char \<Rightarrow> char option" where
  "short_escape c =
     map_of [(CHR 0x22, CHR 0x22), (CHR 0x5C, CHR 0x5C), (CHR ''/'', CHR ''/''), (CHR ''b'', CHR 0x08),
       (CHR ''f'', CHR 0x0C), (CHR ''n'', CHR 0x0A), (CHR ''r'', CHR 0x0D), (CHR ''t'', CHR 0x09)] c"

text \<open>The rest of a string after its opening quote. Only escapes of ASCII characters are read.\<close>

function scan_string :: "string \<Rightarrow> string \<Rightarrow> (string \<times> string) option" where
  "scan_string acc s =
     (case s of
        [] \<Rightarrow> None
      | c # r \<Rightarrow>
          if c = CHR 0x22 then Some (rev acc, r)
          else if c = CHR 0x5C
          then (case r of
                  [] \<Rightarrow> None
                | e # r' \<Rightarrow>
                    if e = CHR ''u''
                    then (case hex4 r' of
                            Some (n, t) \<Rightarrow> if n < 128 \<and> length t < length s then scan_string (char_of n # acc) t else None
                          | None \<Rightarrow> None)
                    else (case short_escape e of Some x \<Rightarrow> scan_string (x # acc) r' | None \<Rightarrow> None))
          else if (of_char c :: nat) < 32 then None
          else scan_string (c # acc) r)"
  by pat_completeness auto
termination
  by (relation "measure (\<lambda>(acc, s). length s)") auto

declare scan_string.simps [simp del]

definition ascii_num :: "char \<Rightarrow> bool" where
  "ascii_num c \<longleftrightarrow> (48 :: nat) \<le> of_char c \<and> (of_char c :: nat) \<le> 57"

text \<open>\<open>0|[1-9][0-9]*\<close> and \<open>-?(0|[1-9][0-9]*)\<close>\<close>

definition scan_digits :: "string \<Rightarrow> (string \<times> string) option" where
  "scan_digits s =
     (case s of
        [] \<Rightarrow> None
      | c # r \<Rightarrow>
          if c = CHR ''0'' then Some (''0'', r)
          else if ascii_num c then Some (takeWhile ascii_num s, dropWhile ascii_num s)
          else None)"

definition scan_int :: "string \<Rightarrow> (string \<times> string) option" where
  "scan_int s =
     (if startswith s ''-'' then map_option (\<lambda>(w, r). (CHR ''-'' # w, r)) (scan_digits (tl s)) else scan_digits s)"

text \<open>\<open>(\.[0-9]+)?\<close>\<close>

definition scan_frac :: "string \<Rightarrow> string \<times> string" where
  "scan_frac s =
     (case s of
        [] \<Rightarrow> ([], s)
      | c # r \<Rightarrow> if c = CHR ''.'' \<and> takeWhile ascii_num r \<noteq> []
                 then (c # takeWhile ascii_num r, dropWhile ascii_num r) else ([], s))"

text \<open>\<open>([eE][-+]?[0-9]+)?\<close>\<close>

definition scan_exp :: "string \<Rightarrow> string \<times> string" where
  "scan_exp s =
     (case s of
        [] \<Rightarrow> ([], s)
      | c # r \<Rightarrow>
          let (sign, t) = (case r of d # r' \<Rightarrow> if d = CHR ''-'' \<or> d = CHR ''+'' then ([d], r') else ([], r) | [] \<Rightarrow> ([], r))
          in if (c = CHR ''e'' \<or> c = CHR ''E'') \<and> takeWhile ascii_num t \<noteq> []
             then (c # sign @ takeWhile ascii_num t, dropWhile ascii_num t) else ([], s))"

definition scan_number :: "float_text \<Rightarrow> string \<Rightarrow> (json \<times> string) option" where
  "scan_number ft s =
     (case scan_int s of
        None \<Rightarrow> None
      | Some (whole, r) \<Rightarrow>
          let (frac, r) = scan_frac r;
              (ex, r) = scan_exp r
          in if frac = [] \<and> ex = [] then map_option (\<lambda>i. (JInt i, r)) (py_int 10 whole)
             else Some (JFloat (ft_parse ft (whole @ frac @ ex)), r))"

definition literal :: "string \<Rightarrow> json \<Rightarrow> string \<Rightarrow> (json \<times> string) option" where
  "literal word v s = (if startswith s word then Some (v, drop (length word) s) else None)"

text \<open>Values, list items and object members; every call uses up one unit of fuel.\<close>

fun scan_value :: "float_text \<Rightarrow> nat \<Rightarrow> string \<Rightarrow> (json \<times> string) option"
  and scan_items :: "float_text \<Rightarrow> nat \<Rightarrow> string \<Rightarrow> (json list \<times> string) option"
  and scan_members :: "float_text \<Rightarrow> nat \<Rightarrow> string \<Rightarrow> ((string \<times> json) list \<times> string) option" where
  "scan_value ft 0 s = None"
| "scan_value ft (Suc n) s =
     (case s of
        [] \<Rightarrow> None
      | c # r \<Rightarrow>
          if c = CHR 0x22 then map_option (\<lambda>(t, r). (JStr t, r)) (scan_string [] r)
          else if c = CHR ''{''
          then (case skip r of
                  [] \<Rightarrow> None
                | d # r' \<Rightarrow> if d = CHR ''}'' then Some (JObj [], r')
                    else map_option (\<lambda>(kvs, r). (JObj (foldl (\<lambda>d kv. dict_set (fst kv) (snd kv) d) [] kvs), r))
                           (scan_members ft n (d # r')))
          else if c = CHR ''[''
          then (case skip r of
                  [] \<Rightarrow> None
                | d # r' \<Rightarrow> if d = CHR '']'' then Some (JList [], r')
                    else map_option (\<lambda>(vs, r). (JList vs, r)) (scan_items ft n (d # r')))
          else if c = CHR ''n'' then literal ''null'' JNull s
          else if c = CHR ''t'' then literal ''true'' (JBool True) s
          else if c = CHR ''f'' then literal ''false'' (JBool False) s
          else scan_number ft s)"
| "scan_items ft 0 s = None"
| "scan_items ft (Suc n) s =
     (case scan_value ft n s of
        None \<Rightarrow> None
      | Some (v, r) \<Rightarrow>
          (case skip r of
             [] \<Rightarrow> None
           | c # r' \<Rightarrow> if c = CHR '']'' then Some ([v], r')
               else if c = CHR '','' then map_option (\<lambda>(vs, r). (v # vs, r)) (scan_items ft n (skip r'))
               else None))"
| "scan_members ft 0 s = None"
| "scan_members ft (Suc n) s =
     (case s of
        [] \<Rightarrow> None
      | q # r \<Rightarrow>
          if q \<noteq> CHR 0x22 then None
          else case scan_string [] r of
                 None \<Rightarrow> None
               | Some (k, r) \<Rightarrow>
                   (case skip r of
                      [] \<Rightarrow> None
                    | c # r \<Rightarrow>
                        if c \<noteq> CHR '':'' then None
                        else case scan_value ft n (skip r) of
                               None \<Rightarrow> None
                             | Some (v, r) \<Rightarrow>
                                 (case skip r of
                                    [] \<Rightarrow> None
                                  | c # r \<Rightarrow> if c = CHR ''}'' then Some ([(k, v)], r)
                                      else if c = CHR '',''
                                      then map_option (\<lambda>(kvs, r). ((k, v) # kvs, r)) (scan_members ft n (skip r))
                                      else None)))"

text \<open>\<open>None\<close> is the \<open>JSONDecodeError\<close> (or the \<open>ValueError\<close> of an integer with more than 4300 digits). A
  value takes at least one character, so the length of the text is fuel enough.\<close>

definition loads :: "float_text \<Rightarrow> string \<Rightarrow> json option" where
  "loads ft s =
     (case scan_value ft (length s) (skip s) of
        Some (v, r) \<Rightarrow> if skip r = [] then Some v else None
      | None \<Rightarrow> None)"

section \<open>Reading back what was written\<close>

definition ascii :: "string \<Rightarrow> bool" where
  "ascii s = list_all (\<lambda>c. (of_char c :: nat) < 128) s"

definition float_text_ok :: "float_text \<Rightarrow> rat \<Rightarrow> bool" where
  "float_text_ok ft x = (scan_number ft (ft_repr ft x) = Some (JFloat x, []))"

primrec json_ok :: "float_text \<Rightarrow> json \<Rightarrow> bool" where
  "json_ok ft JNull = True"
| "json_ok ft (JBool b) = True"
| "json_ok ft (JInt i) = (\<bar>i\<bar> < 10 ^ max_str_digits)"
| "json_ok ft (JFloat x) = float_text_ok ft x"
| "json_ok ft (JStr s) = ascii s"
| "json_ok ft (JList vs) = list_all id (map (json_ok ft) vs)"
| "json_ok ft (JObj kvs) =
     (distinct (map fst kvs) \<and> list_all (\<lambda>kb. ascii (fst kb) \<and> snd kb) (map (map_prod id (json_ok ft)) kvs))"

subsection \<open>Strings\<close>

lemma hex_val_char: "d < 16 \<Longrightarrow> hex_val (hex_char d) = Some d"
  by (simp add: hex_val_def hex_char_def digit_val_def Let_def)

lemma hex4_byte:
  assumes "n < 128"
  shows "hex4 (CHR ''0'' # CHR ''0'' # hex_char (n div 16) # hex_char (n mod 16) # r) = Some (n, r)"
proof -
  have "hex_val (CHR ''0'') = Some 0"
    by (simp add: hex_val_def digit_val_def)
  then show ?thesis
    using assms by (simp add: hex4_def hex_val_char)
qed

lemma scan_escape:
  assumes "(of_char c :: nat) < 128"
  shows "scan_string acc (escape_char c @ r) = scan_string (c # acc) r"
proof -
  have plain: "scan_string acc (c # r) = scan_string (c # acc) r"
    if "c \<noteq> CHR 0x22" "c \<noteq> CHR 0x5C" "32 \<le> (of_char c :: nat)"
    using that by (subst scan_string.simps) simp
  have short: "scan_string acc (CHR 0x5C # e # r) = scan_string (x # acc) r"
    if "e \<noteq> CHR ''u''" "short_escape e = Some x" for e x
    using that by (subst scan_string.simps) simp
  have unicode: "scan_string acc (CHR 0x5C # CHR ''u'' # CHR ''0'' # CHR ''0'' # hex_char (of_char c div 16) #
      hex_char (of_char c mod 16) # r) = scan_string (c # acc) r"
    using assms by (subst scan_string.simps) (simp add: hex4_byte)
  show ?thesis
    using plain short unicode by (simp add: escape_char_def Let_def short_escape_def)
qed

lemma scan_escapes:
  "ascii s \<Longrightarrow> scan_string acc (concat (map escape_char s) @ CHR 0x22 # r) = Some (rev acc @ s, r)"
proof (induction s arbitrary: acc)
  case Nil
  show ?case
    by (subst scan_string.simps) simp
next
  case (Cons c s)
  then have "(of_char c :: nat) < 128" "ascii s"
    by (simp_all add: ascii_def)
  then show ?case
    using Cons.IH [of "c # acc"] by (simp add: scan_escape)
qed

lemma scan_dumps_str:
  "ascii s \<Longrightarrow> scan_string [] (tl (dumps_str s) @ r) = Some (s, r)"
  using scan_escapes [of s "[]" r] by (simp add: dumps_str_def)

lemma dumps_str_quote: "dumps_str s = CHR 0x22 # tl (dumps_str s)"
  by (simp add: dumps_str_def)

subsection \<open>Numbers\<close>

definition delim :: "string \<Rightarrow> bool" where
  "delim r = (case r of [] \<Rightarrow> True | c # _ \<Rightarrow> \<not> ascii_num c \<and> c \<notin> set [CHR ''.'', CHR ''e'', CHR ''E'', CHR ''-'', CHR ''+''])"

lemma delim_num: "delim r \<Longrightarrow> r = [] \<or> \<not> ascii_num (hd r)"
  by (cases r) (simp_all add: delim_def)

lemma span_append:
  assumes "r = [] \<or> \<not> P (hd r)"
  shows "takeWhile P (xs @ r) = takeWhile P xs" and "dropWhile P (xs @ r) = dropWhile P xs @ r"
  using assms by (induction xs) (cases r; auto)+

lemmas span_num = span_append [where P = ascii_num, OF delim_num]

lemma scan_digits_append:
  "\<lbrakk>scan_digits s = Some (w, t); delim r\<rbrakk> \<Longrightarrow> scan_digits (s @ r) = Some (w, t @ r)"
  using span_num [of r s] by (cases s) (auto simp: scan_digits_def split: if_splits)

lemma scan_int_append:
  assumes "scan_int s = Some (w, t)" and "delim r"
  shows "scan_int (s @ r) = Some (w, t @ r)"
proof -
  obtain c s' where "s = c # s'"
    using assms(1) by (cases s) (simp_all add: scan_int_def scan_digits_def startswith_def)
  then show ?thesis
    using assms(1) scan_digits_append [OF _ assms(2), of s'] scan_digits_append [OF _ assms(2), of s]
    by (auto simp: scan_int_def startswith_Cons split: if_splits)
qed

lemma scan_frac_append:
  "\<lbrakk>scan_frac s = (w, t); delim r\<rbrakk> \<Longrightarrow> scan_frac (s @ r) = (w, t @ r)"
  by (cases s) (auto simp: scan_frac_def span_num delim_def split: list.splits if_splits)

lemma scan_exp_append:
  "\<lbrakk>scan_exp s = (w, t); delim r\<rbrakk> \<Longrightarrow> scan_exp (s @ r) = (w, t @ r)"
  by (cases s rule: remdups_adj.cases)
     (auto simp: scan_exp_def span_num delim_def ascii_num_def Let_def split: list.splits if_splits)

lemma scan_number_append:
  "\<lbrakk>scan_number ft s = Some (v, t); delim r\<rbrakk> \<Longrightarrow> scan_number ft (s @ r) = Some (v, t @ r)"
  by (auto simp: scan_number_def scan_int_append scan_frac_append scan_exp_append Let_def
      split: option.splits prod.splits if_splits)

definition number_start :: "char \<Rightarrow> bool" where
  "number_start c = (c = CHR ''-'' \<or> ascii_num c)"

lemma scan_value_number:
  assumes "scan_number ft s = Some (v, [])" and "delim r"
  shows "scan_value ft (Suc n) (s @ r) = Some (v, r)"
proof -
  obtain c s' where s: "s = c # s'"
    using assms(1) by (cases s) (simp_all add: scan_number_def scan_int_def scan_digits_def startswith_def)
  have "ascii_num (CHR ''0'')"
    by (simp add: ascii_num_def)
  then have "number_start c"
    using assms(1) by (auto simp: s scan_number_def scan_int_def scan_digits_def startswith_Cons number_start_def split: option.splits if_splits)
  then have "c \<notin> set [CHR 0x22, CHR ''{'', CHR ''['', CHR ''n'', CHR ''t'', CHR ''f'']"
    by (auto simp: number_start_def ascii_num_def)
  then show ?thesis
    using scan_number_append [OF assms] by (simp add: s)
qed

lemma digit_char_num: "d < 10 \<Longrightarrow> ascii_num (digit_char d)"
  by (simp add: digit_char_def ascii_num_def)

lemma digit_char_0: "d < 10 \<Longrightarrow> digit_char d = CHR ''0'' \<longleftrightarrow> d = 0"
proof -
  assume "d < 10"
  moreover have "digit_val (CHR ''0'') = Some 0" "digit_char 0 = CHR ''0''"
    by code_simp+
  ultimately show ?thesis
    using digit_val_char [of d] by auto
qed

lemma nat_to_str_num: "list_all ascii_num (nat_to_str n)"
  using nat_to_str_digits [of n] digit_char_num by (auto simp: list_all_iff is_digit_def)

lemma nat_to_str_no_leading_zero: "0 < n \<Longrightarrow> hd (nat_to_str n) \<noteq> CHR ''0''"
proof (induction n rule: nat_to_str.induct)
  case (1 n)
  then show ?case
    by (cases "n < 10") (simp_all add: nat_to_str.simps [of n] digit_char_0)
qed

lemma scan_int_digits:
  assumes "list_all ascii_num ds" and "ds \<noteq> []" and "ds = ''0'' \<or> hd ds \<noteq> CHR ''0''"
  shows "scan_int ds = Some (ds, [])" and "scan_int (CHR ''-'' # ds) = Some (CHR ''-'' # ds, [])"
proof -
  obtain c cs where ds: "ds = c # cs"
    using assms(2) by (cases ds) simp_all
  have "takeWhile ascii_num ds = ds" "dropWhile ascii_num ds = []"
    using assms(1) by (simp_all add: list_all_iff takeWhile_eq_all_conv)
  moreover have "c \<noteq> CHR ''-''"
    using assms(1) by (auto simp: ds ascii_num_def)
  ultimately show "scan_int ds = Some (ds, [])" "scan_int (CHR ''-'' # ds) = Some (CHR ''-'' # ds, [])"
    using assms by (auto simp: ds scan_int_def scan_digits_def startswith_Cons)
qed

lemma scan_int_str: "scan_int (str_of_int i) = Some (str_of_int i, [])"
proof -
  have "nat_to_str n = ''0'' \<or> hd (nat_to_str n) \<noteq> CHR ''0''" for n
    using nat_to_str_no_leading_zero [of n] by (cases n) (simp_all add: nat_to_str.simps digit_char_def)
  then show ?thesis
    using scan_int_digits [OF nat_to_str_num nat_to_str_nonempty] by (simp add: str_of_int_def)
qed

lemma scan_number_int: "\<bar>i\<bar> < 10 ^ max_str_digits \<Longrightarrow> scan_number ft (str_of_int i) = Some (JInt i, [])"
  by (simp add: scan_number_def scan_int_str scan_frac_def scan_exp_def py_int_roundtrip)

subsection \<open>Documents\<close>

primrec fuel_items :: "nat list \<Rightarrow> nat" where
  "fuel_items [] = 0"
| "fuel_items (n # ns) = Suc (max n (fuel_items ns))"

primrec fuel :: "json \<Rightarrow> nat" where
  "fuel JNull = 1"
| "fuel (JBool b) = 1"
| "fuel (JInt i) = 1"
| "fuel (JFloat x) = 1"
| "fuel (JStr s) = 1"
| "fuel (JList vs) = Suc (fuel_items (map fuel vs))"
| "fuel (JObj kvs) = Suc (fuel_items (map snd (map (map_prod id fuel) kvs)))"

lemma skip_not_space [simp]: "\<not> json_space c \<Longrightarrow> skip (c # s) = c # s"
  by (simp add: skip_def)

lemma skip_spaces: "list_all json_space sp \<Longrightarrow> skip (sp @ s) = skip s"
  by (simp add: skip_def list_all_iff)

lemma not_json_space [simp]:
  "\<not> json_space (CHR 0x22)" "\<not> json_space (CHR '','')" "\<not> json_space (CHR '':'')" "\<not> json_space (CHR '']'')"
  "\<not> json_space (CHR ''}'')"
  by (simp_all add: json_space_def)

lemma delim_ends [simp]: "delim (CHR '','' # r)" "delim (CHR '']'' # r)" "delim (CHR ''}'' # r)" "delim []"
  by (simp_all add: delim_def ascii_num_def)

text \<open>The first character of a document is neither white space nor a closing bracket.\<close>

definition starts_value :: "string \<Rightarrow> bool" where
  "starts_value s = (s \<noteq> [] \<and> \<not> json_space (hd s) \<and> hd s \<noteq> CHR '']'' \<and> hd s \<noteq> CHR ''}'')"

lemma number_starts_value:
  assumes "scan_number ft s = Some (v, t)"
  shows "starts_value s"
proof -
  obtain c s' where s: "s = c # s'"
    using assms by (cases s) (simp_all add: scan_number_def scan_int_def scan_digits_def startswith_def)
  have "ascii_num (CHR ''0'')"
    by (simp add: ascii_num_def)
  then have "number_start c"
    using assms by (auto simp: s scan_number_def scan_int_def scan_digits_def startswith_Cons number_start_def
        split: option.splits if_splits)
  then show ?thesis
    by (auto simp: s starts_value_def number_start_def ascii_num_def json_space_def)
qed

lemma dumps_starts_value: "json_ok ft v \<Longrightarrow> starts_value (dumps_sp sp ft v)"
proof (cases v)
  case (JInt i)
  assume "json_ok ft v"
  then show ?thesis
    using number_starts_value [OF scan_number_int] by (simp add: JInt)
next
  case (JFloat x)
  assume "json_ok ft v"
  then show ?thesis
    using number_starts_value by (simp add: JFloat float_text_ok_def)
qed (auto simp: starts_value_def json_space_def dumps_str_def)

lemma skip_starts_value: "starts_value s \<Longrightarrow> skip (s @ r) = s @ r"
  by (cases s) (simp_all add: starts_value_def)

lemma join_Cons: "join sep (x # xs) = x @ (if xs = [] then [] else sep @ join sep xs)"
  by (cases xs) simp_all

lemma scan_items_dumps:
  assumes "\<And>v n r. \<lbrakk>v \<in> set vs; json_ok ft v; fuel v \<le> n; delim r\<rbrakk> \<Longrightarrow> scan_value ft n (dumps_sp sp ft v @ r) = Some (v, r)"
    and "vs \<noteq> []" and "list_all (json_ok ft) vs" and "fuel_items (map fuel vs) \<le> n" and sp: "list_all json_space sp"
  shows "scan_items ft n (join ('','' @ sp) (map (dumps_sp sp ft) vs) @ CHR '']'' # r) = Some (vs, r)"
  using assms(1-4)
proof (induction vs arbitrary: n)
  case (Cons v vs)
  then obtain m where n: "n = Suc m" "fuel v \<le> m" "fuel_items (map fuel vs) \<le> m"
    by (cases n) simp_all
  have v: "scan_value ft m (dumps_sp sp ft v @ t) = Some (v, t)" if "delim t" for t
    using Cons.prems n that by simp
  show ?case
  proof (cases "vs = []")
    case True
    then show ?thesis
      using v by (simp add: n)
  next
    case False
    then have ih: "scan_items ft m (join ('','' @ sp) (map (dumps_sp sp ft) vs) @ CHR '']'' # r) = Some (vs, r)"
      using Cons n by simp
    obtain w ws where "vs = w # ws"
      using False by (cases vs) simp_all
    then have "skip (join ('','' @ sp) (map (dumps_sp sp ft) vs) @ CHR '']'' # r) = join ('','' @ sp) (map (dumps_sp sp ft) vs) @ CHR '']'' # r"
      using Cons.prems(3) by (simp add: join_Cons skip_starts_value [OF dumps_starts_value])
    then show ?thesis
      using v ih False by (simp add: n join_Cons skip_spaces [OF sp])
  qed
qed simp

lemma skip_quote: "skip (dumps_str k @ r) = dumps_str k @ r"
  by (simp add: dumps_str_def)

definition member_text :: "string \<Rightarrow> float_text \<Rightarrow> string \<times> json \<Rightarrow> string" where
  "member_text sp ft kv = dumps_str (fst kv) @ '':'' @ sp @ dumps_sp sp ft (snd kv)"

lemma dumps_obj: "dumps_sp sp ft (JObj kvs) = CHR ''{'' # join ('','' @ sp) (map (member_text sp ft) kvs) @ ''}''"
  by (simp add: member_text_def [abs_def] comp_def)

lemma member_text_pair: "member_text sp ft (k, v) = dumps_str k @ '':'' @ sp @ dumps_sp sp ft v"
  by (simp add: member_text_def)

lemma scan_members_dumps:
  assumes "\<And>kv n r. \<lbrakk>kv \<in> set kvs; json_ok ft (snd kv); fuel (snd kv) \<le> n; delim r\<rbrakk> \<Longrightarrow>
      scan_value ft n (dumps_sp sp ft (snd kv) @ r) = Some (snd kv, r)"
    and "kvs \<noteq> []" and "list_all (\<lambda>kv. ascii (fst kv) \<and> json_ok ft (snd kv)) kvs"
    and "fuel_items (map (\<lambda>kv. fuel (snd kv)) kvs) \<le> n" and sp: "list_all json_space sp"
  shows "scan_members ft n (join ('','' @ sp) (map (member_text sp ft) kvs) @ CHR ''}'' # r) = Some (kvs, r)"
  using assms(1-4)
proof (induction kvs arbitrary: n)
  case (Cons kv kvs)
  obtain k v where kv: "kv = (k, v)"
    by (cases kv)
  obtain m where n: "n = Suc m" "fuel v \<le> m" "fuel_items (map (\<lambda>kv. fuel (snd kv)) kvs) \<le> m"
    using Cons.prems(4) by (cases n) (simp_all add: kv)
  have v: "scan_value ft m (skip (dumps_sp sp ft v @ t)) = Some (v, t)" if "delim t" for t
    using Cons.prems(1) [of kv m t] Cons.prems(3) n that
    by (simp add: kv skip_starts_value [OF dumps_starts_value])
  have k: "scan_string [] (tl (dumps_str k) @ t) = Some (k, t)" for t
    using Cons.prems(3) by (simp add: kv scan_dumps_str)
  have q: "dumps_str k @ t = CHR 0x22 # tl (dumps_str k) @ t" for t
    by (simp add: dumps_str_def)
  show ?case
  proof (cases "kvs = []")
    case True
    then show ?thesis
      using v k by (simp add: n kv member_text_pair q skip_spaces [OF sp])
  next
    case False
    then have ih: "scan_members ft m (join ('','' @ sp) (map (member_text sp ft) kvs) @ CHR ''}'' # r) = Some (kvs, r)"
      using Cons n by simp
    obtain w ws where "kvs = w # ws"
      using False by (cases kvs) simp_all
    then have "skip (join ('','' @ sp) (map (member_text sp ft) kvs) @ CHR ''}'' # r) =
        join ('','' @ sp) (map (member_text sp ft) kvs) @ CHR ''}'' # r"
      by (simp add: join_Cons member_text_def skip_quote)
    then show ?thesis
      using v k ih False by (simp add: n kv join_Cons member_text_pair q skip_spaces [OF sp])
  qed
qed simp

lemma dict_of_pairs:
  "distinct (map fst (d @ kvs)) \<Longrightarrow> foldl (\<lambda>d kv. dict_set (fst kv) (snd kv) d) d kvs = d @ kvs"
proof (induction kvs arbitrary: d)
  case (Cons kv kvs)
  have "AList.update k v d = d @ [(k, v)]" if "k \<notin> fst ` set d" for k :: 'a and v :: 'b
    using that by (induction d) auto
  then have "dict_set (fst kv) (snd kv) d = d @ [kv]"
    using Cons.prems by (simp add: dict_set_def)
  then show ?case
    using Cons.IH [of "d @ [kv]"] Cons.prems by simp
qed simp

lemma scan_value_dumps:
  assumes sp: "list_all json_space sp"
  shows "\<lbrakk>json_ok ft v; fuel v \<le> n; delim r\<rbrakk> \<Longrightarrow> scan_value ft n (dumps_sp sp ft v @ r) = Some (v, r)"
proof (induction v arbitrary: n r)
  case JNull
  then show ?case by (cases n) (simp_all add: literal_def startswith_def)
next
  case (JBool b)
  then show ?case by (cases n) (simp_all add: literal_def startswith_def)
next
  case (JInt i)
  then show ?case
    using scan_value_number [OF scan_number_int] by (cases n) simp_all
next
  case (JFloat x)
  then show ?case
    using scan_value_number by (cases n) (simp_all add: float_text_ok_def)
next
  case (JStr s)
  then show ?case
    using scan_dumps_str [of s r] by (cases n) (simp_all add: dumps_str_def)
next
  case (JList vs)
  obtain m where n: "n = Suc m" "fuel_items (map fuel vs) \<le> m"
    using JList.prems by (cases n) simp_all
  have ok: "list_all (json_ok ft) vs"
    using JList.prems by (simp add: list_all_iff)
  show ?case
  proof (cases vs)
    case Nil
    then show ?thesis by (simp add: n)
  next
    case (Cons w ws)
    then obtain c t where ct: "join ('','' @ sp) (map (dumps_sp sp ft) vs) @ CHR '']'' # r = c # t" "\<not> json_space c" "c \<noteq> CHR '']''"
      using ok dumps_starts_value [of ft w sp]
      by (cases "dumps_sp sp ft w") (auto simp: join_Cons starts_value_def)
    have "scan_items ft m (join ('','' @ sp) (map (dumps_sp sp ft) vs) @ CHR '']'' # r) = Some (vs, r)"
      using JList.IH ok n Cons sp by (intro scan_items_dumps) simp_all
    then show ?thesis
      using ct by (simp add: n)
  qed
next
  case (JObj kvs)
  obtain m where n: "n = Suc m" "fuel_items (map (\<lambda>kv. fuel (snd kv)) kvs) \<le> m"
    using JObj.prems by (cases n) (simp_all add: comp_def)
  have ok: "list_all (\<lambda>kv. ascii (fst kv) \<and> json_ok ft (snd kv)) kvs" "distinct (map fst kvs)"
    using JObj.prems by (auto simp: list_all_iff)
  show ?case
  proof (cases kvs)
    case Nil
    then show ?thesis by (simp add: n)
  next
    case (Cons w ws)
    then obtain t where ct: "join ('','' @ sp) (map (member_text sp ft) kvs) @ CHR ''}'' # r = CHR 0x22 # t"
      by (simp add: join_Cons member_text_def dumps_str_def)
    have "scan_members ft m (join ('','' @ sp) (map (member_text sp ft) kvs) @ CHR ''}'' # r) = Some (kvs, r)"
      using JObj.IH ok n Cons sp by (intro scan_members_dumps) (auto simp: snds.simps)
    then show ?thesis
      unfolding dumps_obj using ct dict_of_pairs [of "[]" kvs] ok(2) by (simp add: n)
  qed
qed

subsection \<open>The fuel is enough\<close>

lemma fuel_items_join:
  assumes "list_all2 (\<lambda>n s. n \<le> length s) ns ss"
  shows "fuel_items ns \<le> Suc (length (join ('','' @ sp) ss))"
  using assms
proof (induction rule: list_all2_induct)
  case (Cons n ns s ss)
  then show ?case
    by (cases ss) (auto simp: join_Cons)
qed simp

lemma length_ft: "float_text_ok ft x \<Longrightarrow> 0 < length (ft_repr ft x)"
  by (auto simp: float_text_ok_def scan_number_def scan_int_def scan_digits_def startswith_def)

lemma fuel_le_length: "json_ok ft v \<Longrightarrow> fuel v \<le> length (dumps_sp sp ft v)"
proof (induction v)
  case (JList vs)
  then have "list_all2 (\<lambda>n s. n \<le> length s) (map fuel vs) (map (dumps_sp sp ft) vs)"
    by (auto simp: list_all2_conv_all_nth list_all_iff)
  then show ?case
    using fuel_items_join by fastforce
next
  case (JObj kvs)
  have "fuel (snd kv) \<le> length (member_text sp ft kv)" if "kv \<in> set kvs" for kv
    using JObj.IH [OF that, of "snd kv"] JObj.prems that
    by (fastforce simp: member_text_def list_all_iff snds.simps)
  then have "list_all2 (\<lambda>n s. n \<le> length s) (map (\<lambda>kv. fuel (snd kv)) kvs) (map (member_text sp ft) kvs)"
    by (auto simp: list_all2_conv_all_nth)
  then show ?case
    unfolding dumps_obj using fuel_items_join by (fastforce simp: comp_def)
qed (use length_ft in \<open>auto simp: dumps_str_def str_of_int_def Suc_le_eq\<close>)

lemma delim_space: "json_space c \<Longrightarrow> delim (c # r)"
  by (auto simp: delim_def json_space_def ascii_num_def)

lemma loads_dumps:
  assumes "json_ok ft v" and "list_all json_space r" and sp: "list_all json_space sp"
  shows "loads ft (dumps_sp sp ft v @ r) = Some v"
proof -
  have skip: "skip r = []"
    using assms(2) by (simp add: skip_def list_all_iff)
  have r: "delim r"
    using assms(2) by (cases r) (simp_all add: delim_space)
  have "scan_value ft (length (dumps_sp sp ft v @ r)) (dumps_sp sp ft v @ r) = Some (v, r)"
    using fuel_le_length [OF assms(1), of sp] r by (intro scan_value_dumps sp assms) simp_all
  then show ?thesis
    using skip by (simp add: loads_def skip_starts_value [OF dumps_starts_value [OF assms(1)]])
qed

subsection \<open>One line per document\<close>

lemma escape_no_newline: "CHR 0x0A \<notin> set (escape_char c)"
proof -
  have "hex_char d \<noteq> CHR 0x0A" if "d < 16" for d
    using hex_val_char [OF that] by (auto simp: hex_val_def digit_val_def)
  moreover have "(of_char c :: nat) mod 16 < 16" "(of_char c :: nat) div 16 < 16"
    using nat_of_char_less_256 [of c] by (simp_all add: div_less_iff_less_mult)
  ultimately have "CHR 0x0A \<noteq> hex_char (of_char c mod 16)" "CHR 0x0A \<noteq> hex_char (of_char c div 16)"
    by metis+
  then show ?thesis
    by (auto simp: escape_char_def Let_def)
qed

lemma dumps_str_no_newline: "CHR 0x0A \<notin> set (dumps_str s)"
  using escape_no_newline by (auto simp: dumps_str_def)

lemma join_no_newline: "\<lbrakk>\<forall>s \<in> set ss. CHR 0x0A \<notin> set s; CHR 0x0A \<notin> set sp\<rbrakk> \<Longrightarrow> CHR 0x0A \<notin> set (join ('','' @ sp) ss)"
  by (induction ss) (auto simp: join_Cons)

lemma dumps_no_newline:
  assumes "\<And>x. CHR 0x0A \<notin> set (ft_repr ft x)" and sp: "CHR 0x0A \<notin> set sp"
  shows "CHR 0x0A \<notin> set (dumps_sp sp ft v)"
proof (induction v)
  case (JList vs)
  then show ?case
    using join_no_newline [of "map (dumps_sp sp ft) vs" sp] sp by auto
next
  case (JObj kvs)
  then have "\<forall>s \<in> set (map (member_text sp ft) kvs). CHR 0x0A \<notin> set s"
    using dumps_str_no_newline sp by (fastforce simp: member_text_def snds.simps)
  then show ?case
    unfolding dumps_obj using join_no_newline sp by auto
qed (use assms dumps_str_no_newline in auto)

end
