(* ===== verification/JsonLines.thy ===== *)
theory JsonLines
  imports Reporter JsonText
begin

text \<open>
  The text of the JSON stream sink and how a consumer reads it: one document per line, parsed with
  \<open>json.loads\<close>. Strings are ASCII here; floats have a text that reads back (\<open>float_text_ok\<close>).
\<close>

section \<open>The text of a stream\<close>

fun out_text :: "float_text \<Rightarrow> out \<Rightarrow> string" where
  "out_text ft (Text s) = s"
| "out_text ft (JsonLine j) = dumps ft j @ newline"

definition stream_text :: "float_text \<Rightarrow> out list \<Rightarrow> string" where
  "stream_text ft outs = concat (map (out_text ft) outs)"

text \<open>\<open>for line in stream\<close>, without the line ends.\<close>

function text_lines :: "string \<Rightarrow> string list" where
  "text_lines s =
     (if s = [] then []
      else takeWhile (\<lambda>c. c \<noteq> CHR 0x0A) s # text_lines (tl (dropWhile (\<lambda>c. c \<noteq> CHR 0x0A) s)))"
  by pat_completeness auto
termination
proof (relation "measure length")
  fix s :: string assume "s \<noteq> []"
  then show "(tl (dropWhile (\<lambda>c. c \<noteq> CHR 0x0A) s), s) \<in> measure length"
    using length_dropWhile_le [of "\<lambda>c. c \<noteq> CHR 0x0A" s] by (cases s) auto
qed simp

declare text_lines.simps [simp del]

lemma text_lines_line:
  assumes "CHR 0x0A \<notin> set s"
  shows "text_lines (s @ newline @ t) = s # text_lines t"
proof -
  have "takeWhile (\<lambda>c. c \<noteq> CHR 0x0A) (s @ newline @ t) = s"
    using assms by (subst takeWhile_append2) (auto simp: newline_def)
  moreover have "dropWhile (\<lambda>c. c \<noteq> CHR 0x0A) (s @ newline @ t) = newline @ t"
    using assms by (subst dropWhile_append2) (auto simp: newline_def)
  ultimately show ?thesis
    by (subst text_lines.simps) (simp add: newline_def)
qed

definition float_lines_ok :: "float_text \<Rightarrow> bool" where
  "float_lines_ok ft \<longleftrightarrow> (\<forall>x. CHR 0x0A \<notin> set (ft_repr ft x))"

lemma text_lines_documents:
  assumes "float_lines_ok ft"
  shows "text_lines (stream_text ft (map JsonLine docs)) = map (dumps ft) docs"
proof (induction docs)
  case Nil
  show ?case
    by (subst text_lines.simps) (simp add: stream_text_def)
next
  case (Cons d docs)
  have "CHR 0x0A \<notin> set (dumps ft d)"
    using assms by (intro dumps_no_newline) (simp_all add: float_lines_ok_def)
  with Cons show ?case
    by (simp add: stream_text_def text_lines_line)
qed

section \<open>Documents that read back\<close>

lemma json_ok_obj:
  "json_ok ft (JObj d) \<longleftrightarrow> distinct (dict_keys d) \<and> list_all (\<lambda>kv. ascii (fst kv) \<and> json_ok ft (snd kv)) d"
  by (auto simp: list_all_iff dict_keys_def)

lemma json_ok_sorted: "json_ok ft v \<Longrightarrow> json_ok ft (sorted_keys v)"
proof (induction v)
  case (JObj kvs)
  have "distinct (map fst (sort_key fst (map (map_prod id sorted_keys) kvs)))"
    using JObj.prems by (simp add: distinct_map inj_on_def) (force simp: comp_def)
  moreover have "json_ok ft (sorted_keys (snd kv))" if "kv \<in> set kvs" for kv
    using JObj that by (fastforce simp: list_all_iff snds.simps)
  ultimately show ?case
    using JObj.prems by (auto simp: json_ok_obj dict_keys_def list_all_iff)
qed (auto simp: list_all_iff)

lemma json_ok_set:
  assumes "json_ok ft (JObj d)" and "ascii k" and "json_ok ft v"
  shows "json_ok ft (JObj (dict_set k v d))"
proof -
  have "list_all P (AList.update k v d)" if "list_all P d" "P (k, v)" for P
    using that by (induction d) auto
  then show ?thesis
    using assms unfolding json_ok_obj by (simp add: distinct_dict_set) (simp add: dict_set_def)
qed

text \<open>What the record of an event contains: the texts of the session and of the frames, with the source
  line the sink shows.\<close>

definition json_frame_ok :: "getline \<Rightarrow> stack_frame \<Rightarrow> bool" where
  "json_frame_ok getline f =
     (ascii (fr_function f) \<and> ascii (fr_file f) \<and> \<bar>fr_line f\<bar> < 10 ^ max_str_digits \<and>
      (case get_source_line getline (fr_file f) (fr_line f) of None \<Rightarrow> True | Some s \<Rightarrow> ascii s))"

definition event_ok :: "float_text \<Rightarrow> getline \<Rightarrow> clock \<Rightarrow> blocking_event \<Rightarrow> reporter \<Rightarrow> bool" where
  "event_ok ft getline clk e r =
     (ascii (rp_session_id r) \<and> ascii (iso_stamp clk) \<and> \<bar>rp_event_count r\<bar> < 10 ^ max_str_digits \<and>
      \<bar>ev_pid e\<bar> < 10 ^ max_str_digits \<and> \<bar>ev_tid e\<bar> < 10 ^ max_str_digits \<and>
      float_text_ok ft (py_round 6 (fsub (monotonic clk) (rp_start_time r))) \<and>
      float_text_ok ft (py_round 3 (duration_ms e)) \<and>
      list_all (\<lambda>st. list_all (json_frame_ok getline) (frames st)) (python_stacks e))"

lemma json_ok_frame: "json_frame_ok getline f \<Longrightarrow> json_ok ft (frame_record getline f)"
  by (simp add: json_frame_ok_def frame_record_def ascii_def json_opt_def split: option.splits)

lemma json_ok_stacks:
  "list_all (\<lambda>st. list_all (json_frame_ok getline) (frames st)) (python_stacks e) \<Longrightarrow> json_ok ft (stacks_record getline e)"
  by (auto simp: stacks_record_def list_all_iff json_ok_frame simp del: json_ok.simps(7))

lemma json_ok_event:
  assumes "event_ok ft getline clk e r"
  shows "json_ok ft (JObj (event_record getline clk e r))"
proof -
  have "ascii EVENT_SCHEMA" "json_ok ft (JInt EVENT_SCHEMA_VERSION)"
    by (simp_all add: EVENT_SCHEMA_def EVENT_SCHEMA_VERSION_def ascii_def)
  then show ?thesis
    using assms json_ok_stacks [of getline e ft] distinct_record_keys(2) [of getline clk e r]
    unfolding json_ok_obj by (simp add: event_record_eq event_ok_def) (simp add: ascii_def)
qed

section \<open>The round trip\<close>

text \<open>The stacks of an event as a consumer of the stream sees them: the frames of every stack, each with
  its file, function, line and source line.\<close>

definition frame_document :: "getline \<Rightarrow> stack_frame \<Rightarrow> json" where
  "frame_document getline f =
     JObj [(''file'', JStr (fr_file f)), (''function'', JStr (fr_function f)), (''line'', JInt (fr_line f)),
       (''source'', case get_source_line getline (fr_file f) (fr_line f) of None \<Rightarrow> JNull | Some s \<Rightarrow> JStr s)]"

definition stacks_document :: "getline \<Rightarrow> blocking_event \<Rightarrow> json" where
  "stacks_document getline e =
     (if python_stacks e = [] then JNull
      else JList (map (\<lambda>stack. JList (map (frame_document getline) (frames stack))) (python_stacks e)))"

lemma frame_keys_sorted:
  "sort_key fst [(''function'', a), (''file'', b), (''line'', c), (''source'', d)] =
   [(''file'', b), (''function'', a), (''line'', c), (''source'', d :: json)]"
  by simp

lemma sorted_frame: "sorted_keys (frame_record getline f) = frame_document getline f"
  by (cases "get_source_line getline (fr_file f) (fr_line f)")
    (simp_all add: frame_record_def frame_document_def frame_keys_sorted json_opt_def)

lemma sorted_stacks: "sorted_keys (stacks_record getline e) = stacks_document getline e"
  by (simp add: stacks_record_def stacks_document_def sorted_frame)

text \<open>C18: Each blocking event becomes one line of its own on a JSON stream, and the line reads back with
  \<open>json.loads\<close> as the document of the event: the identity of its session, its number, time stamp, rounded
  duration, process, thread and level, and the frames of every attached stack with their source
  lines. The texts of the event (file and function names, source lines, session id) are ASCII, its
  numbers have at most 4300 digits and its floats a text without a line end that reads back (\<open>event_ok\<close>,
  \<open>float_lines_ok\<close>).\<close>

theorem json_event_line_roundtrip:
  assumes "event_ok ft getline clk e r" and "float_lines_ok ft" and "js_stream s = map JsonLine docs"
  shows "\<exists>t doc. emit u (event_record getline clk e r) (JsonStream s) = Inr (JsonStream t) \<and>
    text_lines (stream_text ft (js_stream t)) = text_lines (stream_text ft (js_stream s)) @ [dumps ft doc] \<and>
    loads ft (dumps ft doc) = Some doc \<and>
    event_doc_ok (js_error_threshold_ms s) (rp_event_count r) e doc \<and>
    get_json doc ''schema'' = Some (JStr ''blocksnoop.events/v1'') \<and>
    get_json doc ''session_id'' = Some (JStr (rp_session_id r)) \<and>
    get_json doc ''observed_at'' = Some (JStr (iso_stamp clk)) \<and>
    get_json doc ''timestamp_s'' = Some (JFloat (py_round 6 (fsub (monotonic clk) (rp_start_time r)))) \<and>
    get_json doc ''python_stacks'' = Some (stacks_document getline e)"
proof -
  let ?rec = "event_record getline clk e r"
  let ?lvl = "JStr (level_str (level_for_duration (py_round 3 (duration_ms e)) (js_error_threshold_ms s)))"
  define d where "d = dict_set ''level'' ?lvl ?rec"
  define doc where "doc = sorted_keys (JObj d)"
  have "dict_get ?rec ''duration_ms'' = Some (JFloat (py_round 3 (duration_ms e)))"
    by (simp add: event_record_eq dict_get_def)
  from json_stream_emit_written [OF this, of s]
  have emitted: "emit u ?rec (JsonStream s) = Inr (JsonStream (json_stream_write d s))"
    by (simp add: d_def)
  have out: "js_stream (json_stream_write d s) = map JsonLine (docs @ [doc])"
    using assms(3) by (simp add: json_stream_write_def doc_def)
  have "ascii ''level''" "ascii (level_str l)" for l
    by (simp_all add: ascii_def, cases l, simp_all)
  then have "json_ok ft doc"
    unfolding doc_def d_def by (intro json_ok_sorted json_ok_set json_ok_event assms(1)) simp_all
  then have reads: "loads ft (dumps ft doc) = Some doc"
    using loads_dumps [of ft doc "[]"] by (simp add: json_space_def)
  have "get_json doc k = map_option sorted_keys (dict_get d k)" for k
    unfolding doc_def d_def by (intro get_json_sorted_keys distinct_dict_set distinct_record_keys)
  then have "get_json doc ''schema'' = Some (JStr ''blocksnoop.events/v1'')"
    "get_json doc ''session_id'' = Some (JStr (rp_session_id r))"
    "get_json doc ''observed_at'' = Some (JStr (iso_stamp clk))"
    "get_json doc ''timestamp_s'' = Some (JFloat (py_round 6 (fsub (monotonic clk) (rp_start_time r))))"
    "get_json doc ''python_stacks'' = Some (stacks_document getline e)"
    by (simp_all add: d_def event_record_eq dict_get_def dict_set_def sorted_stacks EVENT_SCHEMA_def)
  moreover have "event_doc_ok (js_error_threshold_ms s) (rp_event_count r) e doc"
    using emit_event_document [OF emitted] assms(3) out by auto
  moreover have "text_lines (stream_text ft (js_stream (json_stream_write d s))) =
      text_lines (stream_text ft (js_stream s)) @ [dumps ft doc]"
    unfolding out assms(3) text_lines_documents [OF assms(2)] by simp
  ultimately show ?thesis
    using emitted reads by blast
qed

definition example_stamp :: rat where
  "example_stamp = py_round 6 (fsub (monotonic example_clock) (rp_start_time example_reporter))"

definition example_floats :: float_text where
  "example_floats =
     \<lparr>ft_repr = (\<lambda>x. if x = example_stamp then ''0.5'' else ''600.0''),
      ft_parse = (\<lambda>s. if s = ''0.5'' then example_stamp else py_round 3 (duration_ms (blocked 600)))\<rparr>"

lemma example_floats_ok:
  "float_text_ok example_floats example_stamp" "float_text_ok example_floats (py_round 3 (duration_ms (blocked 600)))"
  "float_lines_ok example_floats"
  by (simp_all add: float_text_ok_def float_lines_ok_def example_floats_def scan_number_def scan_int_def scan_digits_def
      scan_frac_def scan_exp_def startswith_def ascii_num_def)

lemma json_event_line_roundtrip_witness:
  "\<exists>t doc. emit [] (event_record (\<lambda>_ _. []) example_clock (blocked 600) example_reporter) (JsonStream (JsonStreamSink 500)) =
     Inr (JsonStream t) \<and> text_lines (stream_text example_floats (js_stream t)) = [dumps example_floats doc] \<and>
     loads example_floats (dumps example_floats doc) = Some doc"
proof -
  have "event_ok example_floats (\<lambda>_ _. []) example_clock (blocked 600) example_reporter"
    using example_floats_ok
    by (simp add: event_ok_def example_stamp_def)
       (simp add: blocked_def example_clock_def example_reporter_def Reporter_def ascii_def)
  from json_event_line_roundtrip [OF this example_floats_ok(3), of "JsonStreamSink 500" "[]" "[]"]
  obtain t doc where
    "emit [] (event_record (\<lambda>_ _. []) example_clock (blocked 600) example_reporter) (JsonStream (JsonStreamSink 500)) =
       Inr (JsonStream t)"
    "text_lines (stream_text example_floats (js_stream t)) =
       text_lines (stream_text example_floats (js_stream (JsonStreamSink 500))) @ [dumps example_floats doc]"
    "loads example_floats (dumps example_floats doc) = Some doc"
    by (auto simp: JsonStreamSink_def simp del: emit.simps)
  moreover have "text_lines (stream_text example_floats (js_stream (JsonStreamSink 500))) = []"
    using text_lines_documents [OF example_floats_ok(3), of "[]"] by (simp add: JsonStreamSink_def)
  ultimately show ?thesis
    by (intro exI [of _ t] exI [of _ doc]) (simp del: emit.simps)
qed

end
