(* ===== verification/RecordTypes.thy ===== *)
theory RecordTypes
  imports Reporter
begin

text \<open>
  The types of the records of the schema \<open>blocksnoop.events/v1\<close>, as a typing relation on JSON values,
  and their preservation: whatever the reporter does, every line of a JSON stream has the type of a
  session start, of a blocking event or of a session summary.
\<close>

section \<open>Types of JSON values\<close>

datatype json_type =
    TInt
  | TFloat
  | TStr
  | TLit string
  | TOpt json_type
  | TList json_type
  | TMap json_type
  | TRec "(string \<times> json_type) list"

inductive json_typed :: "json \<Rightarrow> json_type \<Rightarrow> bool" where
  int [intro]: "json_typed (JInt i) TInt"
| float [intro]: "json_typed (JFloat x) TFloat"
| str [intro]: "json_typed (JStr s) TStr"
| lit [intro]: "json_typed (JStr s) (TLit s)"
| null [intro]: "json_typed JNull (TOpt ty)"
| some [intro]: "json_typed v ty \<Longrightarrow> json_typed v (TOpt ty)"
| list: "(\<And>v. v \<in> set vs \<Longrightarrow> json_typed v ty) \<Longrightarrow> json_typed (JList vs) (TList ty)"
| map: "(\<And>k v. (k, v) \<in> set d \<Longrightarrow> json_typed v ty) \<Longrightarrow> json_typed (JObj d) (TMap ty)"
| rec: "\<lbrakk>distinct (map fst d); set (map fst d) = set (map fst tys);
     \<And>k v. (k, v) \<in> set d \<Longrightarrow> \<exists>ty. map_of tys k = Some ty \<and> json_typed v ty\<rbrakk> \<Longrightarrow> json_typed (JObj d) (TRec tys)"

inductive_cases json_typed_recE: "json_typed (JObj d) (TRec tys)"

lemma json_typed_option [intro]: "(\<And>a. json_typed (f a) ty) \<Longrightarrow> json_typed (json_opt f x) (TOpt ty)"
  by (cases x) (auto simp: json_opt_def)

text \<open>A record whose fields are listed in the order of its type.\<close>

lemma typed_fields:
  assumes "distinct (map fst tys)" and "list_all2 (\<lambda>kv kt. fst kv = fst kt \<and> json_typed (snd kv) (snd kt)) d tys"
  shows "json_typed (JObj d) (TRec tys)"
proof (rule json_typed.rec)
  have keys: "map fst d = map fst tys"
    using assms(2) by (induction rule: list_all2_induct) auto
  then show "distinct (map fst d)" "set (map fst d) = set (map fst tys)"
    using assms(1) by simp_all
  fix k v
  assume "(k, v) \<in> set d"
  then obtain i where i: "i < length d" "d ! i = (k, v)"
    by (auto simp: in_set_conv_nth)
  then have "fst (tys ! i) = k" "json_typed v (snd (tys ! i))" "tys ! i \<in> set tys"
    using list_all2_nthD [OF assms(2) i(1)] list_all2_lengthD [OF assms(2)] by simp_all
  then obtain ty where "(k, ty) \<in> set tys" "json_typed v ty"
    by (cases "tys ! i") simp
  then show "\<exists>ty. map_of tys k = Some ty \<and> json_typed v ty"
    using assms(1) by (intro exI [of _ ty]) simp
qed

text \<open>Sorting the keys, as \<open>json.dumps(sort_keys=True)\<close> does, keeps types.\<close>

lemma distinct_sorted_keys:
  assumes "distinct (map fst d)"
  shows "distinct (map fst (sort_key fst d))"
  using assms by (metis distinct_map distinct_sort inj_on_def set_sort)

lemma sorted_keys_typed: "json_typed v ty \<Longrightarrow> json_typed (sorted_keys v) ty"
proof (induction rule: json_typed.induct)
  case (list vs ty)
  then show ?case
    by (auto intro!: json_typed.list)
next
  case (map d ty)
  then show ?case
    by (auto intro!: json_typed.map)
next
  case (rec d tys)
  let ?d = "sort_key fst (map (map_prod id sorted_keys) d)"
  have keys: "map fst (map (map_prod id sorted_keys) d) = map fst d"
    by (rule map_fst_map_prod_id)
  have "distinct (map fst ?d)"
    by (rule distinct_sorted_keys) (simp only: keys rec(1))
  moreover have "set (map fst ?d) = set (map fst (map (map_prod id sorted_keys) d))"
    by (simp only: set_map set_sort)
  then have "set (map fst ?d) = set (map fst tys)"
    by (simp only: keys rec(2))
  moreover have "\<exists>ty. map_of tys k = Some ty \<and> json_typed v ty" if "(k, v) \<in> set ?d" for k v
    using that rec(3) by force
  ultimately have "json_typed (JObj ?d) (TRec tys)"
    by (rule json_typed.rec)
  then show ?case
    by simp
qed auto

section \<open>The schema\<close>

definition BASE :: "string \<Rightarrow> (string \<times> json_type) list" where
  "BASE record_type =
     [(''schema'', TLit EVENT_SCHEMA), (''schema_version'', TInt), (''type'', TLit record_type),
      (''session_id'', TStr), (''observed_at'', TStr)]"

definition SESSION_START :: json_type where
  "SESSION_START = TRec (BASE ''session_start'' @
     [(''backend'', TOpt TStr), (''threshold_ms'', TOpt TFloat), (''target_pid'', TOpt TInt), (''target_tid'', TOpt TInt)])"

definition FRAME :: json_type where
  "FRAME = TRec [(''function'', TStr), (''file'', TStr), (''line'', TInt), (''source'', TOpt TStr)]"

definition BLOCKING_EVENT :: json_type where
  "BLOCKING_EVENT = TRec (BASE ''blocking_event'' @
     [(''event_number'', TInt), (''timestamp_s'', TFloat), (''duration_ms'', TFloat), (''pid'', TInt), (''tid'', TInt),
      (''python_stacks'', TOpt (TList (TList FRAME))), (''level'', TStr)])"

definition SIGNATURE :: json_type where
  "SIGNATURE = TRec [(''fingerprint'', TStr), (''location'', TStr), (''count'', TInt),
     (''total_blocked_ms'', TFloat), (''max_blocked_ms'', TFloat)]"

definition SESSION_SUMMARY :: json_type where
  "SESSION_SUMMARY = TRec (BASE ''session_summary'' @
     [(''termination_reason'', TStr), (''status'', TStr), (''duration_s'', TFloat), (''event_count'', TInt),
      (''error_event_count'', TInt), (''total_blocked_ms'', TFloat), (''max_blocked_ms'', TFloat),
      (''lost_event_count'', TInt), (''lost_events_by_source'', TMap TInt), (''top_signatures'', TList SIGNATURE)])"

section \<open>The records have their types\<close>

lemma start_record_typed: "json_typed (JObj (start_record clk r)) SESSION_START"
  unfolding start_record_eq SESSION_START_def BASE_def by (rule typed_fields) auto

lemma frame_record_typed: "json_typed (frame_record getline f) FRAME"
  unfolding frame_record_def FRAME_def by (rule typed_fields) auto

lemma stacks_record_typed: "json_typed (stacks_record getline e) (TOpt (TList (TList FRAME)))"
proof (cases "python_stacks e = []")
  case False
  then show ?thesis
    unfolding stacks_record_def by (auto intro!: json_typed.some json_typed.list frame_record_typed)
qed (auto simp: stacks_record_def)

lemma event_document_typed:
  "json_typed (JObj (dict_set ''level'' (JStr lvl) (event_record getline clk e r))) BLOCKING_EVENT"
proof -
  have "dict_set ''level'' (JStr lvl) (event_record getline clk e r) = event_record getline clk e r @ [(''level'', JStr lvl)]"
    by (simp add: event_record_eq dict_set_def)
  then show ?thesis
    unfolding event_record_eq BLOCKING_EVENT_def BASE_def
    by (simp only: append.simps) (rule typed_fields, auto intro: stacks_record_typed)
qed

lemma signature_record_typed: "json_typed (signature_record ag) SIGNATURE"
  unfolding signature_record_def SIGNATURE_def by (rule typed_fields) auto

lemma summary_record_typed: "json_typed (JObj (summary_record clk d losses reason r)) SESSION_SUMMARY"
proof -
  have "json_typed (JObj (map (map_prod id JInt) losses)) (TMap TInt)"
    by (auto intro!: json_typed.map)
  moreover have "json_typed (JList (top_signatures r)) (TList SIGNATURE)"
    by (auto simp: top_signatures_def intro!: json_typed.list signature_record_typed)
  ultimately show ?thesis
    unfolding summary_record_eq SESSION_SUMMARY_def BASE_def by (intro typed_fields) auto
qed

section \<open>Preservation\<close>

definition line_typed :: "out \<Rightarrow> bool" where
  "line_typed line \<longleftrightarrow> (\<exists>doc ty. line = JsonLine doc \<and> ty \<in> {SESSION_START, BLOCKING_EVENT, SESSION_SUMMARY} \<and> json_typed doc ty)"

fun sink_typed :: "sink \<Rightarrow> bool" where
  "sink_typed (JsonStream s) = list_all line_typed (js_stream s)"
| "sink_typed _ = True"

definition streams_typed :: "reporter \<Rightarrow> bool" where
  "streams_typed r \<longleftrightarrow> list_all sink_typed (rp_sinks r)"

lemma write_typed:
  assumes "json_typed (JObj d) ty" and "ty \<in> {SESSION_START, BLOCKING_EVENT, SESSION_SUMMARY}"
    and "list_all line_typed (js_stream s)"
  shows "list_all line_typed (js_stream (json_stream_write d s))"
  using assms sorted_keys_typed [OF assms(1)] by (auto simp: line_typed_def simp del: sorted_keys.simps)

lemma each_sink_typed:
  assumes "\<And>s s'. sink_typed s \<Longrightarrow> f s = Inr s' \<Longrightarrow> sink_typed s'" and "list_all sink_typed ss"
  shows "list_all sink_typed (fst (each_sink f ss))"
  using assms(2) by (induction ss) (auto simp: case_prod_beta' Let_def dest: assms(1) split: sum.split)

lemma dispatch_typed:
  assumes "\<And>s s'. sink_typed s \<Longrightarrow> f s = Inr s' \<Longrightarrow> sink_typed s'" and "streams_typed r"
  shows "streams_typed (fst (dispatch f r))"
  using each_sink_typed [of f "rp_sinks r"] assms by (simp add: dispatch_def streams_typed_def case_prod_beta' Let_def)

lemma start_sink_typed:
  "sink_typed s \<Longrightarrow> emit_session_start u (start_record clk r) s = Inr s' \<Longrightarrow> sink_typed s'"
  by (cases s) (auto intro!: write_typed start_record_typed simp del: json_stream_write_stream)

lemma event_sink_typed:
  "sink_typed s \<Longrightarrow> emit u (event_record getline clk e r) s = Inr s' \<Longrightarrow> sink_typed s'"
proof (cases s)
  case (JsonStream x)
  assume "sink_typed s" and emit: "emit u (event_record getline clk e r) s = Inr s'"
  have "dict_get (event_record getline clk e r) ''duration_ms'' = Some (JFloat (py_round 3 (duration_ms e)))"
    by (simp add: event_record_eq dict_get_def)
  from json_stream_emit_written [OF this, of x] \<open>sink_typed s\<close> emit show ?thesis
    by (auto simp: JsonStream intro!: write_typed event_document_typed simp del: json_stream_write_stream)
qed (auto simp: bind_result_Inr_iff)

lemma summary_sink_typed:
  "sink_typed s \<Longrightarrow> emit_summary u (summary_record clk d losses reason r) s = Inr s' \<Longrightarrow> sink_typed s'"
  by (cases s) (auto simp: bind_result_Inr_iff intro!: write_typed summary_record_typed simp del: json_stream_write_stream)

text \<open>C19: Every line of a JSON stream is well-typed: each operation of the reporter, whether it returns or
  raises, leaves every line of every JSON stream a document of the schema \<open>blocksnoop.events/v1\<close>, that
  is a session start, a blocking event or a session summary with exactly the fields of its kind, each
  of its type.\<close>

theorem stream_records_well_typed:
  assumes "streams_typed r"
  shows "streams_typed (fst (rp_start clk r)) \<and> streams_typed (fst (report getline clk e r)) \<and>
    streams_typed (fst (rp_summary clk d losses reason r)) \<and> streams_typed (rp_close r)"
proof (intro conjI)
  have same: "streams_typed (r\<lparr>rp_started := b\<rparr>)" "streams_typed (r\<lparr>rp_lost_event_count := n\<rparr>)" for b n
    using assms by (simp_all add: streams_typed_def)
  show "streams_typed (fst (rp_start clk r))"
    using assms by (auto simp: rp_start_def Let_def intro!: dispatch_typed same dest: start_sink_typed)
  show "streams_typed (fst (rp_summary clk d losses reason r))"
    by (auto simp: rp_summary_def Let_def intro!: dispatch_typed same dest: summary_sink_typed)
  let ?r = "add_duration (py_round 3 (duration_ms e)) (count_event r)"
  have "streams_typed ?r" "streams_typed (?r\<lparr>rp_signatures := sigs\<rparr>)" for sigs
    using assms by (simp_all add: streams_typed_def add_duration_def count_event_def)
  then show "streams_typed (fst (report getline clk e r))"
    by (auto simp: report_def Let_def intro!: dispatch_typed dest: event_sink_typed split: sum.split)
  have "sink_typed (sink_close s)" if "sink_typed s" for s
    using that by (cases s) simp_all
  then show "streams_typed (rp_close r)"
    using assms by (simp add: streams_typed_def rp_close_def list_all_iff)
qed

lemma stream_records_well_typed_witness:
  "streams_typed (fst (report (\<lambda>_ _. []) example_clock (blocked 100) (fst (rp_start example_clock example_reporter))))"
proof -
  have "streams_typed example_reporter"
    by (simp add: streams_typed_def example_reporter_def Reporter_def JsonStreamSink_def)
  then have "streams_typed (fst (rp_start example_clock example_reporter))"
    using stream_records_well_typed by blast
  then show ?thesis
    using stream_records_well_typed by blast
qed

end
