(* ===== verification/Sidecar.thy ===== *)
theory Sidecar
  imports Probes CoreProtocol JsonText
begin

text \<open>
  The native side of the Core backend: the BPF programs of \<open>blocksnoop/bpf/core_blockdetect.bpf.c\<close> and
  the loader \<open>native/blocksnoop_ebpf.c\<close>, with its options, its records on standard output, the lookup
  of the BPF object, the set-up of the programs, the poll loop and the clean-up. \<open>getopt_long\<close>, the
  file system and the answers of libbpf are parameters.
\<close>

section \<open>The BPF programs\<close>

record sidecar_config =
  sc_target_tgid :: u32
  sc_target_tid :: u32
  sc_threshold_ns :: u64
  sc_pidns_dev :: u64
  sc_pidns_ino :: u64

text \<open>\<open>is_target\<close>: the thread id, when the current task is the target. \<open>hc_nsdata\<close> is the answer of the
  helper for the configured namespace.\<close>

definition core_is_target :: "sidecar_config \<Rightarrow> hit_context \<Rightarrow> u32 option" where
  "core_is_target cfg c =
     (case hc_nsdata c of
        None \<Rightarrow> None
      | Some (tgid, tid) \<Rightarrow> if tgid = sc_target_tgid cfg \<and> tid = sc_target_tid cfg then Some tid else None)"

definition on_epoll_exit :: "sidecar_config \<Rightarrow> hit_context \<Rightarrow> probe_state \<Rightarrow> probe_state" where
  "on_epoll_exit cfg c s =
     (case core_is_target cfg c of
        None \<Rightarrow> s
      | Some tid \<Rightarrow> s\<lparr>callback_start := (callback_start s)(tid \<mapsto> hc_ktime c)\<rparr>)"

definition on_epoll_enter :: "sidecar_config \<Rightarrow> hit_context \<Rightarrow> probe_state \<Rightarrow> probe_state" where
  "on_epoll_enter cfg c s =
     (case core_is_target cfg c of
        None \<Rightarrow> s
      | Some tid \<Rightarrow>
          (case callback_start s tid of
             None \<Rightarrow> s
           | Some start \<Rightarrow>
               let now = hc_ktime c;
                   s = (if sc_threshold_ns cfg < now - start
                        then s\<lparr>submitted := submitted s @
                          [\<lparr>be_start_ns = start, be_end_ns = now, be_pid = sc_target_tgid cfg,
                            be_tid = sc_target_tid cfg\<rparr>]\<rparr>
                        else s)
               in s\<lparr>callback_start := (callback_start s)(tid := None)\<rparr>))"

definition core_hit :: "sidecar_config \<Rightarrow> probe \<times> hit_context \<Rightarrow> probe_state \<Rightarrow> probe_state" where
  "core_hit cfg h s =
     (case fst h of SysExit \<Rightarrow> on_epoll_exit cfg (snd h) s | SysEnter \<Rightarrow> on_epoll_enter cfg (snd h) s)"

definition run_core :: "sidecar_config \<Rightarrow> (probe \<times> hit_context) list \<Rightarrow> probe_state" where
  "run_core cfg hits = fold (core_hit cfg) hits \<lparr>callback_start = Map.empty, submitted = []\<rparr>"

text \<open>The parameters of the BCC probes that stand for the same target.\<close>

definition params_of :: "sidecar_config \<Rightarrow> probe_params" where
  "params_of cfg = \<lparr>pp_use_ns_pid = True, pp_target_tgid = sc_target_tgid cfg,
     pp_target_tid = sc_target_tid cfg, pp_threshold_ns = sc_threshold_ns cfg\<rparr>"

section \<open>Numbers on the command line\<close>

text \<open>\<open>strtoul\<close> and \<open>strtoull\<close> in base 10 on a 64-bit system: the value, whether it was out of range, and
  the rest. A minus sign negates modulo \<open>2 ^ 64\<close>; without digits nothing is consumed.\<close>

definition c_space :: "char \<Rightarrow> bool" where
  "c_space c \<longleftrightarrow> c \<in> set [CHR '' '', CHR 0x09, CHR 0x0A, CHR 0x0B, CHR 0x0C, CHR 0x0D]"

definition digits_value :: "string \<Rightarrow> nat" where
  "digits_value ds = foldl (\<lambda>n c. n * 10 + (of_char c - 48)) 0 ds"

definition strtou :: "string \<Rightarrow> nat \<times> bool \<times> string" where
  "strtou s =
     (let t = dropWhile c_space s;
          neg = startswith t ''-'';
          u = (if neg \<or> startswith t ''+'' then tl t else t);
          ds = takeWhile ascii_num u;
          rest = dropWhile ascii_num u
      in if ds = [] then (0, False, s)
         else if 2 ^ 64 \<le> digits_value ds then (2 ^ 64 - 1, True, rest)
         else (if neg then (2 ^ 64 - digits_value ds) mod 2 ^ 64 else digits_value ds, False, rest))"

definition parse_u32 :: "string \<Rightarrow> u32 option" where
  "parse_u32 v =
     (let (n, erange, rest) = strtou v
      in if erange \<or> v = [] \<or> rest \<noteq> [] \<or> n = 0 \<or> 2 ^ 32 \<le> n then None else Some (of_nat n))"

definition parse_u64 :: "string \<Rightarrow> u64 option" where
  "parse_u64 v =
     (if v = [] \<or> startswith v ''-'' \<or> startswith v ''+'' then None
      else let (n, erange, rest) = strtou v
           in if erange \<or> rest \<noteq> [] then None else Some (of_nat n))"

section \<open>Options\<close>

datatype sidecar_option =
    OptVersion | OptPid | OptTid | OptDev | OptIno | OptThreshold | OptObject | OptHelp | OptInvalid

fun option_text :: "sidecar_option \<Rightarrow> string" where
  "option_text OptVersion = ''--protocol-version''"
| "option_text OptPid = ''--pid''"
| "option_text OptTid = ''--tid''"
| "option_text OptDev = ''--pidns-dev''"
| "option_text OptIno = ''--pidns-ino''"
| "option_text OptThreshold = ''--threshold-ns''"
| "option_text OptObject = ''--bpf-object''"
| "option_text OptHelp = ''--help''"
| "option_text OptInvalid = []"

record sidecar_args =
  sa_version :: u32
  sa_config :: sidecar_config
  sa_pid :: bool
  sa_tid :: bool
  sa_dev :: bool
  sa_ino :: bool
  sa_threshold :: bool
  sa_object :: "string option"

definition no_args :: sidecar_args where
  "no_args = \<lparr>sa_version = 0,
     sa_config = \<lparr>sc_target_tgid = 0, sc_target_tid = 0, sc_threshold_ns = 0, sc_pidns_dev = 0, sc_pidns_ino = 0\<rparr>,
     sa_pid = False, sa_tid = False, sa_dev = False, sa_ino = False, sa_threshold = False, sa_object = None\<rparr>"

text \<open>One turn of the option loop; \<open>Inl\<close> is the exit status.\<close>

fun read_option :: "sidecar_option \<times> string \<Rightarrow> sidecar_args \<Rightarrow> int + sidecar_args" where
  "read_option (OptVersion, v) a =
     (case parse_u32 v of None \<Rightarrow> Inl 2 | Some n \<Rightarrow> Inr (a\<lparr>sa_version := n\<rparr>))"
| "read_option (OptPid, v) a =
     (case parse_u32 v of None \<Rightarrow> Inl 2
      | Some n \<Rightarrow> Inr (a\<lparr>sa_config := (sa_config a)\<lparr>sc_target_tgid := n\<rparr>, sa_pid := True\<rparr>))"
| "read_option (OptTid, v) a =
     (case parse_u32 v of None \<Rightarrow> Inl 2
      | Some n \<Rightarrow> Inr (a\<lparr>sa_config := (sa_config a)\<lparr>sc_target_tid := n\<rparr>, sa_tid := True\<rparr>))"
| "read_option (OptDev, v) a =
     (case parse_u64 v of None \<Rightarrow> Inl 2
      | Some n \<Rightarrow> if n = 0 then Inl 2 else Inr (a\<lparr>sa_config := (sa_config a)\<lparr>sc_pidns_dev := n\<rparr>, sa_dev := True\<rparr>))"
| "read_option (OptIno, v) a =
     (case parse_u64 v of None \<Rightarrow> Inl 2
      | Some n \<Rightarrow> if n = 0 then Inl 2 else Inr (a\<lparr>sa_config := (sa_config a)\<lparr>sc_pidns_ino := n\<rparr>, sa_ino := True\<rparr>))"
| "read_option (OptThreshold, v) a =
     (case parse_u64 v of None \<Rightarrow> Inl 2
      | Some n \<Rightarrow> Inr (a\<lparr>sa_config := (sa_config a)\<lparr>sc_threshold_ns := n\<rparr>, sa_threshold := True\<rparr>))"
| "read_option (OptObject, v) a = Inr (a\<lparr>sa_object := Some v\<rparr>)"
| "read_option (OptHelp, v) a = Inl 0"
| "read_option (OptInvalid, v) a = Inl 2"

fun read_options :: "(sidecar_option \<times> string) list \<Rightarrow> sidecar_args \<Rightarrow> int + sidecar_args" where
  "read_options [] a = Inr a"
| "read_options (ov # ovs) a = (case read_option ov a of Inl status \<Rightarrow> Inl status | Inr a' \<Rightarrow> read_options ovs a')"

type_synonym getopt = "string list \<Rightarrow> (sidecar_option \<times> string) list \<times> string list"

definition parse_command :: "getopt \<Rightarrow> string list \<Rightarrow> int + sidecar_args" where
  "parse_command getopt argv =
     (let (ovs, operands) = getopt argv
      in case read_options ovs no_args of
           Inl status \<Rightarrow> Inl status
         | Inr a \<Rightarrow>
             if operands \<noteq> [] \<or> sa_version a \<noteq> 2 \<or> \<not> sa_pid a \<or> \<not> sa_tid a \<or> \<not> sa_dev a \<or> \<not> sa_ino a
                \<or> \<not> sa_threshold a
             then Inl 2 else Inr a)"

section \<open>The epoll variants\<close>

record epoll_variant =
  ev_name :: string
  ev_exit_tracepoint :: string
  ev_enter_tracepoint :: string
  ev_exit_program :: string
  ev_enter_program :: string
  ev_enabled :: bool

text \<open>The table of the main function: the strings of a variant are its name with fixed prefixes.\<close>

definition variant_of :: "string \<Rightarrow> epoll_variant" where
  "variant_of name =
     \<lparr>ev_name = name, ev_exit_tracepoint = ''sys_exit_'' @ name, ev_enter_tracepoint = ''sys_enter_'' @ name,
      ev_exit_program = ''handle_exit_'' @ name, ev_enter_program = ''handle_enter_'' @ name, ev_enabled = False\<rparr>"

definition epoll_variants :: "epoll_variant list" where
  "epoll_variants = map variant_of [''epoll_wait'', ''epoll_pwait'', ''epoll_pwait2'']"

section \<open>Records on standard output\<close>

definition c_unsigned :: "'a::len word \<Rightarrow> string" where
  "c_unsigned w = nat_to_str (unat w)"

definition quoted :: "string \<Rightarrow> string" where
  "quoted s = CHR 0x22 # s @ [CHR 0x22]"

definition emit_fatal :: "string \<Rightarrow> string" where
  "emit_fatal message =
     ''{'' @ quoted ''version'' @ '':2,'' @ quoted ''type'' @ '':'' @ quoted ''fatal'' @ '',''
     @ quoted ''message'' @ '':'' @ quoted message @ ''}'' @ newline"

definition emit_pidns :: "sidecar_config \<Rightarrow> string" where
  "emit_pidns cfg =
     quoted ''pidns_dev'' @ '':'' @ c_unsigned (sc_pidns_dev cfg) @ '',''
     @ quoted ''pidns_ino'' @ '':'' @ c_unsigned (sc_pidns_ino cfg)"

definition emit_ready :: "sidecar_config \<Rightarrow> epoll_variant list \<Rightarrow> string" where
  "emit_ready cfg vs =
     ''{'' @ quoted ''version'' @ '':2,'' @ quoted ''type'' @ '':'' @ quoted ''ready'' @ '',''
     @ quoted ''pid'' @ '':'' @ c_unsigned (sc_target_tgid cfg) @ '',''
     @ quoted ''tid'' @ '':'' @ c_unsigned (sc_target_tid cfg) @ '',''
     @ emit_pidns cfg @ '',''
     @ quoted ''threshold_ns'' @ '':'' @ c_unsigned (sc_threshold_ns cfg) @ '',''
     @ quoted ''tracepoints'' @ '':['' @ join '','' (map (\<lambda>v. quoted (ev_name v)) (filter ev_enabled vs)) @ '']}'' @ newline"

definition emit_event :: "sidecar_config \<Rightarrow> bpf_event \<Rightarrow> string" where
  "emit_event cfg event =
     ''{'' @ quoted ''version'' @ '':2,'' @ quoted ''type'' @ '':'' @ quoted ''event'' @ '',''
     @ quoted ''start_ns'' @ '':'' @ c_unsigned (be_start_ns event) @ '',''
     @ quoted ''end_ns'' @ '':'' @ c_unsigned (be_end_ns event) @ '',''
     @ quoted ''pid'' @ '':'' @ c_unsigned (be_pid event) @ '',''
     @ quoted ''tid'' @ '':'' @ c_unsigned (be_tid event) @ '',''
     @ emit_pidns cfg @ ''}'' @ newline"

definition emit_lost :: "sidecar_config \<Rightarrow> u64 \<Rightarrow> string" where
  "emit_lost cfg n =
     ''{'' @ quoted ''version'' @ '':2,'' @ quoted ''type'' @ '':'' @ quoted ''lost'' @ '',''
     @ quoted ''count'' @ '':'' @ c_unsigned n @ '',''
     @ quoted ''source'' @ '':'' @ quoted ''perf_buffer'' @ '',''
     @ emit_pidns cfg @ ''}'' @ newline"

section \<open>Files\<close>

text \<open>\<open>readable\<close> stands for \<open>access(path, R_OK)\<close>. The first root with a readable enter format decides.\<close>

definition PATH_MAX :: nat where
  "PATH_MAX = 4096"

fun tracepoint_in :: "(string \<Rightarrow> bool) \<Rightarrow> string \<Rightarrow> string list \<Rightarrow> bool" where
  "tracepoint_in readable name [] = False"
| "tracepoint_in readable name (base # bases) =
     (let enter = base @ ''/sys_enter_'' @ name @ ''/format'';
          exit = base @ ''/sys_exit_'' @ name @ ''/format''
      in if PATH_MAX \<le> length enter then tracepoint_in readable name bases
         else if readable enter then length exit < PATH_MAX \<and> readable exit
         else tracepoint_in readable name bases)"

definition tracepoint_exists :: "(string \<Rightarrow> bool) \<Rightarrow> string \<Rightarrow> bool" where
  "tracepoint_exists readable name =
     tracepoint_in readable name
       [''/sys/kernel/tracing/events/syscalls'', ''/sys/kernel/debug/tracing/events/syscalls'']"

text \<open>\<open>strrchr\<close> and the assignment that cuts the string there.\<close>

definition before_last_slash :: "string \<Rightarrow> string option" where
  "before_last_slash s =
     (if CHR ''/'' \<in> set s then Some (rev (tl (dropWhile (\<lambda>c. c \<noteq> CHR ''/'') (rev s)))) else None)"

text \<open>What the loader finds around it: \<open>BLOCKSNOOP_BPF_OBJECT\<close> and the target of \<open>/proc/self/exe\<close>
  (\<open>None\<close>: \<open>readlink\<close> fails).\<close>

record sidecar_env =
  se_readable :: "string \<Rightarrow> bool"
  se_object_variable :: "string option"
  se_executable :: "string option"

definition object_directory :: "sidecar_env \<Rightarrow> string \<Rightarrow> string option" where
  "object_directory env argv0 =
     (case se_executable env of
        None \<Rightarrow> if PATH_MAX \<le> length argv0 then None else before_last_slash argv0
      | Some exe \<Rightarrow>
          (case before_last_slash (take (PATH_MAX - 1) exe) of
             None \<Rightarrow> None
           | Some directory \<Rightarrow> if PATH_MAX \<le> length directory then None else Some directory))"

definition default_bpf_object :: "sidecar_env \<Rightarrow> string \<Rightarrow> string option" where
  "default_bpf_object env argv0 =
     (case se_object_variable env of
        Some (c # cs) \<Rightarrow> if PATH_MAX \<le> length (c # cs) then None else Some (c # cs)
      | _ \<Rightarrow>
          (case object_directory env argv0 of
             None \<Rightarrow> None
           | Some directory \<Rightarrow>
               List.find (\<lambda>path. length path < PATH_MAX \<and> se_readable env path)
                 (map ((@) directory)
                   [''/../blocksnoop/bpf/core_blockdetect.bpf.o'', ''/../bpf/core_blockdetect.bpf.o'',
                    ''/core_blockdetect.bpf.o''])))"

section \<open>Setting up the programs\<close>

text \<open>What libbpf and the kernel answer: a parameter of the model. The state is what the loader holds and
  has to give back.\<close>

record libbpf =
  lb_opens :: "string \<Rightarrow> bool"
  lb_programs :: "string list"
  lb_maps :: "string list"
  lb_cpus :: int
  lb_sizes :: "u32 \<Rightarrow> bool"
  lb_loads :: "string list \<Rightarrow> bool"
  lb_configures :: "sidecar_config \<Rightarrow> bool"
  lb_buffers :: bool
  lb_attaches :: "string \<times> string \<Rightarrow> bool"

record loader =
  ld_object :: "string option"
  ld_not_loaded :: "string list"
  ld_max_entries :: u32
  ld_config :: "sidecar_config option"
  ld_buffer :: bool
  ld_links :: "(string \<times> string) list"
  ld_destroyed :: "(string \<times> string) list"

definition no_loader :: loader where
  "no_loader = \<lparr>ld_object = None, ld_not_loaded = [], ld_max_entries = 0, ld_config = None, ld_buffer = False,
     ld_links = [], ld_destroyed = []\<rparr>"

text \<open>A step of the set-up gives the new state and the message of its failure, which goes to \<open>cleanup\<close>.\<close>

type_synonym setup_step = "loader \<Rightarrow> loader \<times> string option"

definition or_fatal :: "bool \<Rightarrow> string \<Rightarrow> setup_step" where
  "or_fatal ok message l = (l, if ok then None else Some message)"

definition then_step :: "setup_step \<Rightarrow> setup_step \<Rightarrow> setup_step" where
  "then_step first second l =
     (case first l of (l', Some message) \<Rightarrow> (l', Some message) | (l', None) \<Rightarrow> second l')"

definition open_object :: "libbpf \<Rightarrow> string \<Rightarrow> setup_step" where
  "open_object lb path l =
     (if lb_opens lb path then (l\<lparr>ld_object := Some path\<rparr>, None) else (l, Some ''could not open BPF object''))"

fun select_programs :: "libbpf \<Rightarrow> epoll_variant list \<Rightarrow> setup_step" where
  "select_programs lb [] l = (l, None)"
| "select_programs lb (v # vs) l =
     (if ev_exit_program v \<notin> set (lb_programs lb) \<or> ev_enter_program v \<notin> set (lb_programs lb)
      then (l, Some ''BPF object is missing an epoll tracepoint program'')
      else select_programs lb vs
        (if ev_enabled v then l
         else l\<lparr>ld_not_loaded := ld_not_loaded l @ [ev_exit_program v, ev_enter_program v]\<rparr>))"

definition find_events :: "libbpf \<Rightarrow> setup_step" where
  "find_events lb = or_fatal (''events'' \<in> set (lb_maps lb)) ''BPF object is missing the events map''"

definition size_events :: "libbpf \<Rightarrow> setup_step" where
  "size_events lb l =
     (if lb_cpus lb \<le> 0 then (l, Some ''could not determine the number of possible CPUs'')
      else if \<not> lb_sizes lb (of_int (lb_cpus lb))
      then (l, Some ''could not size the perf events map for available CPUs'')
      else (l\<lparr>ld_max_entries := of_int (lb_cpus lb)\<rparr>, None))"

definition load_object :: "libbpf \<Rightarrow> setup_step" where
  "load_object lb l =
     or_fatal (lb_loads lb (ld_not_loaded l)) ''could not load BPF object (root/CAP_BPF may be required)'' l"

definition write_config :: "libbpf \<Rightarrow> sidecar_config \<Rightarrow> setup_step" where
  "write_config lb cfg l =
     (if ''config'' \<notin> set (lb_maps lb) \<or> \<not> lb_configures lb cfg then (l, Some ''could not configure BPF object'')
      else (l\<lparr>ld_config := Some cfg\<rparr>, None))"

definition open_buffer :: "libbpf \<Rightarrow> setup_step" where
  "open_buffer lb l =
     (if lb_buffers lb then (l\<lparr>ld_buffer := True\<rparr>, None) else (l, Some ''could not create perf buffer''))"

definition attach :: "libbpf \<Rightarrow> string \<times> string \<Rightarrow> string \<Rightarrow> setup_step" where
  "attach lb link message l =
     (if lb_attaches lb link then (l\<lparr>ld_links := ld_links l @ [link]\<rparr>, None) else (l, Some message))"

fun attach_variants :: "libbpf \<Rightarrow> epoll_variant list \<Rightarrow> setup_step" where
  "attach_variants lb [] l = (l, None)"
| "attach_variants lb (v # vs) l =
     (if \<not> ev_enabled v then attach_variants lb vs l
      else then_step (attach lb (ev_exit_program v, ev_exit_tracepoint v) ''could not attach an epoll exit tracepoint'')
        (then_step (attach lb (ev_enter_program v, ev_enter_tracepoint v) ''could not attach an epoll enter tracepoint'')
          (attach_variants lb vs)) l)"

definition setup_programs :: "libbpf \<Rightarrow> sidecar_config \<Rightarrow> string \<Rightarrow> epoll_variant list \<Rightarrow> setup_step" where
  "setup_programs lb cfg path vs =
     then_step (open_object lb path)
       (then_step (select_programs lb vs)
         (then_step (find_events lb)
           (then_step (size_events lb)
             (then_step (load_object lb)
               (then_step (write_config lb cfg)
                 (then_step (find_events lb)
                   (then_step (open_buffer lb) (attach_variants lb vs))))))))"

definition release :: "loader \<Rightarrow> loader" where
  "release l = l\<lparr>ld_destroyed := ld_destroyed l @ ld_links l, ld_links := [], ld_buffer := False, ld_object := None\<rparr>"

section \<open>The main function\<close>

text \<open>One poll of the perf buffer: the records it delivers (samples with their size in bytes), and
  whether it fails with an error other than \<open>EINTR\<close>.\<close>

datatype c_record = CSample nat bpf_event | CLost u64

definition handle_record :: "sidecar_config \<Rightarrow> c_record \<Rightarrow> string list" where
  "handle_record cfg rec =
     (case rec of
        CSample bytes event \<Rightarrow> if bytes < 24 then [] else [emit_event cfg event]
      | CLost n \<Rightarrow> [emit_lost cfg n])"

text \<open>The polls until the stop signal; the exit status last.\<close>

fun poll_until_stopped :: "sidecar_config \<Rightarrow> (c_record list \<times> bool) list \<Rightarrow> string list \<times> int" where
  "poll_until_stopped cfg [] = ([], 0)"
| "poll_until_stopped cfg ((records, failed) # polls) =
     (let out = concat (map (handle_record cfg) records)
      in if failed then (out @ [emit_fatal ''perf buffer polling failed''], 1)
         else (let (rest, status) = poll_until_stopped cfg polls in (out @ rest, status)))"

definition mark_enabled :: "sidecar_env \<Rightarrow> epoll_variant \<Rightarrow> epoll_variant" where
  "mark_enabled env v = v\<lparr>ev_enabled := tracepoint_exists (se_readable env) (ev_name v)\<rparr>"

text \<open>The run of the loader: what it holds at the end, its output and its exit status. The first word of
  the command is \<open>argv[0]\<close>.\<close>

definition sidecar_run ::
  "getopt \<Rightarrow> sidecar_env \<Rightarrow> libbpf \<Rightarrow> (c_record list \<times> bool) list \<Rightarrow> string list \<Rightarrow> loader \<times> string list \<times> int" where
  "sidecar_run getopt env lb polls command =
     (case parse_command getopt (tl command) of
        Inl status \<Rightarrow> (no_loader, [], status)
      | Inr a \<Rightarrow>
          (case (case sa_object a of Some path \<Rightarrow> Some path | None \<Rightarrow> default_bpf_object env (hd command)) of
             None \<Rightarrow> (no_loader, [emit_fatal ''could not determine the BPF object path''], 1)
           | Some path \<Rightarrow>
               let vs = map (mark_enabled env) epoll_variants
               in if filter ev_enabled vs = []
                  then (no_loader, [emit_fatal ''no supported epoll tracepoint pair is available''], 1)
                  else case setup_programs lb (sa_config a) path vs no_loader of
                         (l, Some message) \<Rightarrow> (release l, [emit_fatal message], 1)
                       | (l, None) \<Rightarrow>
                           (let (out, status) = poll_until_stopped (sa_config a) polls
                            in (release l, emit_ready (sa_config a) vs # out, status))))"

definition sidecar_main ::
  "getopt \<Rightarrow> sidecar_env \<Rightarrow> libbpf \<Rightarrow> (c_record list \<times> bool) list \<Rightarrow> string list \<Rightarrow> string list \<times> int" where
  "sidecar_main getopt env lb polls command = snd (sidecar_run getopt env lb polls command)"

end
