(* ===== verification/SidecarProtocol.thy ===== *)
theory SidecarProtocol
  imports Sidecar
begin

text \<open>
  The Core backend from end to end: the command \<open>core_backend.py\<close> builds is read back by the loader,
  and the records the loader prints are parsed, accepted and delivered by the Python reader.
\<close>

section \<open>The BPF programs and the BCC probes\<close>

lemma core_hit_eq: "core_hit cfg h s = hit (params_of cfg) h s"
  by (auto simp: core_hit_def hit_def on_epoll_exit_def on_epoll_enter_def sys_exit_def sys_enter_def
      core_is_target_def current_task_def is_target_def params_of_def Let_def
      split: probe.split option.split prod.split)

lemma run_core_eq: "run_core cfg hits = run_probes (params_of cfg) hits"
proof -
  have "core_hit cfg = hit (params_of cfg)"
    by (intro ext) (rule core_hit_eq)
  then show ?thesis
    by (simp add: run_core_def run_probes_def)
qed

section \<open>Numbers on the command line\<close>

lemma digits_value_snoc [simp]: "digits_value (ds @ [c]) = digits_value ds * 10 + (of_char c - 48)"
  by (simp add: digits_value_def)

lemma digits_value_str: "digits_value (nat_to_str n) = n"
proof (induction n rule: nat_to_str.induct)
  case (1 n)
  show ?case
  proof (cases "n < 10")
    case True
    then show ?thesis
      by (simp add: nat_to_str.simps [of n] digits_value_def digit_char_def)
  next
    case False
    then show ?thesis
      using 1 by (simp add: nat_to_str.simps [of n] digit_char_def)
  qed
qed

lemma strtou_str:
  assumes "n < 2 ^ 64"
  shows "strtou (nat_to_str n) = (n, False, [])"
proof -
  obtain c cs where s: "nat_to_str n = c # cs"
    by (cases "nat_to_str n") simp_all
  have digits: "list_all ascii_num (nat_to_str n)"
    by (rule nat_to_str_num)
  then have "\<not> c_space c" "c \<noteq> CHR ''-''" "c \<noteq> CHR ''+''"
    by (auto simp: s c_space_def ascii_num_def)
  moreover have "takeWhile ascii_num (nat_to_str n) = nat_to_str n" "dropWhile ascii_num (nat_to_str n) = []"
    using digits by (simp_all add: list_all_iff takeWhile_eq_all_conv)
  moreover have "dropWhile c_space (nat_to_str n) = nat_to_str n"
    using \<open>\<not> c_space c\<close> by (simp add: s)
  ultimately show ?thesis
    using assms digits_value_str [of n] by (simp add: strtou_def startswith_Cons s Let_def)
qed

lemma nat_to_str_unsigned: "\<not> startswith (nat_to_str n) ''-''" "\<not> startswith (nat_to_str n) ''+''"
  using not_signed [OF nat_to_str_digits nat_to_str_nonempty] by simp_all

lemma parse_u32_str: "\<lbrakk>0 < n; n < 2 ^ 32\<rbrakk> \<Longrightarrow> parse_u32 (str_of_int n) = Some (of_int n)"
proof -
  assume n: "0 < n" "n < 2 ^ 32"
  define m where "m = nat n"
  have m: "n = int m" "0 < m" "m < 2 ^ 32"
    using n by (simp_all add: m_def nat_less_iff)
  then have "strtou (nat_to_str m) = (m, False, [])"
    by (intro strtou_str) simp
  with m show ?thesis
    by (simp add: parse_u32_def str_of_int_def)
qed

lemma parse_u64_str: "\<lbrakk>0 \<le> n; n < 2 ^ 64\<rbrakk> \<Longrightarrow> parse_u64 (str_of_int n) = Some (of_int n)"
proof -
  assume n: "0 \<le> n" "n < 2 ^ 64"
  define m where "m = nat n"
  have m: "n = int m" "m < 2 ^ 64"
    using n by (simp_all add: m_def nat_less_iff)
  with strtou_str [OF m(2)] show ?thesis
    by (simp add: parse_u64_def str_of_int_def nat_to_str_unsigned)
qed

section \<open>The command\<close>

text \<open>What \<open>getopt_long\<close> documents for long options that take an argument and are given in full, each
  followed by its argument.\<close>

definition takes_argument :: "sidecar_option \<Rightarrow> bool" where
  "takes_argument opt = (opt \<notin> set [OptHelp, OptInvalid])"

definition option_words :: "(sidecar_option \<times> string) list \<Rightarrow> string list" where
  "option_words ovs = concat (map (\<lambda>(opt, v). [option_text opt, v]) ovs)"

definition getopt_ok :: "getopt \<Rightarrow> bool" where
  "getopt_ok getopt \<longleftrightarrow>
     (\<forall>ovs. list_all (\<lambda>(opt, v). takes_argument opt) ovs \<longrightarrow> getopt (option_words ovs) = (ovs, []))"

definition config_of :: "int \<Rightarrow> int \<Rightarrow> int \<times> int \<Rightarrow> int \<Rightarrow> sidecar_config" where
  "config_of pid tid pidns threshold =
     \<lparr>sc_target_tgid = of_int pid, sc_target_tid = of_int tid, sc_threshold_ns = of_int threshold,
      sc_pidns_dev = of_int (fst pidns), sc_pidns_ino = of_int (snd pidns)\<rparr>"

definition representable :: "int \<Rightarrow> int \<Rightarrow> int \<times> int \<Rightarrow> int \<Rightarrow> bool" where
  "representable pid tid pidns threshold \<longleftrightarrow>
     0 < pid \<and> pid < 2 ^ 32 \<and> 0 < tid \<and> tid < 2 ^ 32 \<and> 0 < fst pidns \<and> fst pidns < 2 ^ 64 \<and>
     0 < snd pidns \<and> snd pidns < 2 ^ 64 \<and> 0 \<le> threshold \<and> threshold < 2 ^ 64"

lemma of_int_nonzero:
  assumes "0 < n" and "n < 2 ^ 64"
  shows "(of_int n :: u64) \<noteq> 0"
proof
  assume "(of_int n :: u64) = 0"
  then have "uint (of_int n :: u64) = 0"
    by simp
  with assms show False
    by (simp add: unsigned_of_int take_bit_int_eq_self)
qed

lemma parse_command_line:
  assumes "getopt_ok getopt" and "representable pid tid pidns threshold"
  shows "\<exists>a. parse_command getopt (tl (command_line sidecar pid tid pidns threshold)) = Inr a \<and>
    sa_config a = config_of pid tid pidns threshold \<and> sa_object a = None"
proof -
  let ?ovs = "[(OptVersion, str_of_int PROTOCOL_VERSION), (OptPid, str_of_int pid), (OptTid, str_of_int tid),
    (OptDev, str_of_int (fst pidns)), (OptIno, str_of_int (snd pidns)), (OptThreshold, str_of_int threshold)]"
  have "tl (command_line sidecar pid tid pidns threshold) = option_words ?ovs"
    by (simp add: command_line_def option_words_def)
  moreover have "list_all (\<lambda>(opt, v). takes_argument opt) ?ovs"
    by (simp add: takes_argument_def)
  ultimately have getopt: "getopt (tl (command_line sidecar pid tid pidns threshold)) = (?ovs, [])"
    using assms(1) by (metis getopt_ok_def)
  have "parse_u32 (str_of_int PROTOCOL_VERSION) = Some 2"
    using parse_u32_str [of 2] by (simp add: PROTOCOL_VERSION_def)
  then show ?thesis
    using assms(2)
    by (simp add: parse_command_def getopt representable_def parse_u32_str parse_u64_str of_int_nonzero
        config_of_def no_args_def)
qed

section \<open>The records as JSON\<close>

definition plain :: "string \<Rightarrow> bool" where
  "plain s = list_all (\<lambda>c. escape_char c = [c] \<and> (of_char c :: nat) < 128) s"

lemma dumps_plain: "plain s \<Longrightarrow> dumps_str s = quoted s"
proof -
  assume "plain s"
  then have "concat (map escape_char s) = s"
    by (induction s) (simp_all add: plain_def)
  then show ?thesis
    by (simp add: dumps_str_def quoted_def)
qed

lemma plain_ascii: "plain s \<Longrightarrow> ascii s"
  by (simp add: plain_def ascii_def list_all_iff)

lemma plain_literals:
  "plain ''version''" "plain ''type''" "plain ''ready''" "plain ''event''" "plain ''lost''" "plain ''pid''" "plain ''tid''"
  "plain ''pidns_dev''" "plain ''pidns_ino''" "plain ''threshold_ns''" "plain ''tracepoints''" "plain ''start_ns''"
  "plain ''end_ns''" "plain ''count''" "plain ''source''" "plain ''perf_buffer''"
  "plain ''epoll_wait''" "plain ''epoll_pwait''" "plain ''epoll_pwait2''"
  by (simp_all add: plain_def escape_char_def)

lemmas literal_text = plain_literals [THEN dumps_plain]
lemmas literal_ascii = plain_literals [THEN plain_ascii]

definition enabled_names :: "epoll_variant list \<Rightarrow> string list" where
  "enabled_names vs = map ev_name (filter ev_enabled vs)"

lemma variants_plain: "list_all plain (enabled_names (map (mark_enabled env) epoll_variants))"
  by (simp add: enabled_names_def epoll_variants_def variant_of_def mark_enabled_def plain_literals)

definition pidns_fields :: "sidecar_config \<Rightarrow> json_obj" where
  "pidns_fields cfg = [(''pidns_dev'', JInt (uint (sc_pidns_dev cfg))), (''pidns_ino'', JInt (uint (sc_pidns_ino cfg)))]"

definition ready_fields :: "sidecar_config \<Rightarrow> string list \<Rightarrow> json_obj" where
  "ready_fields cfg enabled =
     [(''version'', JInt 2), (''type'', JStr ''ready''), (''pid'', JInt (uint (sc_target_tgid cfg))),
      (''tid'', JInt (uint (sc_target_tid cfg)))] @ pidns_fields cfg @
     [(''threshold_ns'', JInt (uint (sc_threshold_ns cfg))), (''tracepoints'', JList (map JStr enabled))]"

definition event_fields :: "sidecar_config \<Rightarrow> bpf_event \<Rightarrow> json_obj" where
  "event_fields cfg e =
     [(''version'', JInt 2), (''type'', JStr ''event''), (''start_ns'', JInt (uint (be_start_ns e))),
      (''end_ns'', JInt (uint (be_end_ns e))), (''pid'', JInt (uint (be_pid e))), (''tid'', JInt (uint (be_tid e)))]
     @ pidns_fields cfg"

definition lost_fields :: "sidecar_config \<Rightarrow> u64 \<Rightarrow> json_obj" where
  "lost_fields cfg n =
     [(''version'', JInt 2), (''type'', JStr ''lost''), (''count'', JInt (uint n)), (''source'', JStr ''perf_buffer'')]
     @ pidns_fields cfg"

lemmas record_fields = ready_fields_def event_fields_def lost_fields_def pidns_fields_def

lemma c_unsigned_str: "c_unsigned w = str_of_int (uint w)"
proof -
  have "unat w = nat (uint w)" and "\<not> uint w < 0"
    by simp_all
  then show ?thesis
    by (simp only: c_unsigned_def str_of_int_def if_False)
qed

lemma str_2: "str_of_int 2 = ''2''"
  by code_simp

lemmas record_text = emit_pidns_def c_unsigned_str literal_text str_2 newline_def

lemma emit_event_text: "emit_event cfg e = dumps_sp [] ft (JObj (event_fields cfg e)) @ newline"
  by (simp add: emit_event_def record_fields record_text)

lemma emit_lost_text: "emit_lost cfg n = dumps_sp [] ft (JObj (lost_fields cfg n)) @ newline"
  by (simp add: emit_lost_def record_fields record_text)

lemma emit_ready_text:
  assumes "list_all plain (enabled_names vs)"
  shows "emit_ready cfg vs = dumps_sp [] ft (JObj (ready_fields cfg (enabled_names vs))) @ newline"
proof -
  have "map (dumps_sp [] ft \<circ> JStr) (enabled_names vs) = map quoted (enabled_names vs)"
    using assms by (intro map_cong) (simp_all add: list_all_iff dumps_plain)
  then have "map (dumps_sp [] ft \<circ> JStr) (enabled_names vs) = map (\<lambda>v. quoted (ev_name v)) (filter ev_enabled vs)"
    by (simp add: enabled_names_def comp_def)
  then show ?thesis
    by (simp add: emit_ready_def record_fields record_text del: map_eq_conv)
qed

lemma word_digits:
  fixes w :: "'a::len word"
  assumes "LENGTH('a) \<le> 64"
  shows "uint w < 10 ^ max_str_digits"
proof -
  have "uint w < 2 ^ LENGTH('a)"
    by (rule unsigned_less)
  also have "\<dots> \<le> (2 :: int) ^ 64"
    using assms by (intro power_increasing) simp_all
  also have "\<dots> \<le> 10 ^ 20"
    by simp
  also have "\<dots> \<le> (10 :: int) ^ max_str_digits"
    by (rule power_increasing) (simp_all add: max_str_digits_def)
  finally show ?thesis .
qed

lemma two_digits: "(2 :: int) < 10 ^ max_str_digits"
  using small_ids(2) by linarith

lemma records_ok:
  "json_ok ft (JObj (event_fields cfg e))" "json_ok ft (JObj (lost_fields cfg n))"
  "list_all plain enabled \<Longrightarrow> json_ok ft (JObj (ready_fields cfg enabled))"
  by (auto simp: record_fields literal_ascii word_digits two_digits list_all_iff plain_ascii)

section \<open>Reading the records\<close>

definition line_of :: "float_text \<Rightarrow> string \<Rightarrow> reader_input" where
  "line_of ft s = Line (case loads ft s of Some v \<Rightarrow> Parsed v | None \<Rightarrow> DecodeError)"

lemma line_of_record:
  assumes "s = dumps_sp [] ft v @ newline" and "json_ok ft v"
  shows "line_of ft s = Line (Parsed v)"
  using loads_dumps [OF assms(2), of newline "[]"] by (simp add: line_of_def assms(1) newline_def json_space_def)

lemmas lines_of_records =
  line_of_record [OF emit_event_text records_ok(1)] line_of_record [OF emit_lost_text records_ok(2)]
  line_of_record [OF emit_ready_text records_ok(3)]

definition matches :: "sidecar_config \<Rightarrow> core_detector \<Rightarrow> bool" where
  "matches cfg d \<longleftrightarrow>
     cd_expected_pid d = uint (sc_target_tgid cfg) \<and> cd_expected_tid d = Some (uint (sc_target_tid cfg)) \<and>
     cd_pidns_dev d = Some (uint (sc_pidns_dev cfg)) \<and> cd_pidns_ino d = Some (uint (sc_pidns_ino cfg)) \<and>
     expected_threshold_ns d = uint (sc_threshold_ns cfg)"

definition event_of_bpf :: "bpf_event \<Rightarrow> blocking_event" where
  "event_of_bpf e = \<lparr>start_ns = uint (be_start_ns e), end_ns = uint (be_end_ns e),
     ev_pid = uint (be_pid e), ev_tid = uint (be_tid e), python_stacks = []\<rparr>"

definition valid_sample :: "sidecar_config \<Rightarrow> bpf_event \<Rightarrow> bool" where
  "valid_sample cfg e \<longleftrightarrow>
     be_pid e = sc_target_tgid cfg \<and> be_tid e = sc_target_tid cfg \<and> be_start_ns e \<le> be_end_ns e"

definition harmless :: "callbacks \<Rightarrow> bool" where
  "harmless cb \<longleftrightarrow>
     (\<forall>e. swallowed (on_blocking cb e) = None) \<and> (\<forall>f l. on_loss cb = Some f \<longrightarrow> swallowed (f l) = None)"

lemma handle_ready_record:
  assumes "matches cfg d" and "enabled \<noteq> []"
  shows "handle_line cb (Parsed (JObj (ready_fields cfg enabled))) d = (d\<lparr>cd_ready := True\<rparr>, None)"
  using assms
  by (simp add: matches_def line_eval record_fields handle_ready_def require_event_int_def require_pidns_def
      expects_pidns_def tracepoints_ok_def list_all_iff)

lemma handle_event_record:
  assumes "matches cfg d" and "valid_sample cfg e" and "harmless cb"
  shows "handle_line cb (Parsed (JObj (event_fields cfg e))) d =
    (d\<lparr>cd_delivered := cd_delivered d @ [event_of_bpf e]\<rparr>, None)"
  using assms
  by (simp add: matches_def valid_sample_def harmless_def line_eval record_fields handle_event_def event_of_message_def
      require_event_int_def require_pidns_def expects_pidns_def event_of_bpf_def word_le_def)

definition lost_of_record :: "u64 \<Rightarrow> lost_event" where
  "lost_of_record n = \<lparr>lost_count = uint n, lost_source = ''perf_buffer''\<rparr>"

lemma handle_lost_record:
  assumes "matches cfg d" and "harmless cb"
  shows "\<exists>calls. handle_line cb (Parsed (JObj (lost_fields cfg n))) d =
    ((core_lose (lost_of_record n) d)\<lparr>cd_loss_calls := calls\<rparr>, None)"
proof -
  have "uint n < 2 ^ 64"
    using unsigned_less [of n] by simp
  then have "\<not> UINT64_MAX < uint n"
    by (simp add: UINT64_MAX_def)
  moreover have "\<exists>calls. note_loss (on_loss cb) l d = ((core_lose l d)\<lparr>cd_loss_calls := calls\<rparr>, None)" for l
  proof (cases "on_loss cb")
    case None
    then show ?thesis
      by (intro exI [of _ "cd_loss_calls d"]) (simp add: note_loss_def core_lose_def)
  next
    case (Some f)
    then show ?thesis
      using assms(2) by (auto simp: note_loss_def harmless_def)
  qed
  ultimately show ?thesis
    using assms(1)
    by (simp add: matches_def line_eval record_fields handle_lost_def require_event_int_def require_pidns_def
        expects_pidns_def source_known_def LOSS_SOURCES_def lost_of_record_def)
qed

section \<open>A whole stream\<close>

fun c_samples :: "c_record list \<Rightarrow> bpf_event list" where
  "c_samples [] = []"
| "c_samples (CSample bytes e # rs) = (if bytes < 24 then c_samples rs else e # c_samples rs)"
| "c_samples (CLost n # rs) = c_samples rs"

fun c_losses :: "c_record list \<Rightarrow> lost_event list" where
  "c_losses [] = []"
| "c_losses (CSample bytes e # rs) = c_losses rs"
| "c_losses (CLost n # rs) = lost_of_record n # c_losses rs"

definition poll_records :: "(c_record list \<times> bool) list \<Rightarrow> c_record list" where
  "poll_records polls = concat (map fst polls)"

lemma poll_until_stopped_ok:
  "list_all (\<lambda>p. \<not> snd p) polls \<Longrightarrow>
   poll_until_stopped cfg polls = (concat (map (handle_record cfg) (poll_records polls)), 0)"
  by (induction polls) (auto simp: poll_records_def)

lemma read_records:
  assumes "harmless cb" and "matches cfg d" and "list_all (valid_sample cfg) (c_samples rs)"
  shows "\<exists>calls. read_lines cb (map (line_of ft) (concat (map (handle_record cfg) rs))) d =
    (d\<lparr>cd_delivered := cd_delivered d @ map event_of_bpf (c_samples rs),
       cd_loss_counts := fold loss_add (c_losses rs) (cd_loss_counts d), cd_loss_calls := calls\<rparr>, None)"
  using assms(2,3)
proof (induction rs arbitrary: d)
  case Nil
  show ?case
    by (intro exI [of _ "cd_loss_calls d"]) simp
next
  case (Cons rec rs)
  show ?case
  proof (cases rec)
    case (CSample bytes e)
    show ?thesis
    proof (cases "bytes < 24")
      case True
      then show ?thesis
        using Cons CSample by (simp add: handle_record_def)
    next
      case False
      define d1 where "d1 = d\<lparr>cd_delivered := cd_delivered d @ [event_of_bpf e]\<rparr>"
      have "valid_sample cfg e" and rest: "list_all (valid_sample cfg) (c_samples rs)"
        using Cons.prems(2) False by (simp_all add: CSample)
      then have step: "handle_line cb (Parsed (JObj (event_fields cfg e))) d = (d1, None)"
        using handle_event_record [OF Cons.prems(1) _ assms(1)] by (simp add: d1_def)
      have "matches cfg d1"
        using Cons.prems(1) by (simp add: matches_def d1_def expected_threshold_ns_def)
      from Cons.IH [OF this rest] show ?thesis
        using False by (simp add: CSample handle_record_def lines_of_records step) (simp add: d1_def)
    qed
  next
    case (CLost n)
    obtain calls where
      step: "handle_line cb (Parsed (JObj (lost_fields cfg n))) d = ((core_lose (lost_of_record n) d)\<lparr>cd_loss_calls := calls\<rparr>, None)"
      using handle_lost_record [OF Cons.prems(1) assms(1)] by blast
    define d1 where "d1 = (core_lose (lost_of_record n) d)\<lparr>cd_loss_calls := calls\<rparr>"
    have "matches cfg d1" "list_all (valid_sample cfg) (c_samples rs)"
      using Cons.prems by (simp_all add: matches_def d1_def core_lose_def expected_threshold_ns_def CLost)
    from Cons.IH [OF this] show ?thesis
      by (simp add: CLost handle_record_def lines_of_records step flip: d1_def) (simp add: d1_def core_lose_def)
  qed
qed

section \<open>From the command to the callback\<close>

lemma build_command_line:
  assumes "build_command fs sidecar d = (d1, Inr command)"
  shows "\<exists>tid dev ino. cd_expected_tid d1 = Some tid \<and> cd_pidns_dev d1 = Some dev \<and> cd_pidns_ino d1 = Some ino \<and>
    command = command_line sidecar (cd_expected_pid d1) tid (dev, ino) (expected_threshold_ns d1)"
  using assms by (auto simp: build_command_def Let_def expected_threshold_ns_def split: option.splits sum.splits)

lemma uint_of_int:
  assumes "0 \<le> n" and "n < 2 ^ LENGTH('a)"
  shows "uint (of_int n :: 'a::len word) = n"
  using assms by (simp add: unsigned_of_int take_bit_int_eq_self)

text \<open>The loader finds its object, some epoll variant is traceable, and no step of the set-up fails.\<close>

definition serviceable :: "sidecar_env \<Rightarrow> libbpf \<Rightarrow> sidecar_config \<Rightarrow> string \<Rightarrow> bool" where
  "serviceable env lb cfg argv0 \<longleftrightarrow>
     (case default_bpf_object env argv0 of
        None \<Rightarrow> False
      | Some path \<Rightarrow>
          let vs = map (mark_enabled env) epoll_variants
          in filter ev_enabled vs \<noteq> [] \<and> snd (setup_programs lb cfg path vs no_loader) = None)"

lemma run_serviceable:
  assumes "serviceable env lb cfg (hd command)" and "parse_command getopt (tl command) = Inr a"
    and "sa_config a = cfg" and "sa_object a = None"
  shows "sidecar_main getopt env lb polls command =
    (let (out, status) = poll_until_stopped cfg polls
     in (emit_ready cfg (map (mark_enabled env) epoll_variants) # out, status))"
proof -
  obtain path where "default_bpf_object env (hd command) = Some path"
    and "filter ev_enabled (map (mark_enabled env) epoll_variants) \<noteq> []"
    and "snd (setup_programs lb cfg path (map (mark_enabled env) epoll_variants) no_loader) = None"
    using assms(1) by (auto simp: serviceable_def Let_def split: option.splits)
  then show ?thesis
    using assms(2-4) by (simp add: sidecar_main_def sidecar_run_def Let_def case_prod_beta')
qed

definition target_config :: "core_detector \<Rightarrow> sidecar_config" where
  "target_config d = config_of (cd_expected_pid d) (the (cd_expected_tid d))
     (the (cd_pidns_dev d), the (cd_pidns_ino d)) (expected_threshold_ns d)"

definition target_representable :: "core_detector \<Rightarrow> bool" where
  "target_representable d = representable (cd_expected_pid d) (the (cd_expected_tid d))
     (the (cd_pidns_dev d), the (cd_pidns_ino d)) (expected_threshold_ns d)"

lemma session_stream:
  assumes "build_command fs sidecar d = (d1, Inr command)" and "target_representable d1"
    and "getopt_ok getopt" and "serviceable env lb (target_config d1) sidecar"
    and "list_all (\<lambda>p. \<not> snd p) polls" and "harmless cb"
    and "list_all (valid_sample (target_config d1)) (c_samples (poll_records polls))"
  shows "\<exists>out calls. sidecar_main getopt env lb polls command = (out, 0) \<and>
    read_lines cb (map (line_of ft) out) d1 =
      (d1\<lparr>cd_ready := True, cd_delivered := cd_delivered d1 @ map event_of_bpf (c_samples (poll_records polls)),
          cd_loss_counts := fold loss_add (c_losses (poll_records polls)) (cd_loss_counts d1),
          cd_loss_calls := calls\<rparr>, None)"
proof -
  define cfg where "cfg = target_config d1"
  obtain tid dev ino where id: "cd_expected_tid d1 = Some tid" "cd_pidns_dev d1 = Some dev" "cd_pidns_ino d1 = Some ino"
    and command: "command = command_line sidecar (cd_expected_pid d1) tid (dev, ino) (expected_threshold_ns d1)"
    using build_command_line [OF assms(1)] by blast
  have rep: "representable (cd_expected_pid d1) tid (dev, ino) (expected_threshold_ns d1)"
    using assms(2) by (simp add: target_representable_def id)
  have cfg: "cfg = config_of (cd_expected_pid d1) tid (dev, ino) (expected_threshold_ns d1)"
    by (simp add: cfg_def target_config_def id)
  obtain a where a: "parse_command getopt (tl command) = Inr a" "sa_config a = cfg" "sa_object a = None"
    using parse_command_line [OF assms(3) rep] unfolding command cfg by blast
  define vs where "vs = map (mark_enabled env) epoll_variants"
  have enabled: "enabled_names vs \<noteq> []" "list_all plain (enabled_names vs)"
    using assms(4) variants_plain [of env]
    by (auto simp: vs_def enabled_names_def serviceable_def Let_def split: option.splits)
  have "hd command = sidecar"
    by (simp add: command command_line_def)
  with assms(4) have serve: "serviceable env lb cfg (hd command)"
    by (simp add: cfg_def)
  have m: "matches cfg d1"
    using rep by (simp add: matches_def cfg id config_of_def representable_def uint_of_int)
  define d2 where "d2 = d1\<lparr>cd_ready := True\<rparr>"
  have "matches cfg d2"
    using m by (simp add: matches_def d2_def expected_threshold_ns_def)
  from read_records [OF assms(6) this, of "poll_records polls" ft] obtain calls where
    rest: "read_lines cb (map (line_of ft) (concat (map (handle_record cfg) (poll_records polls)))) d2 =
      (d2\<lparr>cd_delivered := cd_delivered d2 @ map event_of_bpf (c_samples (poll_records polls)),
          cd_loss_counts := fold loss_add (c_losses (poll_records polls)) (cd_loss_counts d2),
          cd_loss_calls := calls\<rparr>, None)"
    using assms(7) by (auto simp: cfg_def)
  define out where "out = emit_ready cfg vs # concat (map (handle_record cfg) (poll_records polls))"
  have "sidecar_main getopt env lb polls command = (out, 0)"
    by (simp add: run_serviceable [OF serve a] poll_until_stopped_ok [OF assms(5)] out_def Let_def flip: vs_def)
  moreover have "read_lines cb (map (line_of ft) out) d1 =
      (d1\<lparr>cd_ready := True, cd_delivered := cd_delivered d1 @ map event_of_bpf (c_samples (poll_records polls)),
          cd_loss_counts := fold loss_add (c_losses (poll_records polls)) (cd_loss_counts d1),
          cd_loss_calls := calls\<rparr>, None)"
    using rest handle_ready_record [OF m enabled(1), of cb]
    by (simp add: out_def lines_of_records(3) [OF enabled(2) enabled(2)] d2_def)
  ultimately show ?thesis
    by blast
qed

section \<open>From the kernel to the callback\<close>

lemma phases_times:
  assumes "ordered opened hs" and "\<And>t. t \<in> (case opened of None \<Rightarrow> {} | Some t \<Rightarrow> {t}) \<union> set (map snd hs) \<Longrightarrow> t < n"
    and "(t0, t1) \<in> set (phases opened hs)"
  shows "t0 \<le> t1 \<and> t1 < n"
  using assms
proof (induction opened hs rule: phases.induct)
  case (2 opened t hs)
  then show ?case
    by (cases opened) (auto simp: ordered_def)
next
  case (3 opened t hs)
  then show ?case
    by (cases opened) (auto simp: ordered_def)
qed simp

lemma target_times_bound: "t \<in> set (map snd (target_times p hits)) \<Longrightarrow> t < 2 ^ 64"
proof -
  have "unat (hc_ktime c) < 2 ^ 64" for c
    using unsigned_less [of "hc_ktime c"] by simp
  then show "t \<in> set (map snd (target_times p hits)) \<Longrightarrow> t < 2 ^ 64"
    by (auto simp: target_times_def)
qed

definition event_of_times :: "core_detector \<Rightarrow> nat \<times> nat \<Rightarrow> blocking_event" where
  "event_of_times d ph = \<lparr>start_ns = int (fst ph), end_ns = int (snd ph), ev_pid = cd_expected_pid d,
     ev_tid = the (cd_expected_tid d), python_stacks = []\<rparr>"

lemma uint_of_nat: "t < 2 ^ 64 \<Longrightarrow> uint (of_nat t :: u64) = int t"
  by (simp add: unsigned_of_nat take_bit_nat_eq_self)

text \<open>The phases of the target, as the hits of the probes give them.\<close>

definition target_phases :: "core_detector \<Rightarrow> (probe \<times> hit_context) list \<Rightarrow> (nat \<times> nat) list" where
  "target_phases d hits = phases None (target_times (params_of (target_config d)) hits)"

lemma submitted_events:
  assumes "target_representable d" and "sorted (map snd (target_times (params_of (target_config d)) hits))"
  defines "cfg \<equiv> target_config d"
  shows "list_all (valid_sample cfg) (submitted (run_core cfg hits))"
    and "map event_of_bpf (submitted (run_core cfg hits)) =
      map (event_of_times d) (filter (\<lambda>ph. expected_threshold_ns d < int (snd ph) - int (fst ph)) (target_phases d hits))"
proof -
  let ?phs = "target_phases d hits"
  have o: "ordered None (target_times (params_of cfg) hits)"
    using assms(2) by (simp add: ordered_def cfg_def)
  have bounds: "t0 \<le> t1 \<and> t1 < 2 ^ 64" if "(t0, t1) \<in> set ?phs" for t0 t1
  proof (rule phases_times [OF o])
    show "t < 2 ^ 64" if "t \<in> (case None of None \<Rightarrow> {} | Some t \<Rightarrow> {t}) \<union> set (map snd (target_times (params_of cfg) hits))" for t
      using that target_times_bound by auto
  qed (use that in \<open>simp add: target_phases_def cfg_def\<close>)
  have ids: "uint (sc_target_tgid cfg) = cd_expected_pid d" "uint (sc_target_tid cfg) = the (cd_expected_tid d)"
    "uint (sc_threshold_ns cfg) = expected_threshold_ns d"
    using assms(1) by (simp_all add: target_representable_def representable_def cfg_def target_config_def config_of_def
        uint_of_int)
  have long: "unat (sc_threshold_ns cfg) < snd ph - fst ph \<longleftrightarrow> expected_threshold_ns d < int (snd ph) - int (fst ph)"
    if "ph \<in> set ?phs" for ph
  proof -
    have "fst ph \<le> snd ph"
      using bounds that by (cases ph) auto
    then show ?thesis
      unfolding ids(3) [symmetric] by (simp add: of_nat_diff flip: of_nat_less_iff [where 'a = int])
  qed
  have "submitted (run_core cfg hits) =
      map (event_of_phase (params_of cfg)) (filter (\<lambda>(t0, t1). unat (sc_threshold_ns cfg) < t1 - t0) ?phs)"
    using fold_hits [OF o, of "[]"]
    by (simp add: run_core_eq run_probes_def state_of_def reported_def case_prod_beta' target_phases_def params_of_def
        flip: cfg_def)
  also have "filter (\<lambda>(t0, t1). unat (sc_threshold_ns cfg) < t1 - t0) ?phs =
      filter (\<lambda>ph. expected_threshold_ns d < int (snd ph) - int (fst ph)) ?phs"
    using long by (intro filter_cong) (auto simp: case_prod_beta')
  finally have sub: "submitted (run_core cfg hits) = map (event_of_phase (params_of cfg))
      (filter (\<lambda>ph. expected_threshold_ns d < int (snd ph) - int (fst ph)) ?phs)" .
  have le: "(of_nat t0 :: u64) \<le> of_nat t1" if "t0 \<le> t1" "t1 < 2 ^ 64" for t0 t1 :: nat
    using that by (simp add: word_le_nat_alt unsigned_of_nat take_bit_nat_eq_self)
  show "list_all (valid_sample cfg) (submitted (run_core cfg hits))"
    unfolding sub using bounds le
    by (fastforce simp: list_all_iff valid_sample_def event_of_phase_def params_of_def)
  have "event_of_bpf (event_of_phase (params_of cfg) ph) = event_of_times d ph" if "ph \<in> set ?phs" for ph
    using bounds [of "fst ph" "snd ph"] that ids
    by (simp add: event_of_bpf_def event_of_phase_def event_of_times_def params_of_def uint_of_nat)
  then show "map event_of_bpf (submitted (run_core cfg hits)) =
      map (event_of_times d) (filter (\<lambda>ph. expected_threshold_ns d < int (snd ph) - int (fst ph)) ?phs)"
    unfolding sub by simp
qed

text \<open>C4: From the kernel to the callback. The command the detector builds is accepted by the loader, and
  when the loader can serve it, its first record is accepted as the handshake; from then on, as long
  as no poll fails and no sample is lost on the way, the callback receives exactly the phases
  between two epoll calls of the target thread that last longer than the threshold, in order, with
  their true times and the namespace-local ids, and the ledger holds the reported losses. The
  clock of the kernel does not run backwards; \<open>getopt\<close> does what \<open>getopt_long\<close> documents.\<close>

theorem core_session_end_to_end:
  assumes "build_command fs sidecar (reset_session d) = (d1, Inr command)" and "target_representable d1"
    and "getopt_ok getopt" and "serviceable env lb (target_config d1) sidecar"
    and "list_all (\<lambda>p. \<not> snd p) polls" and "harmless cb"
    and "sorted (map snd (target_times (params_of (target_config d1)) hits))"
    and "c_samples (poll_records polls) = submitted (run_core (target_config d1) hits)"
  shows "\<exists>out d'. sidecar_main getopt env lb polls command = (out, 0) \<and>
    read_lines cb (map (line_of ft) out) d1 = (d', None) \<and>
    cd_ready d' \<and> cd_startup_error d' = None \<and> cd_runtime_error d' = None \<and>
    cd_delivered d' = cd_delivered d @ map (event_of_times d1)
      (filter (\<lambda>ph. expected_threshold_ns d1 < int (snd ph) - int (fst ph)) (target_phases d1 hits)) \<and>
    cd_loss_counts d' = fold loss_add (c_losses (poll_records polls)) []"
proof -
  note ev = submitted_events [OF assms(2,7)]
  obtain out calls where "sidecar_main getopt env lb polls command = (out, 0)"
    "read_lines cb (map (line_of ft) out) d1 =
      (d1\<lparr>cd_ready := True, cd_delivered := cd_delivered d1 @ map event_of_bpf (c_samples (poll_records polls)),
          cd_loss_counts := fold loss_add (c_losses (poll_records polls)) (cd_loss_counts d1),
          cd_loss_calls := calls\<rparr>, None)"
    using session_stream [OF assms(1-6), of ft] ev(1) assms(8) by auto
  then show ?thesis
    using build_command_fields [OF assms(1)] ev(2) assms(8) by simp
qed

text \<open>The BPF programs of the two backends agree: for the same target and threshold, in the namespace
  of the target, the Core programs submit exactly the events the BCC probes submit.\<close>

theorem core_programs_equal_bcc_probes:
  "submitted (run_core cfg hits) = submitted (run_probes (params_of cfg) hits) \<and>
   callback_start (run_core cfg hits) = callback_start (run_probes (params_of cfg) hits)"
  by (simp add: run_core_eq)

section \<open>A concrete session\<close>

definition option_of :: "string \<Rightarrow> sidecar_option" where
  "option_of word =
     (case map_of (map (\<lambda>opt. (option_text opt, opt))
        [OptVersion, OptPid, OptTid, OptDev, OptIno, OptThreshold, OptObject]) word of
        Some opt \<Rightarrow> opt | None \<Rightarrow> OptInvalid)"

fun plain_getopt :: getopt where
  "plain_getopt (w # v # ws) = (let (ovs, operands) = plain_getopt ws in ((option_of w, v) # ovs, operands))"
| "plain_getopt ws = ([], ws)"

lemma option_of_text: "takes_argument opt \<Longrightarrow> option_of (option_text opt) = opt"
  by (cases opt) (simp_all add: takes_argument_def option_of_def)

lemma plain_getopt_ok: "getopt_ok plain_getopt"
proof -
  have "plain_getopt (option_words ovs) = (ovs, [])" if "list_all (\<lambda>(opt, v). takes_argument opt) ovs" for ovs
    using that by (induction ovs) (auto simp: option_words_def option_of_text)
  then show ?thesis
    by (simp add: getopt_ok_def)
qed

definition slow_hits :: "(probe \<times> hit_context) list" where
  "slow_hits = [(SysExit, \<lparr>hc_nsdata = Some (7, 7), hc_pid_tgid = 0, hc_ktime = 10\<rparr>),
     (SysEnter, \<lparr>hc_nsdata = Some (7, 7), hc_pid_tgid = 0, hc_ktime = 200000010\<rparr>)]"

definition example_polls :: "(c_record list \<times> bool) list" where
  "example_polls = [(map (CSample 24) (submitted (run_core (target_config example_core) slow_hits)), False)]"

lemma c_samples_map: "c_samples (map (CSample 24) es) = es" and c_losses_map: "c_losses (map (CSample 24) es) = []"
  by (induction es) simp_all

definition ready_env :: sidecar_env where
  "ready_env = \<lparr>se_readable = (\<lambda>_. True), se_object_variable = Some ''o'', se_executable = None\<rparr>"

definition ready_libbpf :: libbpf where
  "ready_libbpf = \<lparr>lb_opens = (\<lambda>_. True),
     lb_programs = map ev_exit_program epoll_variants @ map ev_enter_program epoll_variants,
     lb_maps = [''config'', ''callback_start'', ''events''], lb_cpus = 2, lb_sizes = (\<lambda>_. True),
     lb_loads = (\<lambda>_. True), lb_configures = (\<lambda>_. True), lb_buffers = True, lb_attaches = (\<lambda>_. True)\<rparr>"

lemma ready_serviceable: "serviceable ready_env ready_libbpf cfg argv0"
proof -
  have "default_bpf_object ready_env argv0 = Some ''o''"
    by (simp add: default_bpf_object_def ready_env_def PATH_MAX_def)
  moreover have "tracepoint_exists (\<lambda>_. True) ''epoll_wait''" "tracepoint_exists (\<lambda>_. True) ''epoll_pwait''"
    "tracepoint_exists (\<lambda>_. True) ''epoll_pwait2''"
    by (simp_all add: tracepoint_exists_def PATH_MAX_def)
  ultimately show ?thesis
    by (simp add: serviceable_def Let_def epoll_variants_def variant_of_def mark_enabled_def ready_env_def ready_libbpf_def
        setup_programs_def then_step_def or_fatal_def open_object_def find_events_def size_events_def load_object_def
        write_config_def open_buffer_def attach_def)
qed

lemma example_target: "target_config example_core =
  \<lparr>sc_target_tgid = 7, sc_target_tid = 7, sc_threshold_ns = 100000000, sc_pidns_dev = 4, sc_pidns_ino = 9\<rparr>"
  by (simp add: target_config_def config_of_def example_threshold)

lemma slow_times: "target_times (params_of (target_config example_core)) slow_hits = [(SysExit, 10), (SysEnter, 200000010)]"
  by (simp add: target_times_def slow_hits_def of_target_def current_task_def is_target_eq params_of_def example_target)

definition no_floats :: float_text where
  "no_floats = \<lparr>ft_repr = (\<lambda>_. []), ft_parse = (\<lambda>_. 0)\<rparr>"

lemma core_session_end_to_end_witness:
  "\<exists>command out d'. sidecar_main plain_getopt ready_env ready_libbpf example_polls command = (out, 0) \<and>
     read_lines silent_callbacks (map (line_of no_floats) out) example_core = (d', None) \<and>
     map start_ns (cd_delivered d') = [10] \<and> map end_ns (cd_delivered d') = [200000010]"
proof -
  obtain command where b: "build_command example_fs ''blocksnoop-ebpf'' (reset_session idle_core) = (example_core, Inr command)"
    using example_build by blast
  have "target_representable example_core"
    by (simp add: target_representable_def representable_def example_threshold)
  moreover have "serviceable ready_env ready_libbpf (target_config example_core) ''blocksnoop-ebpf''"
    by (rule ready_serviceable)
  moreover have "harmless silent_callbacks" "list_all (\<lambda>p. \<not> snd p) example_polls"
    by (simp_all add: harmless_def silent_callbacks_def swallowed_def example_polls_def)
  moreover have "sorted (map snd (target_times (params_of (target_config example_core)) slow_hits))"
    by (simp add: slow_times)
  moreover have "c_samples (poll_records example_polls) = submitted (run_core (target_config example_core) slow_hits)"
    by (simp add: example_polls_def poll_records_def c_samples_map)
  ultimately obtain out d' where "sidecar_main plain_getopt ready_env ready_libbpf example_polls command = (out, 0)"
    "read_lines silent_callbacks (map (line_of no_floats) out) example_core = (d', None)"
    "cd_delivered d' = cd_delivered idle_core @ map (event_of_times example_core)
      (filter (\<lambda>ph. expected_threshold_ns example_core < int (snd ph) - int (fst ph)) (target_phases example_core slow_hits))"
    using core_session_end_to_end [OF b _ plain_getopt_ok] by blast
  then show ?thesis
    by (intro exI [of _ command] exI [of _ out] exI [of _ d'])
       (simp add: target_phases_def slow_times example_threshold event_of_times_def idle_core_def CoreDetector_def)
qed

end
