(* ===== verification/SidecarLoader.thy ===== *)
theory SidecarLoader
  imports SidecarProtocol
begin

text \<open>
  What the loader holds and gives back: the set-up is a chain of steps, each of which can fail, and
  every way out of it ends in the clean-up. What the command line has to be, what the host has to
  answer and which probes belong to a session are stated on their own, from the words of the
  options, the files of tracefs and the answers of libbpf.
\<close>

section \<open>Chains of steps\<close>











section \<open>The configuration\<close>

lemma select_keeps_config [simp]: "ld_config (fst (select_programs lb vs l)) = ld_config l"
  by (induction lb vs l rule: select_programs.induct) simp_all

lemma attach_keeps_config [simp]: "ld_config (fst (attach lb link message l)) = ld_config l"
  by (simp add: attach_def)

lemma then_step_keeps_config:
  assumes "\<And>l. ld_config (fst (f l)) = ld_config l" and "\<And>l. ld_config (fst (g l)) = ld_config l"
  shows "ld_config (fst (then_step f g l)) = ld_config l"
  using assms(1) [of l] assms(2) [of "fst (f l)"] by (cases "f l") (simp add: then_step_def split: option.split)

lemma attach_variants_keeps_config [simp]: "ld_config (fst (attach_variants lb vs l)) = ld_config l"
proof (induction vs arbitrary: l)
  case (Cons v vs)
  then show ?case
    by (auto intro!: then_step_keeps_config simp del: fst_conv)
qed simp


section \<open>A command line the loader accepts\<close>



















section \<open>A host that can serve a session\<close>












section \<open>The ways out\<close>











end
