(* ===== verification/BackendEquivalence.thy ===== *)
theory BackendEquivalence
  imports SidecarProtocol BccContract
begin

text \<open>
  The two detector backends side by side: a session of the Core backend that loses nothing, and the
  polling thread of the BCC backend on the perf buffer its probes fill. For the same target both
  call back with the same events, in the same order.
\<close>

section \<open>A Core session that loses nothing\<close>

lemma session_delivers:
  assumes "build_command fs sidecar (reset_session d) = (d1, Inr command)" and "target_representable d1"
    and "getopt_ok getopt" and "serviceable env lb (target_config d1) sidecar"
    and "list_all (\<lambda>p. \<not> snd p) polls" and "harmless cb"
    and "sorted (map snd (target_times (params_of (target_config d1)) hits))"
    and "c_samples (poll_records polls) = submitted (run_core (target_config d1) hits)"
    and "sidecar_main getopt env lb polls command = (out, status)"
    and "read_lines cb (map (line_of ft) out) d1 = (d', x)"
  shows "cd_delivered d' = cd_delivered d @ map (event_of_times d1)
    (filter (\<lambda>ph. expected_threshold_ns d1 < int (snd ph) - int (fst ph)) (target_phases d1 hits))"
  using session_stream [OF assms(1-6), of ft] submitted_events [OF assms(2,7)] build_command_fields [OF assms(1)] assms(8-10)
  by auto

text \<open>The same as one statement about detectors: \<open>d\<close> before, \<open>d1\<close> with the identities of the target,
  \<open>d'\<close> when everything the loader printed for the hits has been read.\<close>

definition lossless_run ::
  "procfs \<Rightarrow> core_detector \<Rightarrow> core_detector \<Rightarrow> (probe \<times> hit_context) list \<Rightarrow> core_detector \<Rightarrow> bool" where
  "lossless_run fs d d1 hits d' \<longleftrightarrow>
     (\<exists>sidecar command getopt env lb polls cb ft out status x.
        build_command fs sidecar (reset_session d) = (d1, Inr command) \<and> target_representable d1 \<and>
        getopt_ok getopt \<and> serviceable env lb (target_config d1) sidecar \<and>
        list_all (\<lambda>p. \<not> snd p) polls \<and> harmless cb \<and>
        sorted (map snd (target_times (params_of (target_config d1)) hits)) \<and>
        c_samples (poll_records polls) = submitted (run_core (target_config d1) hits) \<and>
        sidecar_main getopt env lb polls command = (out, status) \<and>
        read_lines cb (map (line_of ft) out) d1 = (d', x))"

definition long_phases :: "core_detector \<Rightarrow> (probe \<times> hit_context) list \<Rightarrow> (nat \<times> nat) list" where
  "long_phases d hits = filter (\<lambda>ph. expected_threshold_ns d < int (snd ph) - int (fst ph)) (target_phases d hits)"

lemma lossless_runI:
  assumes "build_command fs sidecar (reset_session d) = (d1, Inr command)" and "target_representable d1"
    and "getopt_ok getopt" and "serviceable env lb (target_config d1) sidecar"
    and "list_all (\<lambda>p. \<not> snd p) polls" and "harmless cb"
    and "sorted (map snd (target_times (params_of (target_config d1)) hits))"
    and "c_samples (poll_records polls) = submitted (run_core (target_config d1) hits)"
    and "sidecar_main getopt env lb polls command = (out, status)"
    and "read_lines cb (map (line_of ft) out) d1 = (d', x)"
  shows "lossless_run fs d d1 hits d'"
  unfolding lossless_run_def
  using assms by (elim conjE | intro exI conjI | assumption)+

lemma lossless_delivers:
  "lossless_run fs d d1 hits d' \<Longrightarrow> cd_delivered d' = cd_delivered d @ map (event_of_times d1) (long_phases d1 hits)"
  unfolding lossless_run_def long_phases_def by (elim exE conjE) (rule session_delivers)

section \<open>The BCC probes of a target\<close>

text \<open>The constants \<open>BccDetector._start\<close> has substituted into the program text, as the probes read them.\<close>

definition probe_constants :: "rat \<Rightarrow> int \<Rightarrow> int \<Rightarrow> (int \<times> int) option \<Rightarrow> probe_params" where
  "probe_constants threshold_ms target_tgid target_tid pidns_info =
     \<lparr>pp_use_ns_pid = (pidns_info \<noteq> None), pp_target_tgid = of_int target_tgid, pp_target_tid = of_int target_tid,
      pp_threshold_ns = of_int (threshold_ns threshold_ms)\<rparr>"

definition bcc_params :: "procfs \<Rightarrow> detector_config \<Rightarrow> probe_params result" where
  "bcc_params fs config =
     bind_result (resolve_target_ns_tgid fs (cfg_pid config)) (\<lambda>target_tgid.
     bind_result (case cfg_tid config of None \<Rightarrow> Inl AssertionError
                  | Some tid \<Rightarrow> resolve_target_ns_tid fs tid) (\<lambda>target_tid.
       Inr (probe_constants (cfg_threshold_ms config) target_tgid target_tid
              (get_pidns_info fs (Some (cfg_pid config))))))"

text \<open>They are the numbers the program text carries.\<close>

lemma bcc_program_params:
  assumes "bcc_program env config = Inr source"
  shows "\<exists>raw calls tgid tid.
    source = build_bpf_source raw (cfg_threshold_ms config) tgid tid calls
      (get_pidns_info (bn_procfs env) (Some (cfg_pid config))) \<and>
    bcc_params (bn_procfs env) config =
      Inr (probe_constants (cfg_threshold_ms config) tgid tid (get_pidns_info (bn_procfs env) (Some (cfg_pid config))))"
proof -
  obtain raw calls tgid tid t where ok: "bn_read_source env = Inr raw" "detect_epoll_syscalls (bn_isdir env) = Inr calls"
    "resolve_target_ns_tgid (bn_procfs env) (cfg_pid config) = Inr tgid"
    "cfg_tid config = Some t" "resolve_target_ns_tid (bn_procfs env) t = Inr tid"
    "source = build_bpf_source raw (cfg_threshold_ms config) tgid tid calls
      (get_pidns_info (bn_procfs env) (Some (cfg_pid config)))"
    using assms unfolding bcc_program_def bind_result_Inr_iff
    by (elim exE conjE) (simp split: option.splits)
  show ?thesis
    by (intro exI [of _ raw] exI [of _ calls] exI [of _ tgid] exI [of _ tid] conjI ok(6)) (simp add: bcc_params_def ok(3-5))
qed

text \<open>A submitted event in the perf buffer, as \<open>ctypes\<close> reads its fields.\<close>

definition raw_of_bpf :: "bpf_event \<Rightarrow> raw_event" where
  "raw_of_bpf e = \<lparr>rw_start_ns = unat (be_start_ns e), rw_end_ns = unat (be_end_ns e),
     rw_pid = unat (be_pid e), rw_tid = unat (be_tid e)\<rparr>"

lemma event_of_raw_of_bpf: "event_of_raw (raw_of_bpf e) = event_of_bpf e"
  by (simp add: event_of_raw_def raw_of_bpf_def event_of_bpf_def)

section \<open>The same target\<close>

lemma first_nspid_innermost:
  assumes "list_all (\<lambda>l. \<not> startswith l ''NSpid:'') before" and "pids \<noteq> []"
    and "list_all (\<lambda>p. \<bar>p\<bar> < 10 ^ max_str_digits) pids"
  shows "first_nspid (before @ nspid_line pids # after) = Inr (Some (last pids))"
proof -
  have "first_nspid (before @ nspid_line pids # after) = first_nspid (nspid_line pids # after)"
    using assms(1) by (induction before) simp_all
  moreover have "py_int 10 (str_of_int (last pids)) = Some (last pids)"
    using assms(2,3) by (intro py_int_roundtrip) (simp add: list_all_iff)
  moreover have "last (split_ws (nspid_line pids)) = str_of_int (last pids)" "2 \<le> length (split_ws (nspid_line pids))"
    using assms(2) by (cases pids; simp add: split_ws_nspid_line last_map)+
  ultimately show ?thesis
    by (simp add: Let_def)
qed

lemma both_resolve:
  assumes "fs_lines fs (status_path pid) = Some lines" and "lists_ids lines ids"
  shows "resolve_namespace_pid fs pid = Inr (last ids)" and "resolve_target_ns_tgid fs pid = Inr (last ids)"
  using resolve_lists_ids [OF assms] assms
  by (auto elim!: lists_idsE simp: resolve_target_ns_tgid_def first_nspid_innermost)

text \<open>The kernel lists the ids of every task, outermost namespace first, on the one \<open>NSpid\<close> line of its status
  file.\<close>

definition kernel_lists :: "procfs \<Rightarrow> (int \<Rightarrow> int list) \<Rightarrow> bool" where
  "kernel_lists fs ids \<longleftrightarrow> (\<forall>task lines. fs_lines fs (status_path task) = Some lines \<longrightarrow> lists_ids lines (ids task))"

text \<open>For a target the Core backend accepts, the constants of the BCC probes are those of the Core programs.\<close>

lemma build_command_target:
  assumes "build_command fs sidecar d = (d1, Inr command)"
  shows "\<exists>tid dev ino lines. cfg_tid (cd_config d) = Some tid \<and> fs_lines fs (status_path tid) = Some lines \<and>
    fs_stat fs (pid_ns_path (cfg_pid (cd_config d))) = Some (dev, ino) \<and>
    cd_pidns_dev d1 = Some dev \<and> cd_pidns_ino d1 = Some ino \<and>
    resolve_namespace_pid fs (cfg_pid (cd_config d)) = Inr (cd_expected_pid d1) \<and>
    (\<exists>t. cd_expected_tid d1 = Some t \<and> resolve_namespace_pid fs tid = Inr t)"
  using assms
  by (auto simp: build_command_def pid_namespace_def validate_target_tid_def Let_def split: option.splits sum.splits)

lemma resolve_readable:
  "resolve_namespace_pid fs pid = Inr p \<Longrightarrow> \<exists>lines. fs_lines fs (status_path pid) = Some lines"
  by (cases "fs_lines fs (status_path pid)") (simp_all add: resolve_namespace_pid_def)

lemma same_params:
  assumes build: "build_command fs sidecar (reset_session d) = (d1, Inr command)"
    and ids: "kernel_lists fs ids"
  shows "bcc_params fs (cd_config d) = Inr (params_of (target_config d1))"
    and "get_pidns_info fs (Some (cfg_pid (cd_config d))) = Some (the (cd_pidns_dev d1), the (cd_pidns_ino d1))"
proof -
  have agree: "resolve_target_ns_tgid fs task = Inr p" if "resolve_namespace_pid fs task = Inr p" for task p
    using resolve_readable [OF that] both_resolve that ids unfolding kernel_lists_def by fastforce
  have cfg: "cd_config d1 = cd_config d"
    using build_command_fields [OF build] by simp
  obtain tid dev ino t where target: "cfg_tid (cd_config d) = Some tid"
    "fs_stat fs (pid_ns_path (cfg_pid (cd_config d))) = Some (dev, ino)"
    "cd_pidns_dev d1 = Some dev" "cd_pidns_ino d1 = Some ino" "cd_expected_tid d1 = Some t"
    "resolve_namespace_pid fs (cfg_pid (cd_config d)) = Inr (cd_expected_pid d1)"
    "resolve_namespace_pid fs tid = Inr t"
    using build_command_target [OF build] by auto
  show ns: "get_pidns_info fs (Some (cfg_pid (cd_config d))) = Some (the (cd_pidns_dev d1), the (cd_pidns_ino d1))"
    by (simp add: get_pidns_info_def target)
  have "threshold_ns (cfg_threshold_ms (cd_config d)) = expected_threshold_ns d1"
    by (simp add: threshold_ns_def expected_threshold_ns_def cfg)
  then show "bcc_params fs (cd_config d) = Inr (params_of (target_config d1))"
    unfolding bcc_params_def ns
    by (simp add: target(1,5) agree [OF target(6)] agree [OF target(7)] resolve_target_ns_tid_def
        probe_constants_def params_of_def target_config_def config_of_def)
qed

text \<open>One phase of 200 ms and a threshold of 100 ms.\<close>

lemma example_session:
  "target_representable example_core" "getopt_ok plain_getopt"
  "serviceable ready_env ready_libbpf (target_config example_core) ''blocksnoop-ebpf''"
  "list_all (\<lambda>p. \<not> snd p) example_polls" "harmless silent_callbacks"
  "sorted (map snd (target_times (params_of (target_config example_core)) slow_hits))"
  "c_samples (poll_records example_polls) = submitted (run_core (target_config example_core) slow_hits)"
  by (simp_all add: target_representable_def representable_def example_threshold plain_getopt_ok ready_serviceable
      harmless_def silent_callbacks_def swallowed_def example_polls_def slow_times poll_records_def c_samples_map)

lemma example_long:
  "filter (\<lambda>ph. expected_threshold_ns example_core < int (snd ph) - int (fst ph)) (target_phases example_core slow_hits) =
     [(10, 200000010)]"
  by (simp add: target_phases_def slow_times example_threshold)

lemma example_run_delivers:
  obtains command out status d' x where
    "build_command example_fs ''blocksnoop-ebpf'' (reset_session idle_core) = (example_core, Inr command)"
    "sidecar_main plain_getopt ready_env ready_libbpf example_polls command = (out, status)"
    "read_lines silent_callbacks (map (line_of no_floats) out) example_core = (d', x)"
    "cd_delivered d' = [event_of_times example_core (10, 200000010)]"
proof -
  obtain command where b: "build_command example_fs ''blocksnoop-ebpf'' (reset_session idle_core) = (example_core, Inr command)"
    using example_build by blast
  obtain out status where out: "sidecar_main plain_getopt ready_env ready_libbpf example_polls command = (out, status)"
    by force
  obtain d' x where d': "read_lines silent_callbacks (map (line_of no_floats) out) example_core = (d', x)"
    by force
  have "cd_delivered d' = [event_of_times example_core (10, 200000010)]"
    using session_delivers [OF b example_session out d'] unfolding example_long
    by (simp add: idle_core_def CoreDetector_def)
  from that [OF b out d' this] show ?thesis .
qed

lemma idle_core_delivered [simp]: "cd_delivered idle_core = []"
  by (simp add: idle_core_def CoreDetector_def)

lemma example_lossless:
  obtains d' where "lossless_run example_fs idle_core example_core slow_hits d'"
proof -
  obtain command out status d' x where
    "build_command example_fs ''blocksnoop-ebpf'' (reset_session idle_core) = (example_core, Inr command)"
    "sidecar_main plain_getopt ready_env ready_libbpf example_polls command = (out, status)"
    "read_lines silent_callbacks (map (line_of no_floats) out) example_core = (d', x)"
    by (rule example_run_delivers)
  with that lossless_runI example_session show ?thesis
    by blast
qed

section \<open>Both backends deliver the same events\<close>

text \<open>C8: Whichever backend is selected, the user is told the same. On a system where the kernel lists the
  ids of every task on one \<open>NSpid\<close> line, for a target the Core backend accepts and a session of it
  that loses nothing: the BCC backend resolves the same process, thread, threshold and namespace, and
  when its perf buffer loses nothing of the same tracepoint hits either, its polling thread calls
  back with the same events in the same order, those of the phases longer than the threshold.\<close>

theorem backends_deliver_alike:
  assumes "lossless_run fs d d1 hits d'"
    and "kernel_lists fs ids"
  shows "\<exists>p. bcc_params fs (cd_config d) = Inr p \<and>
    get_pidns_info fs (Some (cfg_pid (cd_config d))) = Some (the (cd_pidns_dev d1), the (cd_pidns_ino d1)) \<and>
    cd_delivered d' = cd_delivered d @ map (event_of_times d1) (long_phases d1 hits) \<and>
    (\<forall>ps cb b. \<not> bd_stop_event b \<and> samples_of (polled False ps) = map raw_of_bpf (submitted (run_probes p hits)) \<longrightarrow>
      bd_delivered (poll_loop cb ps b) = bd_delivered b @ map (event_of_times d1) (long_phases d1 hits))"
proof -
  obtain sidecar command where build: "build_command fs sidecar (reset_session d) = (d1, Inr command)"
    and times: "target_representable d1" "sorted (map snd (target_times (params_of (target_config d1)) hits))"
    using assms(1) unfolding lossless_run_def by blast
  let ?p = "params_of (target_config d1)"
  have "map event_of_raw (map raw_of_bpf (submitted (run_probes ?p hits))) = map (event_of_times d1) (long_phases d1 hits)"
    using submitted_events(2) [OF times] by (simp add: comp_def event_of_raw_of_bpf run_core_eq long_phases_def)
  then have "bd_delivered (poll_loop cb ps b) = bd_delivered b @ map (event_of_times d1) (long_phases d1 hits)"
    if "\<not> bd_stop_event b" "samples_of (polled False ps) = map raw_of_bpf (submitted (run_probes ?p hits))" for ps cb b
    using poll_loop_run [of cb ps b] that by simp
  then show ?thesis
    using same_params [OF build assms(2)] lossless_delivers [OF assms(1)]
    by (intro exI [of _ ?p] conjI allI impI) simp_all
qed

lemma example_fs_lists: "kernel_lists example_fs (\<lambda>_. [7])"
proof -
  have "(7 :: int) \<le> 10 ^ 1" "(10 :: int) ^ 1 < 10 ^ max_str_digits"
    by (simp, rule power_strict_increasing) (simp_all add: max_str_digits_def)
  then have "\<bar>7 :: int\<bar> < 10 ^ max_str_digits"
    by linarith
  then show ?thesis
    by (simp add: kernel_lists_def example_fs_def lists_ids_def tgid_line_not_nspid split: if_splits)
qed

lemma backends_deliver_alike_witness:
  "\<exists>(d' :: core_detector) p. cd_delivered d' = [event_of_times example_core (10, 200000010)] \<and> bcc_params example_fs (cd_config idle_core) = Inr p \<and>
    bd_delivered (poll_loop False [\<lparr>pl_records = map (Sample \<circ> raw_of_bpf) (submitted (run_probes p slow_hits)),
        pl_stop = True, pl_raises = None\<rparr>] idle_bcc) = [event_of_times example_core (10, 200000010)]"
proof -
  obtain d' where run: "lossless_run example_fs idle_core example_core slow_hits d'"
    by (rule example_lossless)
  have phases: "long_phases example_core slow_hits = [(10, 200000010)]"
    unfolding long_phases_def by (rule example_long)
  have "samples_of (map (Sample \<circ> raw_of_bpf) es) = map raw_of_bpf es" for es
    by (induction es) (simp_all add: samples_of_def map_filter_simps)
  then have perf: "samples_of (polled False [\<lparr>pl_records = map (Sample \<circ> raw_of_bpf) es, pl_stop = True, pl_raises = None\<rparr>]) =
      map raw_of_bpf es" for es
    by simp
  have idle: "\<not> bd_stop_event idle_bcc" "bd_delivered idle_bcc = []"
    by (simp_all add: idle_bcc_def BccDetector_def)
  obtain p where p: "bcc_params example_fs (cd_config idle_core) = Inr p" "cd_delivered d' = [event_of_times example_core (10, 200000010)]"
    and bcc: "\<And>ps cb b. \<lbrakk>\<not> bd_stop_event b; samples_of (polled False ps) = map raw_of_bpf (submitted (run_probes p slow_hits))\<rbrakk> \<Longrightarrow>
      bd_delivered (poll_loop cb ps b) = bd_delivered b @ [event_of_times example_core (10, 200000010)]"
    using backends_deliver_alike [OF run example_fs_lists] unfolding phases by auto
  show ?thesis
    using p bcc [OF idle(1) perf, of False] by (intro exI [of _ d'] exI [of _ p]) (simp only: idle(2) append.simps simp_thms)
qed

end
