(* ===== verification/Pipeline.thy ===== *)
theory Pipeline
  imports Correlator Reporter Sampler
begin

text \<open>
  The pipeline \<open>_run_normal\<close> of \<open>blocksnoop/cli.py\<close> wires together, with its two threads: the sampling
  thread pushes stacks into the ring buffer (\<open>LoopspyAustin.on_sample\<close>), and the thread of the
  detector hands each event to \<open>Correlator.on_event\<close>, which reads the clock, then queries the buffer
  and calls \<open>Reporter.report\<close>. The buffer's operations hold its lock, so they are single steps; the
  clock reading and the query are two, and the sampling thread may run between them. The detector
  logs and swallows what its callback raises.
\<close>

section \<open>The two threads\<close>

datatype detector_thread =
    Waiting
  | Correlating int blocking_event
  | Reporting int blocking_event blocking_event

text \<open>The last three fields are history: the samples and the events that arrived so far, and the reported
  events, each with the clock reading and the event it stems from.\<close>

record pipeline =
  pl_sampling :: sampling
  pl_thread :: detector_thread
  pl_reporter :: reporter
  pl_samples :: "(int \<times> austin_sample) list"
  pl_arrived :: "blocking_event list"
  pl_reported :: "(int \<times> blocking_event \<times> blocking_event) list"

definition pipeline_start :: "int \<Rightarrow> bool \<Rightarrow> nat \<Rightarrow> reporter \<Rightarrow> pipeline" where
  "pipeline_start tid grp n r =
     \<lparr>pl_sampling = (LoopspyAustin tid grp, StackRingBuffer n), pl_thread = Waiting, pl_reporter = r,
      pl_samples = [], pl_arrived = [], pl_reported = []\<rparr>"

text \<open>Time stamps of one thread do not decrease; nothing relates the clock readings of the two.\<close>

inductive pipeline_step :: "getline \<Rightarrow> int \<Rightarrow> pipeline \<Rightarrow> pipeline \<Rightarrow> bool"
  for getline :: getline and pad :: int where
  sample: "\<lbrakk>\<forall>s \<in> set (pl_samples p). fst s \<le> now; on_sample now s (pl_sampling p) = Inr st\<rbrakk> \<Longrightarrow>
    pipeline_step getline pad p (p\<lparr>pl_sampling := st, pl_samples := pl_samples p @ [(now, s)]\<rparr>)"
| sample_raises: "\<lbrakk>\<forall>s \<in> set (pl_samples p). fst s \<le> now; on_sample now s (pl_sampling p) = Inl x\<rbrakk> \<Longrightarrow>
    pipeline_step getline pad p (p\<lparr>pl_samples := pl_samples p @ [(now, s)]\<rparr>)"
| arrive: "\<lbrakk>pl_thread p = Waiting;
     ev = \<lparr>start_ns = a, end_ns = b, ev_pid = pid, ev_tid = tid, python_stacks = []\<rparr>\<rbrakk> \<Longrightarrow>
    pipeline_step getline pad p (p\<lparr>pl_thread := Correlating now ev, pl_arrived := pl_arrived p @ [ev]\<rparr>)"
| correlate: "\<lbrakk>pl_thread p = Correlating now ev; on_event (snd (pl_sampling p)) pad now ev = Inr ev'\<rbrakk> \<Longrightarrow>
    pipeline_step getline pad p (p\<lparr>pl_thread := Reporting now ev ev'\<rparr>)"
| correlate_raises: "\<lbrakk>pl_thread p = Correlating now ev; on_event (snd (pl_sampling p)) pad now ev = Inl x\<rbrakk> \<Longrightarrow>
    pipeline_step getline pad p (p\<lparr>pl_thread := Waiting\<rparr>)"
| report: "\<lbrakk>pl_thread p = Reporting now ev ev'; report getline clk ev' (pl_reporter p) = (r, x)\<rbrakk> \<Longrightarrow>
    pipeline_step getline pad p
      (p\<lparr>pl_thread := Waiting, pl_reporter := r, pl_reported := pl_reported p @ [(now, ev, ev')]\<rparr>)"

inductive pipeline_reachable :: "getline \<Rightarrow> int \<Rightarrow> pipeline \<Rightarrow> pipeline \<Rightarrow> bool"
  for getline :: getline and pad :: int and p0 :: pipeline where
  start: "pipeline_reachable getline pad p0 p0"
| step: "\<lbrakk>pipeline_reachable getline pad p0 p; pipeline_step getline pad p p'\<rbrakk> \<Longrightarrow> pipeline_reachable getline pad p0 p'"

section \<open>The invariant\<close>

definition in_progress :: "detector_thread \<Rightarrow> blocking_event list" where
  "in_progress t = (case t of Waiting \<Rightarrow> [] | Correlating now ev \<Rightarrow> [ev] | Reporting now ev ev' \<Rightarrow> [ev])"

text \<open>What every stack of an enriched event is.\<close>

definition evidence :: "int \<Rightarrow> int \<Rightarrow> (int \<times> austin_sample) list \<Rightarrow> int \<times> blocking_event \<times> blocking_event \<Rightarrow> bool" where
  "evidence tid pad ss rep =
     (case rep of (now, ev, ev') \<Rightarrow>
        start_ns ev' = start_ns ev \<and> end_ns ev' = end_ns ev \<and> ev_pid ev' = ev_pid ev \<and> ev_tid ev' = ev_tid ev \<and>
        distinct (map call_site (python_stacks ev')) \<and>
        list_all (\<lambda>st. frames st \<noteq> [] \<and> list_ex (\<lambda>e. snd e = st \<and>
            fst (search_window pad now ev) \<le> fst e \<and> fst e \<le> snd (search_window pad now ev)) (accepted tid ss))
          (python_stacks ev'))"

definition sampling_inv :: "int \<Rightarrow> bool \<Rightarrow> nat \<Rightarrow> pipeline \<Rightarrow> bool" where
  "sampling_inv tid grp n p \<longleftrightarrow>
     sorted (map fst (pl_samples p)) \<and>
     on_samples (pl_samples p) (LoopspyAustin tid grp, StackRingBuffer n) = Inr (pl_sampling p)"

definition thread_inv :: "int \<Rightarrow> int \<Rightarrow> pipeline \<Rightarrow> bool" where
  "thread_inv tid pad p \<longleftrightarrow>
     (case pl_thread p of
        Waiting \<Rightarrow> True
      | Correlating now ev \<Rightarrow> python_stacks ev = []
      | Reporting now ev ev' \<Rightarrow> evidence tid pad (pl_samples p) (now, ev, ev'))"

definition report_inv :: "int \<Rightarrow> int \<Rightarrow> reporter \<Rightarrow> pipeline \<Rightarrow> bool" where
  "report_inv tid pad r0 p \<longleftrightarrow>
     pl_arrived p = map (fst \<circ> snd) (pl_reported p) @ in_progress (pl_thread p) \<and>
     list_all (evidence tid pad (pl_samples p)) (pl_reported p) \<and>
     (\<exists>ss. pl_reporter p = (after_events (map (snd \<circ> snd) (pl_reported p)) r0)\<lparr>rp_sinks := ss\<rparr>)"

definition pipeline_inv :: "int \<Rightarrow> bool \<Rightarrow> nat \<Rightarrow> int \<Rightarrow> reporter \<Rightarrow> pipeline \<Rightarrow> bool" where
  "pipeline_inv tid grp n pad r0 p \<longleftrightarrow>
     sampling_inv tid grp n p \<and> thread_inv tid pad p \<and> report_inv tid pad r0 p"

lemmas inv_defs = pipeline_inv_def sampling_inv_def thread_inv_def report_inv_def

section \<open>Its preservation\<close>

lemma on_samples_snoc: "on_samples (ss @ [(now, s)]) st = bind_result (on_samples ss st) (on_sample now s)"
  by (induction ss arbitrary: st) (auto simp: bind_result_def split: sum.splits)

lemma sampled_ring:
  assumes "0 < n" and "sampling_inv tid grp n p"
  shows "ring_sorted (snd (pl_sampling p)) \<and>
    ring_entries (snd (pl_sampling p)) =
      drop (length (accepted tid (pl_samples p)) - n) (accepted tid (pl_samples p))"
proof -
  let ?acc = "accepted tid (pl_samples p)"
  obtain rb where rb: "push_all ?acc (StackRingBuffer n) = Inr rb"
    using push_all_new [OF assms(1), of ?acc] by blast
  have "sorted (map fst ?acc)"
    using assms(2) by (simp add: sampling_inv_def sorted_accepted)
  then have "ring_sorted rb \<and> ring_entries rb = drop (length ?acc - n) ?acc"
    using push_all_sorted [OF assms(1) _ rb] by blast
  moreover have "snd (pl_sampling p) = rb"
    using assms(2) rb by (cases "pl_sampling p") (simp add: sampling_inv_def on_samples_run LoopspyAustin_def)
  ultimately show ?thesis
    by simp
qed

lemma sampling_total:
  assumes "0 < n" and "sampling_inv tid grp n p"
  shows "\<exists>st. on_sample now s (pl_sampling p) = Inr st"
proof -
  let ?ss = "pl_samples p @ [(now, s)]"
  obtain rb where "push_all (accepted tid ?ss) (StackRingBuffer n) = Inr rb"
    using push_all_new [OF assms(1), of "accepted tid ?ss"] by blast
  then obtain st where "on_samples ?ss (LoopspyAustin tid grp, StackRingBuffer n) = Inr st"
    by (auto simp: on_samples_run LoopspyAustin_def)
  then show ?thesis
    using assms(2) by (simp add: sampling_inv_def on_samples_snoc)
qed

lemma accepted_append: "accepted tid (ss @ ts) = accepted tid ss @ accepted tid ts"
  by (simp add: accepted_def map_filter_def)

lemma evidence_later: "evidence tid pad ss rep \<Longrightarrow> evidence tid pad (ss @ ts) rep"
  by (auto simp: evidence_def accepted_append list_all_iff list_ex_iff split: prod.splits)

lemma correlated:
  assumes "0 < n" and "sampling_inv tid grp n p" and "python_stacks ev = []"
  shows "\<exists>ev'. on_event (snd (pl_sampling p)) pad now ev = Inr ev' \<and> evidence tid pad (pl_samples p) (now, ev, ev')"
proof -
  let ?w = "search_window pad now ev" and ?rb = "snd (pl_sampling p)"
  let ?enr = "enrichment (window_samples (ring_entries ?rb) ?w)"
  have ring: "ring_sorted ?rb" "ring_entries ?rb = drop (length (accepted tid (pl_samples p)) - n) (accepted tid (pl_samples p))"
    using sampled_ring [OF assms(1,2)] by blast+
  define ev' where "ev' = (if ?enr = [] then ev else ev\<lparr>python_stacks := ?enr\<rparr>)"
  have run: "on_event ?rb pad now ev = Inr ev'"
    using ring_traces.correlate_ok [OF ring(1), of pad now ev] by (simp add: on_event_def ev'_def)
  have "frames st \<noteq> [] \<and> (\<exists>t. (t, st) \<in> set (accepted tid (pl_samples p)) \<and> fst ?w \<le> t \<and> t \<le> snd ?w)"
    if "st \<in> set (python_stacks ev')" for st
    using ring_traces.correlate_sound [OF ring(1) assms(3) run [unfolded on_event_def] that] ring(2)
    by (auto dest: in_set_dropD)
  moreover have "distinct (map call_site (python_stacks ev'))"
    using enrichment_distinct assms(3) by (simp add: ev'_def)
  moreover have "start_ns ev' = start_ns ev" "end_ns ev' = end_ns ev" "ev_pid ev' = ev_pid ev" "ev_tid ev' = ev_tid ev"
    by (simp_all add: ev'_def)
  ultimately show ?thesis
    using run by (intro exI [of _ ev']) (force simp: evidence_def list_all_iff list_ex_iff)
qed

lemma evidence_signature:
  assumes "evidence tid pad ss (now, ev, ev')"
  shows "signature_ok_event ev'"
  using assms by (cases "python_stacks ev'") (auto simp: evidence_def signature_ok_event_def)

lemma report_of_enriched:
  assumes "evidence tid pad ss (now, ev, ev')"
  shows "\<exists>ss'. report getline clk ev' ((after_events es r0)\<lparr>rp_sinks := sinks\<rparr>) =
    ((after_events (es @ [ev']) r0)\<lparr>rp_sinks := ss'\<rparr>, None)"
proof -
  have "event_signature ev' = Inr (fst (sample_of ev'))"
    using evidence_signature [OF assms] by (rule event_signature_sample)
  from report_ok [OF this, of getline clk "(after_events es r0)\<lparr>rp_sinks := sinks\<rparr>"] show ?thesis
    by (auto simp: after_events_def aggregated_def add_duration_def count_event_def)
qed

lemma pipeline_inv_start: "pipeline_inv tid grp n pad r0 (pipeline_start tid grp n r0)"
  by (auto simp: inv_defs pipeline_start_def in_progress_def after_events_def intro: exI [of _ "rp_sinks r0"])

lemma pipeline_inv_step:
  assumes "pipeline_step getline pad p p'" and "0 < n" and inv: "pipeline_inv tid grp n pad r0 p"
  shows "pipeline_inv tid grp n pad r0 p'"
  using assms(1)
proof (cases rule: pipeline_step.cases)
  case (sample now s st)
  then have "sampling_inv tid grp n p'"
    using inv by (auto simp: inv_defs on_samples_snoc sorted_append)
  moreover have "thread_inv tid pad p'" "report_inv tid pad r0 p'"
    using inv sample by (auto simp: inv_defs list_all_iff intro: evidence_later split: detector_thread.splits)
  ultimately show ?thesis
    by (simp add: pipeline_inv_def)
next
  case (sample_raises now s x)
  then show ?thesis
    using sampling_total [OF assms(2), of tid grp p now s] inv by (auto simp: pipeline_inv_def)
next
  case (arrive ev a b pid tid' now)
  then show ?thesis
    using inv by (auto simp: inv_defs in_progress_def)
next
  case (correlate now ev ev')
  then have "evidence tid pad (pl_samples p) (now, ev, ev')"
    using correlated [OF assms(2), of tid grp p ev pad now] inv by (auto simp: inv_defs)
  with correlate inv show ?thesis
    by (auto simp: inv_defs in_progress_def)
next
  case (correlate_raises now ev x)
  then show ?thesis
    using correlated [OF assms(2), of tid grp p ev pad now] inv by (auto simp: inv_defs)
next
  case (report now ev ev' clk r x)
  have ev': "evidence tid pad (pl_samples p) (now, ev, ev')"
    using inv report by (auto simp: inv_defs)
  obtain sinks where "pl_reporter p = (after_events (map (snd \<circ> snd) (pl_reported p)) r0)\<lparr>rp_sinks := sinks\<rparr>"
    using inv by (auto simp: inv_defs)
  moreover obtain ss' where "report getline clk ev' ((after_events (map (snd \<circ> snd) (pl_reported p)) r0)\<lparr>rp_sinks := sinks\<rparr>) =
      ((after_events (map (snd \<circ> snd) (pl_reported p) @ [ev']) r0)\<lparr>rp_sinks := ss'\<rparr>, None)"
    using report_of_enriched [OF ev'] by blast
  ultimately have "r = (after_events (map (snd \<circ> snd) (pl_reported p) @ [ev']) r0)\<lparr>rp_sinks := ss'\<rparr>"
    using report by simp
  then show ?thesis
    using inv report ev' by (auto simp: inv_defs in_progress_def)
qed

lemma reachable_inv:
  assumes "pipeline_reachable getline pad (pipeline_start tid grp n r0) p" and "0 < n"
  shows "pipeline_inv tid grp n pad r0 p"
  using assms by (induction rule: pipeline_reachable.induct) (auto intro: pipeline_inv_start pipeline_inv_step)

section \<open>Properties\<close>

text \<open>C5: However the two threads interleave, no event is lost and none is reported twice: the events that
  arrived are the reported ones, in order, and the one the detector is working on. Nothing raises on
  the way, and the totals of the reporter are those of the reported events: their number, the number
  at or above the error threshold, and the longest duration.\<close>

theorem pipeline_loses_no_event:
  assumes "pipeline_reachable getline pad (pipeline_start tid grp n r0) p" and "0 < n"
    and "es = map (snd \<circ> snd) (pl_reported p)"
  shows "pl_arrived p = map (fst \<circ> snd) (pl_reported p) @ in_progress (pl_thread p) \<and>
    rp_event_count (pl_reporter p) = rp_event_count r0 + int (length es) \<and>
    rp_error_event_count (pl_reporter p) = rp_error_event_count r0 +
      int (length (filter (\<lambda>e. rp_error_threshold_ms r0 \<le> py_round 3 (duration_ms e)) es)) \<and>
    rp_max_blocked_ms (pl_reporter p) = foldl max (rp_max_blocked_ms r0) (map (\<lambda>e. py_round 3 (duration_ms e)) es)"
proof -
  have "report_inv tid pad r0 p"
    using reachable_inv [OF assms(1,2)] by (simp add: pipeline_inv_def)
  then show ?thesis
    by (auto simp: report_inv_def after_events_counters assms(3) filter_map comp_def event_ms_def)
qed

text \<open>C6: The evidence of a report is real, however the threads interleave: a reported event keeps the times
  and ids it arrived with, its stacks have distinct call sites, and each of them was sampled by Austin
  from the monitored thread at a time inside the search window of the event.\<close>

theorem pipeline_evidence_sound:
  assumes "pipeline_reachable getline pad (pipeline_start tid grp n r0) p" and "0 < n"
    and "(now, ev, ev') \<in> set (pl_reported p)"
  shows "start_ns ev' = start_ns ev \<and> end_ns ev' = end_ns ev \<and> ev_pid ev' = ev_pid ev \<and> ev_tid ev' = ev_tid ev \<and>
    distinct (map call_site (python_stacks ev')) \<and>
    (\<forall>st \<in> set (python_stacks ev'). \<exists>t s. (t, s) \<in> set (pl_samples p) \<and> sample_thread s = Some tid \<and>
       sm_frames s = Some (frames st) \<and> frames st \<noteq> [] \<and> thread_id st = tid \<and>
       fst (search_window pad now ev) \<le> t \<and> t \<le> now)"
proof -
  have "evidence tid pad (pl_samples p) (now, ev, ev')"
    using reachable_inv [OF assms(1,2)] assms(3) by (auto simp: pipeline_inv_def report_inv_def list_all_iff)
  moreover have "\<exists>s. (t, s) \<in> set ss \<and> sample_thread s = Some tid \<and> sm_frames s = Some (frames st) \<and> thread_id st = tid"
    if "(t, st) \<in> set (accepted tid ss)" for t st ss
    using that by (induction ss) (auto split: option.splits if_splits, blast+)
  ultimately show ?thesis
    by (fastforce simp: evidence_def list_all_iff list_ex_iff search_window_def)
qed

section \<open>A concrete run\<close>

definition short_event :: blocking_event where
  "short_event = \<lparr>start_ns = 0, end_ns = 100, ev_pid = 7, ev_tid = 7, python_stacks = []\<rparr>"

lemma example_sample_recorded:
  "\<exists>st. on_sample 850 (example_sample ''0x10'') (LoopspyAustin 16 False, StackRingBuffer 2) = Inr st"
  using sampling_total [of 2 16 False "pipeline_start 16 False 2 r" 850 "example_sample ''0x10''"]
  by (simp add: sampling_inv_def pipeline_start_def)

text \<open>The clock is read, then a sample arrives, then the buffer is queried.\<close>

lemma example_pipeline:
  "\<exists>p. pipeline_reachable getline 200 (pipeline_start 16 False 2 example_reporter) p \<and>
     pl_thread p = Correlating 900 short_event \<and> pl_reported p = [] \<and> pl_samples p = [(850, example_sample ''0x10'')]"
proof -
  let ?p0 = "pipeline_start 16 False 2 example_reporter"
  let ?p1 = "?p0\<lparr>pl_thread := Correlating 900 short_event, pl_arrived := [short_event]\<rparr>"
  have "pipeline_step getline 200 ?p0 ?p1"
    using pipeline_step.arrive [of ?p0 short_event] by (simp add: pipeline_start_def short_event_def)
  then have 1: "pipeline_reachable getline 200 ?p0 ?p1"
    by (rule pipeline_reachable.step [OF pipeline_reachable.start])
  obtain st where st: "on_sample 850 (example_sample ''0x10'') (pl_sampling ?p1) = Inr st"
    using example_sample_recorded by (auto simp: pipeline_start_def)
  have "pl_samples ?p1 = []"
    by (simp add: pipeline_start_def)
  then show ?thesis
    using pipeline_reachable.step [OF 1 pipeline_step.sample [OF _ st]]
    by (intro exI [of _ "?p1\<lparr>pl_sampling := st, pl_samples := [(850, example_sample ''0x10'')]\<rparr>"])
       (simp add: pipeline_start_def)
qed

lemma example_reported:
  "\<exists>p ev'. pipeline_reachable getline 200 (pipeline_start 16 False 2 example_reporter) p \<and>
     pl_reported p = [(900, short_event, ev')] \<and> pl_samples p = [(850, example_sample ''0x10'')]"
proof -
  obtain p where p: "pipeline_reachable getline 200 (pipeline_start 16 False 2 example_reporter) p"
    "pl_thread p = Correlating 900 short_event" "pl_reported p = []" "pl_samples p = [(850, example_sample ''0x10'')]"
    using example_pipeline by blast
  have "sampling_inv 16 False 2 p"
    using reachable_inv [OF p(1)] by (simp add: pipeline_inv_def)
  then obtain ev' where "on_event (snd (pl_sampling p)) 200 900 short_event = Inr ev'"
    using correlated [of 2 16 False p short_event 200 900] by (auto simp: short_event_def)
  note 1 = pipeline_reachable.step [OF p(1) pipeline_step.correlate [OF p(2) this]]
  have "pl_thread (p\<lparr>pl_thread := Reporting 900 short_event ev'\<rparr>) = Reporting 900 short_event ev'"
    by simp
  from pipeline_reachable.step [OF 1 pipeline_step.report [OF this surjective_pairing]] show ?thesis
    using p(3,4) by fastforce
qed

lemma pipeline_evidence_sound_witness:
  "\<exists>p ev'. pipeline_reachable (\<lambda>_ _. []) 200 (pipeline_start 16 False 2 example_reporter) p \<and>
     pl_reported p = [(900, short_event, ev')] \<and> end_ns ev' = 100 \<and>
     (\<forall>st \<in> set (python_stacks ev'). thread_id st = 16 \<and>
        Some (frames st) = sm_frames (example_sample ''0x10''))"
proof -
  obtain p ev' where p: "pipeline_reachable (\<lambda>_ _. []) 200 (pipeline_start 16 False 2 example_reporter) p"
    "pl_reported p = [(900, short_event, ev')]" "pl_samples p = [(850, example_sample ''0x10'')]"
    using example_reported by blast
  from pipeline_evidence_sound [OF p(1), of 900 short_event ev'] p(2,3) show ?thesis
    by (intro exI [of _ p] exI [of _ ev']) (auto simp: p(1) short_event_def)
qed

lemma pipeline_loses_no_event_witness:
  "\<exists>p. pipeline_reachable (\<lambda>_ _. []) 200 (pipeline_start 16 False 2 example_reporter) p \<and>
     pl_arrived p = [short_event] @ in_progress (pl_thread p) \<and> rp_event_count (pl_reporter p) = 1"
proof -
  obtain p ev' where p: "pipeline_reachable (\<lambda>_ _. []) 200 (pipeline_start 16 False 2 example_reporter) p"
    "pl_reported p = [(900, short_event, ev')]"
    using example_reported by blast
  from pipeline_loses_no_event [OF p(1) _ refl] p show ?thesis
    by (intro exI [of _ p]) (simp add: example_reporter_def Reporter_def)
qed

lemma detector_steps:
  assumes "pipeline_reachable getline pad (pipeline_start tid grp n r0) p" and "0 < n"
  shows "\<exists>p'. (p' = p \<or> pipeline_step getline pad p p' \<or>
      (\<exists>q. pipeline_step getline pad p q \<and> pipeline_step getline pad q p')) \<and>
    pl_thread p' = Waiting \<and> pl_arrived p' = pl_arrived p \<and> map (fst \<circ> snd) (pl_reported p') = pl_arrived p"
proof -
  have inv: "sampling_inv tid grp n p" "thread_inv tid pad p" and
    arrived: "pl_arrived p = map (fst \<circ> snd) (pl_reported p) @ in_progress (pl_thread p)"
    using reachable_inv [OF assms] by (simp_all add: pipeline_inv_def report_inv_def)
  have report: "\<exists>p'. pipeline_step getline pad q p' \<and> pl_thread p' = Waiting \<and> pl_arrived p' = pl_arrived q \<and>
      map (fst \<circ> snd) (pl_reported p') = map (fst \<circ> snd) (pl_reported q) @ [ev]"
    if "pl_thread q = Reporting now ev ev'" for q now ev ev'
    using pipeline_step.report [OF that surjective_pairing] by force
  show ?thesis
  proof (cases "pl_thread p")
    case Waiting
    then show ?thesis
      using arrived by (intro exI [of _ p]) (simp add: in_progress_def)
  next
    case (Correlating now ev)
    obtain ev' where "on_event (snd (pl_sampling p)) pad now ev = Inr ev'"
      using correlated [OF assms(2) inv(1), of ev pad now] inv(2) by (auto simp: thread_inv_def Correlating)
    then have "pipeline_step getline pad p (p\<lparr>pl_thread := Reporting now ev ev'\<rparr>)"
      by (rule pipeline_step.correlate [OF Correlating])
    moreover obtain p' where "pipeline_step getline pad (p\<lparr>pl_thread := Reporting now ev ev'\<rparr>) p'"
      "pl_thread p' = Waiting" "pl_arrived p' = pl_arrived p"
      "map (fst \<circ> snd) (pl_reported p') = map (fst \<circ> snd) (pl_reported p) @ [ev]"
      using report [of "p\<lparr>pl_thread := Reporting now ev ev'\<rparr>"] by auto
    ultimately show ?thesis
      using arrived by (intro exI [of _ p']) (auto simp: in_progress_def Correlating)
  next
    case (Reporting now ev ev')
    with report [OF this] show ?thesis
      using arrived by (auto simp: in_progress_def)
  qed
qed

text \<open>Any list of events can arrive and be worked off.\<close>

lemma deliverable:
  assumes "0 < n" and "list_all (\<lambda>ev. python_stacks ev = []) evs"
  shows "\<exists>p. pipeline_reachable getline pad (pipeline_start tid grp n r0) p \<and> pl_arrived p = evs \<and> pl_thread p = Waiting"
  using assms(2)
proof (induction evs rule: rev_induct)
  case Nil
  show ?case
    by (intro exI [of _ "pipeline_start tid grp n r0"]) (auto simp: pipeline_start_def intro: pipeline_reachable.start)
next
  case (snoc ev evs)
  then obtain p where p: "pipeline_reachable getline pad (pipeline_start tid grp n r0) p" "pl_arrived p = evs"
    "pl_thread p = Waiting"
    by auto
  let ?q = "p\<lparr>pl_thread := Correlating 0 ev, pl_arrived := pl_arrived p @ [ev]\<rparr>"
  have "ev = \<lparr>start_ns = start_ns ev, end_ns = end_ns ev, ev_pid = ev_pid ev, ev_tid = ev_tid ev, python_stacks = []\<rparr>"
    using snoc.prems by (cases ev) simp
  from pipeline_step.arrive [OF p(3) this]
  have q: "pipeline_reachable getline pad (pipeline_start tid grp n r0) ?q"
    by (rule pipeline_reachable.step [OF p(1)])
  obtain p' where p': "p' = ?q \<or> pipeline_step getline pad ?q p' \<or>
      (\<exists>r. pipeline_step getline pad ?q r \<and> pipeline_step getline pad r p')"
    "pl_thread p' = Waiting" "pl_arrived p' = pl_arrived ?q"
    using detector_steps [OF q assms(1)] by (elim exE conjE) (rule that)
  have "pipeline_reachable getline pad (pipeline_start tid grp n r0) p'"
    using p'(1) q by (blast intro: pipeline_reachable.step)
  with p'(2,3) p(2) show ?case
    by (intro exI [of _ p']) simp
qed

text \<open>C22: The detector's thread is never stuck: from any reachable state it reports everything that has
  arrived in at most two steps of its own.\<close>

theorem pipeline_progress:
  assumes "pipeline_reachable getline pad (pipeline_start tid grp n r0) p" and "0 < n"
  shows "\<exists>p'. (p' = p \<or> pipeline_step getline pad p p' \<or>
      (\<exists>q. pipeline_step getline pad p q \<and> pipeline_step getline pad q p')) \<and>
    pl_thread p' = Waiting \<and> map (fst \<circ> snd) (pl_reported p') = pl_arrived p"
  using detector_steps [OF assms] by blast

lemma pipeline_progress_witness:
  "\<exists>p p'. pipeline_reachable (\<lambda>_ _. []) 200 (pipeline_start 16 False 2 example_reporter) p \<and> pl_reported p = [] \<and>
     (p' = p \<or> pipeline_step (\<lambda>_ _. []) 200 p p' \<or>
      (\<exists>q. pipeline_step (\<lambda>_ _. []) 200 p q \<and> pipeline_step (\<lambda>_ _. []) 200 q p')) \<and>
     map (fst \<circ> snd) (pl_reported p') = [short_event]"
proof -
  obtain p where p: "pipeline_reachable (\<lambda>_ _. []) 200 (pipeline_start 16 False 2 example_reporter) p"
    "pl_thread p = Correlating 900 short_event" "pl_reported p = []"
    using example_pipeline by blast
  have "report_inv 16 200 example_reporter p"
    using reachable_inv [OF p(1)] by (simp add: pipeline_inv_def)
  then have arrived: "pl_arrived p = [short_event]"
    using p(2,3) by (simp add: report_inv_def in_progress_def)
  have "\<exists>p'. (p' = p \<or> pipeline_step (\<lambda>_ _. []) 200 p p' \<or>
      (\<exists>q. pipeline_step (\<lambda>_ _. []) 200 p q \<and> pipeline_step (\<lambda>_ _. []) 200 q p')) \<and>
    pl_thread p' = Waiting \<and> map (fst \<circ> snd) (pl_reported p') = [short_event]"
    using pipeline_progress [OF p(1) zero_less_numeral] unfolding arrived .
  then obtain p' where "p' = p \<or> pipeline_step (\<lambda>_ _. []) 200 p p' \<or>
      (\<exists>q. pipeline_step (\<lambda>_ _. []) 200 p q \<and> pipeline_step (\<lambda>_ _. []) 200 q p')"
    "map (fst \<circ> snd) (pl_reported p') = [short_event]"
    by (elim exE conjE) (rule that)
  with p(1,3) show ?thesis
    by (intro exI [of _ p] exI [of _ p'] conjI)
qed

end
