(* ===== verification/StatsSession.thy ===== *)
theory StatsSession
  imports Stats
begin

text \<open>
  The stats mode \<open>_run_stats\<close> of \<open>blocksnoop/cli.py\<close> wires together, with its three threads: the detector's
  thread calls \<open>StatsCollector.on_event\<close>, the timer's thread prints and re-arms (\<open>_tick\<close>), and the main
  thread stops the detector, cancels the timer and prints for the last time. Collecting and printing
  hold the collector's lock and are single steps; a tick is two, and the other threads may run
  between them. \<open>Timer.cancel\<close> has no effect on a timer that has fired. Stopping the detector waits
  for its thread for two seconds at most, so events may arrive in every state of the main thread,
  after \<open>stop\<close> has returned too, until the thread of the detector has ended.
\<close>

section \<open>The threads\<close>

datatype ticker = Resting | Fired | Printed

datatype stopper = Live | DetectorStopped | TimerCancelled | Stopped

datatype deliverer = Delivering | DeliveryEnded

text \<open>\<open>sn_pending\<close>: a started timer is waiting. The last two fields are history: the events delivered so far,
  and for every frame the clock reading and how many events had been delivered.\<close>

record stats_session =
  sn_collector :: stats_collector
  sn_pending :: bool
  sn_ticker :: ticker
  sn_stopper :: stopper
  sn_deliverer :: deliverer
  sn_arrived :: "blocking_event list"
  sn_prints :: "(rat \<times> nat) list"

definition stats_session_start :: "rat \<Rightarrow> stats_collector \<Rightarrow> stats_session" where
  "stats_session_start t0 c =
     \<lparr>sn_collector = stats_start t0 c, sn_pending = True, sn_ticker = Resting, sn_stopper = Live,
      sn_deliverer = Delivering, sn_arrived = [], sn_prints = []\<rparr>"

definition cancel_timer :: "stats_session \<Rightarrow> stats_session" where
  "cancel_timer s =
     (if st_timer (sn_collector s)
      then s\<lparr>sn_pending := False, sn_collector := (sn_collector s)\<lparr>st_timer := False\<rparr>\<rparr>
      else s)"

inductive session_step :: "stats_session \<Rightarrow> stats_session \<Rightarrow> bool" where
  arrive: "sn_deliverer s = Delivering \<Longrightarrow>
    session_step s (s\<lparr>sn_collector := stats_on_event ev (sn_collector s), sn_arrived := sn_arrived s @ [ev]\<rparr>)"
| delivery_ends: "sn_deliverer s = Delivering \<Longrightarrow> session_step s (s\<lparr>sn_deliverer := DeliveryEnded\<rparr>)"
| fire: "\<lbrakk>sn_pending s; sn_ticker s = Resting\<rbrakk> \<Longrightarrow>
    session_step s (s\<lparr>sn_pending := False, sn_ticker := Fired\<rparr>)"
| tick_print: "\<lbrakk>sn_ticker s = Fired; print_stats now (sn_collector s) = Inr c\<rbrakk> \<Longrightarrow>
    session_step s (s\<lparr>sn_collector := c, sn_ticker := Printed, sn_prints := sn_prints s @ [(now, length (sn_arrived s))]\<rparr>)"
| tick_dies: "\<lbrakk>sn_ticker s = Fired; print_stats now (sn_collector s) = Inl x\<rbrakk> \<Longrightarrow>
    session_step s (s\<lparr>sn_ticker := Resting\<rparr>)"
| tick_schedule: "sn_ticker s = Printed \<Longrightarrow>
    session_step s (s\<lparr>sn_collector := stats_schedule (sn_collector s), sn_pending := True, sn_ticker := Resting\<rparr>)"
| stop_detector: "sn_stopper s = Live \<Longrightarrow> session_step s (s\<lparr>sn_stopper := DetectorStopped\<rparr>)"
| stop_timer: "sn_stopper s = DetectorStopped \<Longrightarrow>
    session_step s ((cancel_timer s)\<lparr>sn_stopper := TimerCancelled\<rparr>)"
| stop_print: "\<lbrakk>sn_stopper s = TimerCancelled; print_stats now (sn_collector s) = Inr c\<rbrakk> \<Longrightarrow>
    session_step s (s\<lparr>sn_collector := c, sn_stopper := Stopped, sn_prints := sn_prints s @ [(now, length (sn_arrived s))]\<rparr>)"
| stop_raises: "\<lbrakk>sn_stopper s = TimerCancelled; print_stats now (sn_collector s) = Inl x\<rbrakk> \<Longrightarrow>
    session_step s (s\<lparr>sn_stopper := Stopped\<rparr>)"

inductive session_reachable :: "stats_session \<Rightarrow> stats_session \<Rightarrow> bool" for s0 :: stats_session where
  start: "session_reachable s0 s0"
| step: "\<lbrakk>session_reachable s0 s; session_step s s'\<rbrakk> \<Longrightarrow> session_reachable s0 s'"

lemma session_reachable_trans:
  "session_reachable s1 s2 \<Longrightarrow> session_reachable s0 s1 \<Longrightarrow> session_reachable s0 s2"
  by (induction rule: session_reachable.induct) (auto intro: session_reachable.step)

section \<open>What a frame says\<close>

text \<open>The JSON record of a sorted list of durations.\<close>

definition stats_json :: "int \<Rightarrow> rat \<Rightarrow> rat list \<Rightarrow> json" where
  "stats_json pid elapsed ds =
     JObj ([(''pid'', JInt pid), (''elapsed_s'', JFloat (py_round 1 elapsed)), (''count'', JInt (int (length ds))),
            (''rate'', JFloat (py_round 1 (stats_rate (length ds) elapsed)))] @
       (if ds = [] then [] else
          [(''min_ms'', JFloat (py_round 3 (hd ds))),
           (''avg_ms'', JFloat (py_round 3 (fdiv (py_sum ds) (float_of_int (int (length ds)))))),
           (''p50_ms'', JFloat (py_round 3 (perc_value ds P50))), (''p90_ms'', JFloat (py_round 3 (perc_value ds P90))),
           (''p95_ms'', JFloat (py_round 3 (perc_value ds P95))), (''p99_ms'', JFloat (py_round 3 (perc_value ds P99))),
           (''max_ms'', JFloat (py_round 3 (last ds)))]))"

lemma print_stats_json:
  assumes "st_json_mode c" and "stats_inv c" "length (st_durations c) \<le> 2 ^ 53"
  shows "print_stats now c = Inr (c\<lparr>st_stream := st_stream c @
    [JsonLine (stats_json (st_pid c) (fsub now (st_start_time c)) (st_durations c))]\<rparr>)"
  using assms stat_values_ok [of "st_durations c"]
  by (cases "st_durations c = []")
    (simp_all add: print_stats_def print_json_def stats_json_def stats_inv_def Let_def dict_update_def dict_set_def)

lemma stats_on_event_fields [simp]:
  "st_pid (stats_on_event e c) = st_pid c" "st_json_mode (stats_on_event e c) = st_json_mode c"
  "st_stream (stats_on_event e c) = st_stream c" "st_start_time (stats_on_event e c) = st_start_time c"
  by (simp_all add: stats_on_event_def Let_def)

lemma stats_schedule_fields [simp]:
  "st_pid (stats_schedule c) = st_pid c" "st_json_mode (stats_schedule c) = st_json_mode c"
  "st_stream (stats_schedule c) = st_stream c" "st_start_time (stats_schedule c) = st_start_time c"
  "st_durations (stats_schedule c) = st_durations c"
  by (simp_all add: stats_schedule_def)

lemma cancel_timer_fields [simp]:
  "st_pid (sn_collector (cancel_timer s)) = st_pid (sn_collector s)"
  "st_json_mode (sn_collector (cancel_timer s)) = st_json_mode (sn_collector s)"
  "st_stream (sn_collector (cancel_timer s)) = st_stream (sn_collector s)"
  "st_start_time (sn_collector (cancel_timer s)) = st_start_time (sn_collector s)"
  "st_durations (sn_collector (cancel_timer s)) = st_durations (sn_collector s)"
  "sn_ticker (cancel_timer s) = sn_ticker s" "sn_arrived (cancel_timer s) = sn_arrived s"
  "sn_prints (cancel_timer s) = sn_prints s" "sn_deliverer (cancel_timer s) = sn_deliverer s"
  by (simp_all add: cancel_timer_def)

section \<open>The invariant\<close>

definition durations_of :: "blocking_event list \<Rightarrow> rat list" where
  "durations_of events = sort (map duration_ms events)"

definition frames_of :: "int \<Rightarrow> rat \<Rightarrow> blocking_event list \<Rightarrow> (rat \<times> nat) list \<Rightarrow> out list" where
  "frames_of pid t0 events prints =
     map (\<lambda>(now, k). JsonLine (stats_json pid (fsub now t0) (durations_of (take k events)))) prints"

definition session_inv :: "int \<Rightarrow> rat \<Rightarrow> stats_session \<Rightarrow> bool" where
  "session_inv pid t0 s \<longleftrightarrow>
     st_json_mode (sn_collector s) \<and> st_pid (sn_collector s) = pid \<and> st_start_time (sn_collector s) = t0 \<and>
     st_durations (sn_collector s) = durations_of (sn_arrived s) \<and>
     st_stream (sn_collector s) = frames_of pid t0 (sn_arrived s) (sn_prints s) \<and>
     sorted (map snd (sn_prints s)) \<and> (\<forall>k \<in> snd ` set (sn_prints s). k \<le> length (sn_arrived s)) \<and>
     (sn_stopper s = Stopped \<longrightarrow> sn_prints s \<noteq> [])"

lemma session_start_inv: "session_inv pid t0 (stats_session_start t0 (StatsCollector pid True))"
  by (simp add: session_inv_def stats_session_start_def stats_start_def StatsCollector_def durations_of_def
      frames_of_def stats_schedule_def)

lemma durations_of_snoc: "durations_of (es @ [e]) = insort (durations_of es) (duration_ms e)"
proof -
  have "durations_of (es @ [e]) = sort (insort (durations_of es) (duration_ms e))"
    unfolding durations_of_def by (rule properties_for_sort [symmetric]) (simp_all add: mset_sort)
  then show ?thesis
    by (simp add: durations_of_def sorted_insort sorted_sort_id)
qed

lemma frames_of_more:
  assumes "\<forall>k \<in> snd ` set prints. k \<le> length es"
  shows "frames_of pid t0 (es @ es') prints = frames_of pid t0 es prints"
  unfolding frames_of_def using assms by (intro map_cong) auto

lemma session_print:
  assumes "session_inv pid t0 s" and "length (sn_arrived s) \<le> 2 ^ 53"
  shows "print_stats now (sn_collector s) = Inr ((sn_collector s)\<lparr>st_stream := st_stream (sn_collector s) @
    [JsonLine (stats_json pid (fsub now t0) (durations_of (sn_arrived s)))]\<rparr>)"
  using assms print_stats_json [of "sn_collector s" now]
  by (simp add: session_inv_def stats_inv_def durations_of_def)

lemma session_inv_printed:
  assumes "session_inv pid t0 s" and "length (sn_arrived s) \<le> 2 ^ 53"
    and "print_stats now (sn_collector s) = Inr c"
  shows "session_inv pid t0 (s\<lparr>sn_collector := c, sn_ticker := tk, sn_stopper := sp,
    sn_prints := sn_prints s @ [(now, length (sn_arrived s))]\<rparr>)"
  using assms(1,3) session_print [OF assms(1,2), of now]
  by (auto simp: session_inv_def frames_of_def sorted_append)

lemma session_inv_step:
  assumes "session_inv pid t0 s" and "length (sn_arrived s') \<le> 2 ^ 53" and "session_step s s'"
  shows "session_inv pid t0 s'"
  using assms(3)
proof (cases rule: session_step.cases)
  case (arrive ev)
  then show ?thesis
    using assms(1) frames_of_more [of "sn_prints s" "sn_arrived s"]
    by (auto simp: session_inv_def stats_on_event_durations durations_of_snoc)
next
  case (tick_print now c)
  then show ?thesis
    using session_inv_printed [OF assms(1), where now = now and c = c and tk = Printed and sp = "sn_stopper s"] assms(2) by simp
next
  case (stop_print now c)
  then show ?thesis
    using session_inv_printed [OF assms(1), where now = now and c = c and tk = "sn_ticker s" and sp = Stopped] assms(2) by simp
next
  case (stop_raises now x)
  then show ?thesis
    using session_print [OF assms(1), of now] assms(2) by simp
qed (use assms(1) in \<open>auto simp: session_inv_def\<close>)

lemma arrived_grows: "session_step s s' \<Longrightarrow> prefix (sn_arrived s) (sn_arrived s')"
  by (cases rule: session_step.cases) auto

lemma session_reachable_inv:
  assumes "session_reachable (stats_session_start t0 (StatsCollector pid True)) s" and "length (sn_arrived s) \<le> 2 ^ 53"
  shows "session_inv pid t0 s"
  using assms
proof (induction rule: session_reachable.induct)
  case (step s s')
  then have "length (sn_arrived s) \<le> 2 ^ 53"
    using prefix_length_le [OF arrived_grows] le_trans by blast
  with step show ?case
    using session_inv_step by blast
qed (rule session_start_inv)


section \<open>Stopping\<close>

text \<open>What is still to be printed covers what has arrived: until the stop has printed, its frame is to
  come; from then on the last frame has at least the events that had arrived before.\<close>

definition covers :: "nat \<Rightarrow> stats_session \<Rightarrow> bool" where
  "covers n u \<longleftrightarrow> n \<le> length (sn_arrived u) \<and>
     (sn_stopper u = Stopped \<longrightarrow> sn_prints u \<noteq> [] \<and> n \<le> snd (last (sn_prints u)))"

lemma covers_step:
  assumes "session_step u u'" and "session_inv pid t0 u" "length (sn_arrived u') \<le> 2 ^ 53" "covers n u"
  shows "covers n u'"
  using assms(1)
proof (cases rule: session_step.cases)
  case (stop_raises now x)
  then show ?thesis
    using session_print [OF assms(2), of now] assms(3) by simp
qed (use assms(4) in \<open>auto simp: covers_def\<close>)

lemma session_run:
  assumes "session_reachable u u'" and "session_inv pid t0 u" "length (sn_arrived u') \<le> 2 ^ 53"
  shows "session_inv pid t0 u' \<and> (covers n u \<longrightarrow> covers n u')"
  using assms
proof (induction rule: session_reachable.induct)
  case (step v v')
  then have "length (sn_arrived v) \<le> 2 ^ 53"
    using prefix_length_le [OF arrived_grows] le_trans by blast
  with step show ?case
    using session_inv_step covers_step by blast
qed simp

lemma stop_covers:
  assumes "session_reachable u u'" and "session_inv pid t0 u" "length (sn_arrived u') \<le> 2 ^ 53"
    and "sn_stopper u \<noteq> Stopped" "sn_stopper u' = Stopped"
  shows "sn_prints u' \<noteq> []" "length (sn_arrived u) \<le> snd (last (sn_prints u'))"
  using session_run [OF assms(1-3), of "length (sn_arrived u)"] assms(4,5) by (auto simp: covers_def)

lemma ended_stays:
  "session_reachable u u' \<Longrightarrow> sn_deliverer u = DeliveryEnded \<Longrightarrow>
   sn_deliverer u' = DeliveryEnded \<and> sn_arrived u' = sn_arrived u"
proof (induction rule: session_reachable.induct)
  case (step v v')
  then have "sn_deliverer v = DeliveryEnded" "sn_arrived v = sn_arrived u"
    by blast+
  with step.hyps(2) show ?case
    by (cases rule: session_step.cases) auto
qed simp

lemma arrived_grows_run: "session_reachable u u' \<Longrightarrow> length (sn_arrived u) \<le> length (sn_arrived u')"
  by (induction rule: session_reachable.induct) (use prefix_length_le [OF arrived_grows] le_trans in blast)+

text \<open>When the thread of the detector has ended before the stop prints, the last frame has every event.\<close>

lemma stop_covers_all:
  assumes "session_reachable u u'" and "session_inv pid t0 u" "length (sn_arrived u) \<le> 2 ^ 53"
    and "sn_deliverer u = DeliveryEnded" "sn_stopper u \<noteq> Stopped" "sn_stopper u' = Stopped"
  shows "session_inv pid t0 u'" "sn_prints u' \<noteq> []" "snd (last (sn_prints u')) = length (sn_arrived u)"
    "sn_arrived u' = sn_arrived u"
proof -
  show arrived: "sn_arrived u' = sn_arrived u"
    using ended_stays [OF assms(1,4)] by blast
  then have len: "length (sn_arrived u') \<le> 2 ^ 53"
    using assms(3) by simp
  show inv: "session_inv pid t0 u'" and prints: "sn_prints u' \<noteq> []"
    using session_run [OF assms(1,2) len] stop_covers(1) [OF assms(1,2) len assms(5,6)] by blast+
  then have "snd (last (sn_prints u')) \<le> length (sn_arrived u')"
    by (simp add: session_inv_def)
  then show "snd (last (sn_prints u')) = length (sn_arrived u)"
    using stop_covers(2) [OF assms(1,2) len assms(5,6)] by (simp add: arrived)
qed

text \<open>The rest of a stop from any state: the main thread's remaining steps.\<close>

lemma stop_completes:
  assumes "session_inv pid t0 s" and "length (sn_arrived s) \<le> 2 ^ 53"
  shows "\<exists>s'. session_reachable s s' \<and> sn_stopper s' = Stopped \<and> sn_arrived s' = sn_arrived s"
proof -
  let ?goal = "\<exists>s'. session_reachable s s' \<and> sn_stopper s' = Stopped \<and> sn_arrived s' = sn_arrived s"
  have printed: ?goal
    if u: "session_reachable s u" "sn_stopper u = TimerCancelled" "sn_arrived u = sn_arrived s" for u
  proof -
    have len: "length (sn_arrived u) \<le> 2 ^ 53"
      using u(3) assms(2) by simp
    then have "session_inv pid t0 u"
      using session_run [OF u(1) assms(1)] by blast
    from session_print [OF this len, of 0] obtain c where "print_stats 0 (sn_collector u) = Inr c"
      by blast
    then show ?thesis
      using session_reachable.step [OF u(1) stop_print [OF u(2)]] u(3) by fastforce
  qed
  have cancelled: ?goal
    if u: "session_reachable s u" "sn_stopper u = DetectorStopped" "sn_arrived u = sn_arrived s" for u
    by (rule printed [OF session_reachable.step [OF u(1) stop_timer [OF u(2)]]]) (simp_all add: u(3))
  show ?thesis
  proof (cases "sn_stopper s")
    case Live
    show ?thesis
      by (rule cancelled [OF session_reachable.step [OF session_reachable.start stop_detector [OF Live]]]) simp_all
  next
    case Stopped
    then show ?thesis
      by (intro exI [of _ s]) (simp add: session_reachable.start)
  qed (use printed [OF session_reachable.start] cancelled [OF session_reachable.start] in simp_all)
qed

text \<open>With no tick under way when the timer is cancelled, only the last frame is still to come.\<close>

definition winding_up :: "stats_session \<Rightarrow> stats_session \<Rightarrow> bool" where
  "winding_up s u \<longleftrightarrow>
     \<not> sn_pending u \<and> sn_ticker u = Resting \<and> length (sn_arrived s) \<le> length (sn_arrived u) \<and>
     (sn_stopper u = TimerCancelled \<and> sn_prints u = sn_prints s \<or>
      sn_stopper u = Stopped \<and> (\<exists>now k. sn_prints u = sn_prints s @ [(now, k)] \<and>
        length (sn_arrived s) \<le> k \<and> k \<le> length (sn_arrived u)))"

lemma winding_up_step:
  assumes "session_step u u'" and "session_inv pid t0 u" "length (sn_arrived u') \<le> 2 ^ 53" "winding_up s u"
  shows "winding_up s u'"
  using assms(1)
proof (cases rule: session_step.cases)
  case (stop_raises now x)
  then show ?thesis
    using session_print [OF assms(2), of now] assms(3) by simp
qed (use assms(4) in \<open>auto simp: winding_up_def\<close>)

lemma winding_up_run:
  assumes "session_reachable u u'" and "session_inv pid t0 u" "length (sn_arrived u') \<le> 2 ^ 53" "winding_up s u"
  shows "winding_up s u'"
  using assms
proof (induction rule: session_reachable.induct)
  case (step v v')
  then have len: "length (sn_arrived v) \<le> 2 ^ 53"
    using prefix_length_le [OF arrived_grows] le_trans by blast
  then have "session_inv pid t0 v"
    using session_run [OF step.hyps(1) step.prems(1)] by blast
  with step len show ?case
    using winding_up_step by blast
qed simp

text \<open>A stopped session without a timer and without a tick under way writes nothing more.\<close>

lemma silent_run:
  assumes "session_reachable u u'" and "\<not> sn_pending u" "sn_ticker u = Resting" "sn_stopper u = Stopped"
  shows "sn_prints u' = sn_prints u \<and> st_stream (sn_collector u') = st_stream (sn_collector u)"
proof -
  have "\<not> sn_pending u' \<and> sn_ticker u' = Resting \<and> sn_stopper u' = Stopped \<and>
      sn_prints u' = sn_prints u \<and> st_stream (sn_collector u') = st_stream (sn_collector u)"
    using assms(1)
  proof (induction rule: session_reachable.induct)
    case (step v v')
    from step.hyps(2) show ?case
      by (cases rule: session_step.cases) (use step.IH in auto)
  qed (simp add: assms(2-4))
  then show ?thesis by blast
qed

text \<open>A waiting timer is always the one the collector knows, until the timer has been cancelled.\<close>

definition timer_known :: "stats_session \<Rightarrow> bool" where
  "timer_known s \<longleftrightarrow> sn_stopper s \<in> {Live, DetectorStopped} \<longrightarrow> sn_pending s \<longrightarrow> st_timer (sn_collector s)"

lemma print_stats_timer: "print_stats now c = Inr c' \<Longrightarrow> st_timer c' = st_timer c"
  by (auto simp: print_stats_def print_json_def print_console_def bind_result_Inr_iff Let_def split: if_splits)

lemma timer_known_step: "session_step s s' \<Longrightarrow> timer_known s \<Longrightarrow> timer_known s'"
  by (cases rule: session_step.cases)
    (auto simp: timer_known_def print_stats_timer stats_schedule_def stats_on_event_def Let_def)

lemma timer_known_reachable:
  "session_reachable (stats_session_start t0 c) s \<Longrightarrow> timer_known s"
proof (induction rule: session_reachable.induct)
  case start
  show ?case
    by (simp add: timer_known_def stats_session_start_def stats_start_def stats_schedule_def)
qed (rule timer_known_step)

text \<open>Any events can be delivered to a live session, the thread of the detector can end then, and a session
  can be stopped.\<close>

lemma live_session:
  "\<exists>s. session_reachable (stats_session_start t0 c) s \<and> sn_stopper s = Live \<and> sn_ticker s = Resting \<and>
     sn_deliverer s = Delivering \<and> sn_prints s = [] \<and> sn_arrived s = events"
proof (induction events rule: rev_induct)
  case Nil
  show ?case
    by (rule exI, rule conjI, rule session_reachable.start) (simp add: stats_session_start_def)
next
  case (snoc ev events)
  then obtain s where s: "session_reachable (stats_session_start t0 c) s" "sn_stopper s = Live" "sn_ticker s = Resting"
    "sn_deliverer s = Delivering" "sn_prints s = []" "sn_arrived s = events"
    by blast
  show ?case
    by (rule exI, rule conjI, rule session_reachable.step [OF s(1) arrive [OF s(4), of ev]]) (use s in simp)
qed

lemma ended_session:
  "\<exists>s. session_reachable (stats_session_start t0 c) s \<and> sn_stopper s \<noteq> Stopped \<and> sn_deliverer s = DeliveryEnded \<and>
     sn_arrived s = events"
proof -
  obtain l where l: "session_reachable (stats_session_start t0 c) l" "sn_stopper l = Live"
    "sn_deliverer l = Delivering" "sn_arrived l = events"
    using live_session by blast
  show ?thesis
    by (rule exI, rule conjI, rule session_reachable.step [OF l(1) delivery_ends [OF l(3)]]) (simp add: l)
qed

section \<open>Properties\<close>

text \<open>C15: In the JSON mode, whatever the interleaving of the three threads, what is written is one record
  per frame, each describing exactly the events delivered before it: their number, their rate and
  their sorted durations' statistics. The numbers never decrease. Events may arrive until the thread
  of the detector ends, after the stop has returned too; but once the session has stopped there is a
  last record, it covers every event that had arrived at any moment before the end of the stop, and
  when the thread of the detector had ended at such a moment, it covers all the events there are.\<close>

theorem stats_frames_truthful:
  assumes "session_reachable (stats_session_start t0 (StatsCollector pid True)) s"
    and "session_reachable s s'" and "length (sn_arrived s') \<le> 2 ^ 53"
  shows "st_stream (sn_collector s') = map (\<lambda>(now, k). JsonLine (stats_json pid (fsub now t0)
      (sort (map duration_ms (take k (sn_arrived s')))))) (sn_prints s') \<and>
    sorted (map snd (sn_prints s')) \<and>
    (sn_stopper s \<noteq> Stopped \<and> sn_stopper s' = Stopped \<longrightarrow>
      sn_prints s' \<noteq> [] \<and> length (sn_arrived s) \<le> snd (last (sn_prints s')) \<and>
      (sn_deliverer s = DeliveryEnded \<longrightarrow> snd (last (sn_prints s')) = length (sn_arrived s')))"
proof -
  have len: "length (sn_arrived s) \<le> 2 ^ 53"
    using arrived_grows_run [OF assms(2)] assms(3) by simp
  note inv = session_reachable_inv [OF assms(1) len]
  have "session_inv pid t0 s'"
    by (rule session_reachable_inv [OF session_reachable_trans [OF assms(2,1)] assms(3)])
  then show ?thesis
    using stop_covers [OF assms(2) inv assms(3)] stop_covers_all(3,4) [OF assms(2) inv len]
    by (simp add: session_inv_def frames_of_def durations_of_def)
qed

text \<open>C29: When no tick is under way as \<open>stop\<close> cancels the timer, exactly one more frame is written, by the
  stop itself and without an exception: it covers every event that had arrived when the timer was
  cancelled, and none that arrived after the stop. Nothing is ever written after it, though late
  events may still be collected.\<close>

theorem stats_stop_completes:
  assumes "session_reachable (stats_session_start t0 (StatsCollector pid True)) s"
    and "sn_ticker s = Resting" and "session_step s u" and "sn_stopper s = DetectorStopped" "sn_stopper u = TimerCancelled"
    and "session_reachable u s'" and "sn_stopper s' = Stopped" and "length (sn_arrived s') \<le> 2 ^ 53"
    and "session_reachable s' s''"
  shows "\<exists>now k. sn_prints s' = sn_prints s @ [(now, k)] \<and>
      length (sn_arrived s) \<le> k \<and> k \<le> length (sn_arrived s') \<and>
      sn_prints s'' = sn_prints s' \<and> st_stream (sn_collector s'') = st_stream (sn_collector s')"
proof -
  have u: "u = (cancel_timer s)\<lparr>sn_stopper := TimerCancelled\<rparr>"
    using assms(3) by (cases rule: session_step.cases) (use assms(4,5) in auto)
  have ur: "session_reachable (stats_session_start t0 (StatsCollector pid True)) u"
    by (rule session_reachable.step [OF assms(1,3)])
  have len: "length (sn_arrived u) \<le> 2 ^ 53"
    using arrived_grows_run [OF assms(6)] assms(8) by simp
  have "\<not> sn_pending u"
    using timer_known_reachable [OF assms(1)] assms(4) by (auto simp: u cancel_timer_def timer_known_def)
  then have "winding_up s u"
    using assms(2) by (simp add: winding_up_def u)
  then have w: "winding_up s s'"
    by (rule winding_up_run [OF assms(6) session_reachable_inv [OF ur len] assms(8)])
  then show ?thesis
    using silent_run [OF assms(9)] assms(7) by (auto simp: winding_up_def)
qed

text \<open>Ticks of a session in which no event arrives.\<close>

lemma tick:
  assumes "session_inv pid t0 u" "sn_arrived u = []" "sn_pending u" "sn_ticker u = Resting"
  shows "\<exists>v. session_reachable u v \<and> session_inv pid t0 v \<and> sn_arrived v = [] \<and> sn_ticker v = Printed \<and>
    sn_stopper v = sn_stopper u \<and> length (sn_prints v) = length (sn_prints u) + 1"
proof -
  let ?v = "u\<lparr>sn_pending := False, sn_ticker := Fired\<rparr>"
  obtain c where c: "print_stats 0 (sn_collector ?v) = Inr c"
    using session_print [OF assms(1), of 0] assms(2) by auto
  let ?w = "?v\<lparr>sn_collector := c, sn_ticker := Printed, sn_prints := sn_prints ?v @ [(0, length (sn_arrived ?v))]\<rparr>"
  have "session_reachable u ?w"
    by (rule session_reachable.step [OF session_reachable.step [OF session_reachable.start fire] tick_print])
      (use assms(3,4) c in simp_all)
  moreover from session_run [OF this assms(1)] have "session_inv pid t0 ?w"
    by (simp add: assms(2))
  ultimately show ?thesis
    by (intro exI [of _ ?w]) (simp add: assms(2))
qed

lemma rearm:
  assumes "session_inv pid t0 u" "sn_arrived u = []" "sn_ticker u = Printed"
  shows "\<exists>v. session_reachable u v \<and> session_inv pid t0 v \<and> sn_arrived v = [] \<and> sn_ticker v = Resting \<and>
    sn_pending v \<and> sn_stopper v = sn_stopper u \<and> sn_prints v = sn_prints u"
proof -
  let ?v = "u\<lparr>sn_collector := stats_schedule (sn_collector u), sn_pending := True, sn_ticker := Resting\<rparr>"
  have "session_reachable u ?v"
    by (rule session_reachable.step [OF session_reachable.start tick_schedule [OF assms(3)]])
  moreover from session_run [OF this assms(1)] have "session_inv pid t0 ?v"
    by (simp add: assms(2))
  ultimately show ?thesis
    by (intro exI [of _ ?v]) (simp add: assms(2))
qed

lemma ticks:
  assumes "session_inv pid t0 u" "sn_arrived u = []" "sn_pending u" "sn_ticker u = Resting"
  shows "\<exists>v. session_reachable u v \<and> session_inv pid t0 v \<and> sn_arrived v = [] \<and> sn_ticker v = Resting \<and> sn_pending v \<and>
    length (sn_prints v) = length (sn_prints u) + n"
proof (induction n)
  case 0
  show ?case
    by (intro exI [of _ u]) (simp add: assms session_reachable.start)
next
  case (Suc n)
  then obtain v where v: "session_reachable u v" "session_inv pid t0 v" "sn_arrived v = []" "sn_ticker v = Resting"
    "sn_pending v" "length (sn_prints v) = length (sn_prints u) + n"
    by blast
  obtain w where w: "session_reachable v w" "session_inv pid t0 w" "sn_arrived w = []" "sn_ticker w = Printed"
    "length (sn_prints w) = length (sn_prints v) + 1"
    using tick [OF v(2,3,5,4)] by blast
  obtain x where x: "session_reachable w x" "session_inv pid t0 x" "sn_arrived x = []" "sn_ticker x = Resting"
    "sn_pending x" "sn_prints x = sn_prints w"
    using rearm [OF w(2-4)] by blast
  show ?case
    by (rule exI [of _ x], intro conjI session_reachable_trans [OF x(1) session_reachable_trans [OF w(1) v(1)]])
      (simp_all add: x v(6) w(5))
qed

text \<open>A stop that overtakes a tick between its print and its re-arming.\<close>

lemma overtaken_tick:
  "\<exists>s. session_reachable (stats_session_start t0 (StatsCollector pid True)) s \<and> session_inv pid t0 s \<and>
     sn_arrived s = [] \<and> sn_ticker s = Printed \<and> sn_stopper s = Stopped"
proof -
  let ?origin = "stats_session_start t0 (StatsCollector pid True)"
  have "sn_arrived ?origin = []" "sn_pending ?origin" "sn_ticker ?origin = Resting" "sn_stopper ?origin = Live"
    by (simp_all add: stats_session_start_def)
  with tick [OF session_start_inv] obtain u where u: "session_reachable ?origin u" "session_inv pid t0 u" "sn_arrived u = []"
    "sn_ticker u = Printed" "sn_stopper u = Live"
    by metis
  let ?w = "(cancel_timer (u\<lparr>sn_stopper := DetectorStopped\<rparr>))\<lparr>sn_stopper := TimerCancelled\<rparr>"
  have w: "session_reachable u ?w"
    by (rule session_reachable.step [OF session_reachable.step [OF session_reachable.start stop_detector [OF u(5)]] stop_timer])
      simp
  then have inv: "session_inv pid t0 ?w"
    using session_run [OF w u(2)] u(3) by simp
  then obtain c where c: "print_stats 0 (sn_collector ?w) = Inr c"
    using session_print [OF inv, of 0] u(3) by auto
  let ?s = "?w\<lparr>sn_collector := c, sn_stopper := Stopped, sn_prints := sn_prints ?w @ [(0, length (sn_arrived ?w))]\<rparr>"
  have s: "session_reachable u ?s"
    by (rule session_reachable.step [OF w stop_print [OF _ c]]) simp
  moreover from session_run [OF s u(2)] have "session_inv pid t0 ?s"
    by (simp add: u(3))
  ultimately show ?thesis
    using session_reachable_trans [OF s u(1)] u(3,4) by (intro exI [of _ ?s]) simp
qed

text \<open>C33: A tick that is under way as the timer is cancelled arms it again: after \<open>stop\<close> has returned the
  collector prints as many more frames as one likes, though no event arrives.\<close>

theorem stats_prints_after_stop:
  "\<exists>s. session_reachable (stats_session_start t0 (StatsCollector pid True)) s \<and> sn_stopper s = Stopped \<and>
    (\<forall>n. \<exists>s'. session_reachable s s' \<and> sn_arrived s' = sn_arrived s \<and>
      length (sn_prints s') = length (sn_prints s) + n)"
proof -
  obtain s where s: "session_reachable (stats_session_start t0 (StatsCollector pid True)) s" "session_inv pid t0 s"
    "sn_arrived s = []" "sn_ticker s = Printed" "sn_stopper s = Stopped"
    using overtaken_tick by blast
  obtain v where v: "session_reachable s v" "session_inv pid t0 v" "sn_arrived v = []" "sn_ticker v = Resting"
    "sn_pending v" "sn_prints v = sn_prints s"
    using rearm [OF s(2-4)] by blast
  show ?thesis
    using s(1,3,5) ticks [OF v(2,3,5,4)] session_reachable_trans [OF _ v(1)] v(6)
    by (intro exI [of _ s]) metis
qed

text \<open>Concrete sessions.\<close>

definition example_gap :: blocking_event where
  "example_gap = \<lparr>start_ns = 0, end_ns = 5000000, ev_pid = 7, ev_tid = 7, python_stacks = []\<rparr>"

lemma stats_frames_truthful_witness:
  "\<exists>s now. session_reachable (stats_session_start 3 (StatsCollector 7 True)) s \<and> sn_stopper s = Stopped \<and>
     last (st_stream (sn_collector s)) = JsonLine (stats_json 7 (fsub now 3) [5])"
proof -
  obtain l where l: "session_reachable (stats_session_start 3 (StatsCollector 7 True)) l" "sn_stopper l \<noteq> Stopped"
    "sn_deliverer l = DeliveryEnded" "sn_arrived l = [example_gap]"
    using ended_session by blast
  have len: "length (sn_arrived l) \<le> 2 ^ 53"
    by (simp add: l)
  obtain s where s: "session_reachable l s" "sn_stopper s = Stopped" "sn_arrived s = [example_gap]"
    using stop_completes [OF session_reachable_inv [OF l(1) len] len] l(4) by auto
  have "duration_ms example_gap = 5"
    using fl_of_int [of 5] by (simp add: duration_ms_def example_gap_def int_truediv_def)
  then show ?thesis
    using stats_frames_truthful [OF l(1) s(1)] s l(2,3) session_reachable_trans [OF s(1) l(1)]
    by (intro exI [of _ s] exI [of _ "fst (last (sn_prints s))"])
      (simp add: last_map split_beta)
qed

text \<open>An event that arrives after the stop: it is collected, and no record has it.\<close>

lemma stats_stop_completes_witness:
  "\<exists>s'' now. session_reachable (stats_session_start 3 (StatsCollector 7 True)) s'' \<and> sn_stopper s'' = Stopped \<and>
     sn_arrived s'' = [example_gap, example_gap] \<and> sn_prints s'' = [(now, 1)]"
proof -
  let ?origin = "stats_session_start 3 (StatsCollector 7 True)"
  obtain l where l: "session_reachable ?origin l" "sn_stopper l = Live" "sn_ticker l = Resting" "sn_prints l = []"
    "sn_arrived l = [example_gap]" "sn_deliverer l = Delivering"
    using live_session by blast
  let ?s = "l\<lparr>sn_stopper := DetectorStopped\<rparr>"
  have s: "session_reachable ?origin ?s"
    by (rule session_reachable.step [OF l(1) stop_detector [OF l(2)]])
  let ?u = "(cancel_timer ?s)\<lparr>sn_stopper := TimerCancelled\<rparr>"
  have u: "session_step ?s ?u"
    by (rule stop_timer) simp
  note ur = session_reachable.step [OF s u]
  have len: "length (sn_arrived ?u) \<le> 2 ^ 53"
    by (simp add: l)
  obtain c where c: "print_stats 0 (sn_collector ?u) = Inr c"
    using session_print [OF session_reachable_inv [OF ur len] len, of 0] by blast
  let ?s' = "?u\<lparr>sn_collector := c, sn_stopper := Stopped, sn_prints := sn_prints ?u @ [(0, length (sn_arrived ?u))]\<rparr>"
  have s': "session_reachable ?u ?s'"
    by (rule session_reachable.step [OF session_reachable.start stop_print [OF _ c]]) simp
  let ?s'' = "?s'\<lparr>sn_collector := stats_on_event example_gap (sn_collector ?s'), sn_arrived := sn_arrived ?s' @ [example_gap]\<rparr>"
  have late: "session_reachable ?s' ?s''"
    by (rule session_reachable.step [OF session_reachable.start arrive]) (simp add: l)
  have "\<exists>now k. sn_prints ?s' = sn_prints ?s @ [(now, k)] \<and> length (sn_arrived ?s) \<le> k \<and> k \<le> length (sn_arrived ?s') \<and>
      sn_prints ?s'' = sn_prints ?s' \<and> st_stream (sn_collector ?s'') = st_stream (sn_collector ?s')"
    by (rule stats_stop_completes [OF s _ u _ _ s' _ _ late]) (simp_all add: l)
  then show ?thesis
    using session_reachable_trans [OF late session_reachable_trans [OF s' ur]] l(4,5) by (intro exI [of _ ?s'']) simp
qed

end
