(* ===== verification/KernelContract.thy ===== *)
theory KernelContract
  imports Diagnostics JsonText Sidecar
begin

text \<open>
  \<open>scripts/kernel_contract.py\<close>: the attestation of the kernel that the test containers run before the
  Core backend is tried. What the probe reads is a parameter: which files are readable, the bytes of
  the BTF file, the lines of \<open>/proc/self/status\<close>, the settings under \<open>/proc/sys/kernel\<close>, and what
  \<open>platform\<close> says. The JSON report is a value; \<open>json.dumps\<close> is that of \<open>JsonText\<close>.
\<close>

section \<open>The probe\<close>

record contract_env =
  kc_readable :: "string \<Rightarrow> bool"
  kc_bytes :: "string \<Rightarrow> string + 8 word list"
  kc_lines :: "string \<Rightarrow> string list option"
  kc_text :: "string \<Rightarrow> string option"
  kc_release :: string
  kc_machine :: string

definition BTF_MAGIC :: nat where "BTF_MAGIC = 0xEB9F"
definition BTF_HEADER_SIZE :: nat where "BTF_HEADER_SIZE = 24"
definition BTF_PATH :: string where "BTF_PATH = ''/sys/kernel/btf/vmlinux''"

text \<open>\<open>struct.unpack_from("<...")\<close>: little-endian integers.\<close>

fun le_nat :: "8 word list \<Rightarrow> nat" where
  "le_nat [] = 0"
| "le_nat (b # bs) = unat b + 256 * le_nat bs"

definition slice :: "nat \<Rightarrow> nat \<Rightarrow> 'a list \<Rightarrow> 'a list" where
  "slice start n xs = take n (drop start xs)"

text \<open>\<open>f"0x{magic:04x}"\<close> for a 16-bit number.\<close>

definition hex_04x :: "nat \<Rightarrow> string" where
  "hex_04x n = ''0x'' @ map (\<lambda>d. hex_char (n div d mod 16)) [4096, 256, 16, 1]"

definition btf_check :: "contract_env \<Rightarrow> json_obj \<times> bool" where
  "btf_check env =
     (let result = [(''path'', JStr BTF_PATH), (''readable'', JBool (kc_readable env BTF_PATH))]
      in if \<not> kc_readable env BTF_PATH
         then (result @ [(''error'', JStr ''kernel BTF is not readable'')], False)
         else case kc_bytes env BTF_PATH of
                Inl message \<Rightarrow> (result @ [(''error'', JStr message)], False)
              | Inr bytes \<Rightarrow>
                  let header = take BTF_HEADER_SIZE bytes
                  in if length header < BTF_HEADER_SIZE
                     then (result @ [(''error'', JStr ''kernel BTF header is truncated'')], False)
                     else
                       let magic = le_nat (slice 0 2 header);
                           version = le_nat (slice 2 1 header);
                           flags = le_nat (slice 3 1 header);
                           header_len = le_nat (slice 4 4 header);
                           valid = (magic = BTF_MAGIC \<and> version = 1 \<and> BTF_HEADER_SIZE \<le> header_len);
                           result = result @
                             [(''magic'', JStr (hex_04x magic)), (''version'', JInt (int version)),
                              (''flags'', JInt (int flags)), (''header_len'', JInt (int header_len)),
                              (''valid'', JBool valid)]
                       in if valid then (result, True)
                          else (result @ [(''error'',
                                 JStr ''kernel BTF header has an unexpected magic, version, or size'')], False))"

definition contract_pairs :: "contract_env \<Rightarrow> string \<Rightarrow> string list" where
  "contract_pairs env base =
     filter (\<lambda>syscall. kc_readable env (base @ ''/sys_enter_'' @ syscall @ ''/format'') \<and>
                       kc_readable env (base @ ''/sys_exit_'' @ syscall @ ''/format'')) EPOLL_SYSCALLS"

text \<open>\<open>complete_pairs.extend(pair for pair in pairs if pair not in complete_pairs)\<close>\<close>

definition extend_new :: "string list \<Rightarrow> string list \<Rightarrow> string list" where
  "extend_new pairs complete_pairs = foldl (\<lambda>cp p. if p \<in> set cp then cp else cp @ [p]) complete_pairs pairs"

fun tracepoint_roots :: "contract_env \<Rightarrow> string list \<Rightarrow> json list \<times> string list \<Rightarrow> json list \<times> string list" where
  "tracepoint_roots env [] (reports, complete_pairs) = (reports, complete_pairs)"
| "tracepoint_roots env (base # bases) (reports, complete_pairs) =
     (let pairs = contract_pairs env base
      in tracepoint_roots env bases
           (reports @ [JObj [(''path'', JStr base), (''pairs'', JList (map JStr pairs))]],
            extend_new pairs complete_pairs))"

definition tracepoint_check :: "contract_env \<Rightarrow> json_obj \<times> bool" where
  "tracepoint_check env =
     (let (reports, complete_pairs) = tracepoint_roots env TRACEFS_ROOTS ([], [])
      in ([(''roots'', JList reports), (''complete_pairs'', JList (map JStr complete_pairs)),
           (''valid'', JBool (complete_pairs \<noteq> []))], complete_pairs \<noteq> []))"

fun cap_eff :: "string list \<Rightarrow> string option" where
  "cap_eff [] = None"
| "cap_eff (line # lines) =
     (if startswith line ''CapEff:''
      then (case split_once (CHR '':'') line of (_, Some t) \<Rightarrow> Some (strip t) | (_, None) \<Rightarrow> None)
      else cap_eff lines)"

definition capabilities :: "contract_env \<Rightarrow> string option" where
  "capabilities env = Option.bind (kc_lines env ''/proc/self/status'') cap_eff"

definition kernel_config :: "contract_env \<Rightarrow> json_obj" where
  "kernel_config env =
     map (\<lambda>name. (name, json_opt JStr (map_option strip (kc_text env (''/proc/sys/kernel/'' @ name)))))
       [''unprivileged_bpf_disabled'', ''unprivileged_userns_clone'']"

section \<open>The verdict\<close>

record contract_args =
  ka_require_arch :: "string option"
  ka_require_kernel_prefix :: "string option"

text \<open>An option that is absent or empty asks for nothing. \<open>repr\<close> of a string is a parameter.\<close>

definition asked :: "string option \<Rightarrow> string option" where
  "asked opt = (case opt of Some (c # cs) \<Rightarrow> Some (c # cs) | _ \<Rightarrow> None)"

definition contract_failures :: "(string \<Rightarrow> string) \<Rightarrow> contract_env \<Rightarrow> contract_args \<Rightarrow> string list" where
  "contract_failures repr env args =
     (case asked (ka_require_arch args) of
        Some arch \<Rightarrow>
          if kc_machine env \<noteq> arch
          then [''architecture is '' @ repr (kc_machine env) @ '', expected '' @ repr arch] else []
      | None \<Rightarrow> [])
     @ (case asked (ka_require_kernel_prefix args) of
          Some wanted \<Rightarrow>
            if \<not> startswith (kc_release env) (wanted @ ''.'')
            then [''kernel release is '' @ repr (kc_release env) @ '', expected '' @ repr wanted @ ''.x''] else []
        | None \<Rightarrow> [])
     @ (if \<not> snd (tracepoint_check env) then [''no readable complete epoll syscall tracepoint pair''] else [])"

definition contract_report :: "(string \<Rightarrow> string) \<Rightarrow> contract_env \<Rightarrow> contract_args \<Rightarrow> json_obj" where
  "contract_report repr env args =
     (let failures = contract_failures repr env args
      in [(''schema'', JStr ''blocksnoop.kernel-contract/v1''),
          (''kernel_release'', JStr (kc_release env)),
          (''architecture'', JStr (kc_machine env)),
          (''effective_capabilities'', json_opt JStr (capabilities env)),
          (''kernel_settings'', JObj (kernel_config env)),
          (''btf'', JObj (fst (btf_check env))),
          (''tracepoints'', JObj (fst (tracepoint_check env))),
          (''status'', JStr (if failures = [] then ''pass'' else ''fail'')),
          (''failures'', JList (map JStr failures))])"

text \<open>What \<open>main\<close> does once the report is written: the report on standard output, the failures on standard
  error, and the exit status.\<close>

definition contract_main :: "(string \<Rightarrow> string) \<Rightarrow> contract_env \<Rightarrow> contract_args \<Rightarrow> json_obj \<times> string list \<times> int" where
  "contract_main repr env args =
     (let failures = contract_failures repr env args
      in (contract_report repr env args,
          map (\<lambda>failure. ''kernel contract failed: '' @ failure) failures,
          if failures \<noteq> [] then 1 else 0))"

section \<open>Lemmas\<close>

lemma extend_new_set: "set (extend_new pairs cp) = set pairs \<union> set cp"
  by (induction pairs arbitrary: cp) (auto simp: extend_new_def)

lemma tracepoint_roots_set:
  "set (snd (tracepoint_roots env bases (reports, cp))) = (\<Union>base \<in> set bases. set (contract_pairs env base)) \<union> set cp"
  by (induction bases arbitrary: reports cp) (auto simp: Let_def extend_new_set)

lemma tracepoints_valid:
  "snd (tracepoint_check env) \<longleftrightarrow> (\<exists>base \<in> set TRACEFS_ROOTS. contract_pairs env base \<noteq> [])"
proof -
  have "snd (tracepoint_check env) \<longleftrightarrow> set (snd (tracepoint_roots env TRACEFS_ROOTS ([], []))) \<noteq> {}"
    by (simp add: tracepoint_check_def case_prod_beta' Let_def)
  then show ?thesis
    by (simp add: tracepoint_roots_set)
qed

lemma readable_pairs_contract:
  assumes "\<And>p. is_readable_file denv p = Inr (kc_readable env p)"
  shows "readable_pairs denv base EPOLL_SYSCALLS = Inr (contract_pairs env base)"
proof -
  have "readable_pairs denv base ss = Inr (filter (\<lambda>syscall. kc_readable env (base @ ''/sys_enter_'' @ syscall @ ''/format'') \<and>
      kc_readable env (base @ ''/sys_exit_'' @ syscall @ ''/format'')) ss)" for ss
    by (induction ss) (simp_all add: readable_pair_def assms)
  then show ?thesis
    by (simp add: contract_pairs_def)
qed

lemma doctor_tracepoints:
  assumes "\<And>p. is_readable_file denv p = Inr (kc_readable env p)"
  shows "\<exists>c. check_tracepoint_roots denv bases = Inr c \<and>
    (ck_status c = Pass \<longleftrightarrow> (\<exists>base \<in> set bases. contract_pairs env base \<noteq> []))"
  by (induction bases) (simp_all add: readable_pairs_contract [OF assms] passed_def not_passed_def)

lemma loader_root:
  assumes "tracepoint_in (kc_readable env) name bases" and "name \<in> set EPOLL_SYSCALLS"
  shows "\<exists>base \<in> set bases. name \<in> set (contract_pairs env base)"
  using assms by (induction bases) (auto simp: contract_pairs_def Let_def split: if_splits)

section \<open>Properties\<close>

text \<open>The attestation says what it is asked: the probe exits with 0, with the status \<open>pass\<close> and no
  failures, exactly when the architecture is the required one, the release begins with the required
  prefix and a dot, and some epoll variant has both of its tracepoints readable under one root;
  otherwise it exits with 1 and the status \<open>fail\<close>, with one line per failure. The BTF file has no say.\<close>

theorem kernel_contract_exact:
  "let (report, lines, status) = contract_main repr env args;
       ok = ((case asked (ka_require_arch args) of None \<Rightarrow> True | Some arch \<Rightarrow> kc_machine env = arch) \<and>
             (case asked (ka_require_kernel_prefix args) of
                None \<Rightarrow> True | Some wanted \<Rightarrow> \<exists>rest. kc_release env = wanted @ ''.'' @ rest) \<and>
             (\<exists>base \<in> set TRACEFS_ROOTS. \<exists>name \<in> set EPOLL_SYSCALLS.
                kc_readable env (base @ ''/sys_enter_'' @ name @ ''/format'') \<and>
                kc_readable env (base @ ''/sys_exit_'' @ name @ ''/format'')))
   in status = (if ok then 0 else 1) \<and> (lines = []) = ok \<and>
      dict_get report ''status'' = Some (JStr (if ok then ''pass'' else ''fail''))"
proof -
  let ?fails = "contract_failures repr env args"
  have "?fails = [] \<longleftrightarrow>
    (case asked (ka_require_arch args) of None \<Rightarrow> True | Some arch \<Rightarrow> kc_machine env = arch) \<and>
    (case asked (ka_require_kernel_prefix args) of
       None \<Rightarrow> True | Some wanted \<Rightarrow> \<exists>rest. kc_release env = wanted @ ''.'' @ rest) \<and>
    (\<exists>base \<in> set TRACEFS_ROOTS. contract_pairs env base \<noteq> [])"
    by (simp add: contract_failures_def startswith_iff tracepoints_valid split: option.split)
  then have ok: "?fails = [] \<longleftrightarrow>
    (case asked (ka_require_arch args) of None \<Rightarrow> True | Some arch \<Rightarrow> kc_machine env = arch) \<and>
    (case asked (ka_require_kernel_prefix args) of
       None \<Rightarrow> True | Some wanted \<Rightarrow> \<exists>rest. kc_release env = wanted @ ''.'' @ rest) \<and>
    (\<exists>base \<in> set TRACEFS_ROOTS. \<exists>name \<in> set EPOLL_SYSCALLS.
       kc_readable env (base @ ''/sys_enter_'' @ name @ ''/format'') \<and>
       kc_readable env (base @ ''/sys_exit_'' @ name @ ''/format''))"
    by (simp add: contract_pairs_def filter_empty_conv)
  show ?thesis
    unfolding contract_main_def Let_def prod.case ok [symmetric]
    by (simp add: contract_report_def dict_get_def Let_def)
qed

text \<open>The three places that look for tracepoints agree. On the same file system the doctor passes its
  tracepoint check exactly when the attestation finds a pair; and when the native loader finds an
  available variant, both do.\<close>

theorem tracepoint_checks_agree:
  assumes "\<And>p. is_readable_file denv p = Inr (kc_readable env p)"
    and "se_readable lenv = kc_readable env"
  shows "\<exists>c. check_tracepoints denv = Inr c \<and> (ck_status c = Pass \<longleftrightarrow> snd (tracepoint_check env)) \<and>
    (filter ev_enabled (map (mark_enabled lenv) epoll_variants) = [] \<or> ck_status c = Pass)"
proof -
  obtain c where c: "check_tracepoints denv = Inr c" "ck_status c = Pass \<longleftrightarrow> snd (tracepoint_check env)"
    using doctor_tracepoints [OF assms(1), of TRACEFS_ROOTS] by (auto simp: check_tracepoints_def tracepoints_valid)
  have "snd (tracepoint_check env)" if "filter ev_enabled (map (mark_enabled lenv) epoll_variants) \<noteq> []"
  proof -
    from that obtain name where "name \<in> set EPOLL_SYSCALLS" "tracepoint_exists (kc_readable env) name"
      by (auto simp: mark_enabled_def epoll_variants_def variant_of_def EPOLL_SYSCALLS_def assms(2) split: if_splits)
    then obtain base where "base \<in> set TRACEFS_ROOTS" "name \<in> set (contract_pairs env base)"
      using loader_root unfolding tracepoint_exists_def TRACEFS_ROOTS_def by blast
    then show ?thesis
      unfolding tracepoints_valid by (intro bexI [of _ base]) auto
  qed
  with c show ?thesis
    by blast
qed

section \<open>A concrete host\<close>

definition tracing_env :: contract_env where
  "tracing_env = \<lparr>kc_readable = (\<lambda>_. True), kc_bytes = (\<lambda>_. Inr []), kc_lines = (\<lambda>_. None), kc_text = (\<lambda>_. None),
     kc_release = ''6.8.0'', kc_machine = ''x86_64''\<rparr>"

lemma tracepoint_checks_agree_witness:
  "\<exists>c. check_tracepoints doctor_host = Inr c \<and> (ck_status c = Pass \<longleftrightarrow> snd (tracepoint_check tracing_env))"
  using tracepoint_checks_agree [of doctor_host tracing_env
      "\<lparr>se_readable = (\<lambda>_. True), se_object_variable = None, se_executable = None\<rparr>"]
  by (auto simp: tracing_env_def doctor_host_readable)

end
