(* ===== verification/Packaging.thy ===== *)
theory Packaging
  imports KernelContract
begin

unbundle bit_operations_syntax

text \<open>
  The packaging of the native assets: the hooks of \<open>setup.py\<close> that put the sidecar and the BPF object
  into a wheel, and \<open>scripts/verify_native_wheel.py\<close>, the gate that a wheel and an installed package
  have to pass. Setuptools is a parameter: its \<open>build_py\<close>, the copying of a file and the tag of the
  platform. A build tree maps paths to files, each with its permission bits and its bytes.
\<close>

section \<open>Files\<close>

record asset =
  af_mode :: nat
  af_data :: "8 word list"

type_synonym tree = "string \<Rightarrow> asset option"

definition SIDECAR :: string where "SIDECAR = ''blocksnoop/_native/blocksnoop-ebpf''"
definition BPF_OBJECT :: string where "BPF_OBJECT = ''blocksnoop/bpf/core_blockdetect.bpf.o''"

text \<open>\<open>S_IXUSR | S_IXGRP | S_IXOTH\<close>\<close>

definition EXEC_BITS :: nat where "EXEC_BITS = 73"

section \<open>The hooks of setup.py\<close>

record build_env =
  be_native_wheel :: "string option"
  be_asset_dir :: "string option"
  be_platform :: string
  be_source :: "string \<Rightarrow> asset option"
  be_copy :: "asset \<Rightarrow> asset"

definition native_wheel_enabled :: "build_env \<Rightarrow> bool" where
  "native_wheel_enabled env \<longleftrightarrow> be_native_wheel env = Some ''1''"

definition remove_native_assets :: "tree \<Rightarrow> tree" where
  "remove_native_assets t = t(''blocksnoop/_native/blocksnoop-ebpf'' := None, ''blocksnoop/bpf/core_blockdetect.bpf.o'' := None)"

definition asset_sources :: "string \<Rightarrow> (string \<times> string \<times> string) list" where
  "asset_sources asset_dir =
     map (\<lambda>(name, destination). (path_str (below (path_of asset_dir) [name]), name, destination))
       [(''blocksnoop-ebpf'', ''blocksnoop/_native/blocksnoop-ebpf''),
        (''core_blockdetect.bpf.o'', ''blocksnoop/bpf/core_blockdetect.bpf.o'')]"

definition install_asset :: "build_env \<Rightarrow> string \<times> string \<times> string \<Rightarrow> tree \<Rightarrow> tree" where
  "install_asset env entry t =
     (case entry of (source, name, destination) \<Rightarrow>
        let copied = be_copy env (the (be_source env source));
            copied = (if name = ''blocksnoop-ebpf'' then copied\<lparr>af_mode := af_mode copied OR EXEC_BITS\<rparr> else copied)
        in t(destination \<mapsto> copied))"

text \<open>\<open>BuildPyWithNativeAssets.run\<close>; \<open>built\<close> is the tree the \<open>run\<close> of setuptools leaves.\<close>

definition build_py_run :: "build_env \<Rightarrow> tree result \<Rightarrow> tree result" where
  "build_py_run env built =
     bind_result built (\<lambda>t.
       if \<not> native_wheel_enabled env then Inr (remove_native_assets t)
       else if be_platform env \<noteq> ''linux''
       then Inl (PyRuntimeError ''BLOCKSNOOP_NATIVE_WHEEL is supported only on Linux'')
       else case be_asset_dir env of
              Some (c # cs) \<Rightarrow>
                let assets = asset_sources (c # cs);
                    missing = filter (\<lambda>source. be_source env source = None) (map fst assets)
                in if missing \<noteq> []
                   then Inl (PyRuntimeError (''native wheel assets are missing; run make -C native OUT_DIR=... first: ''
                          @ join '', '' missing))
                   else Inr (fold (install_asset env) assets t)
            | _ \<Rightarrow> Inl (PyRuntimeError ''BLOCKSNOOP_NATIVE_ASSET_DIR is required for a native wheel''))"

text \<open>\<open>NativeAssetWheel\<close> and \<open>BlocksnoopDistribution\<close>; the second arguments are the answers of their
  superclasses.\<close>

definition root_is_pure :: "build_env \<Rightarrow> bool \<Rightarrow> bool" where
  "root_is_pure env pure = (if native_wheel_enabled env then False else pure)"

definition get_tag :: "build_env \<Rightarrow> string \<times> string \<times> string \<Rightarrow> string \<times> string \<times> string" where
  "get_tag env tag =
     (if native_wheel_enabled env then (case tag of (_, _, platform_tag) \<Rightarrow> (''py3'', ''none'', platform_tag))
      else tag)"

definition has_ext_modules :: "build_env \<Rightarrow> bool" where
  "has_ext_modules env = native_wheel_enabled env"

section \<open>The gate\<close>

definition ARCH_MACHINE :: "(string, nat) dict" where
  "ARCH_MACHINE = [(''x86_64'', 62), (''aarch64'', 183)]"

definition BPF_MACHINE :: nat where "BPF_MACHINE = 247"

definition arch_machine :: "string \<Rightarrow> nat result" where
  "arch_machine architecture = (case dict_get ARCH_MACHINE architecture of Some m \<Rightarrow> Inr m | None \<Rightarrow> Inl KeyError)"

definition elf_machine :: "8 word list \<Rightarrow> nat result" where
  "elf_machine data =
     (if take 4 data \<noteq> [0x7F, 0x45, 0x4C, 0x46] \<or> length data < 20 then Inl AssertionError
      else if data ! 5 \<noteq> 1 then Inl AssertionError
      else Inr (le_nat (slice 18 2 data)))"

definition verify_elf :: "asset \<Rightarrow> nat \<Rightarrow> unit result" where
  "verify_elf f expected =
     bind_result (elf_machine (take 64 (af_data f))) (\<lambda>machine.
       if machine \<noteq> expected then Inl AssertionError else Inr ())"

text \<open>An opened wheel: the names of its members in the order a Python set gives them, the external
  attributes and the bytes of a member, and the lines of a member read as text.\<close>

record wheel =
  wh_names :: "string list"
  wh_attr :: "string \<Rightarrow> nat"
  wh_bytes :: "string \<Rightarrow> 8 word list"
  wh_lines :: "string \<Rightarrow> string list result"

definition endswith :: "string \<Rightarrow> string \<Rightarrow> bool" where
  "endswith s t = startswith (rev s) (rev t)"

definition wheel_tags :: "string list \<Rightarrow> string list" where
  "wheel_tags lines = map (drop (length ''Tag: '')) (filter (\<lambda>line. startswith line ''Tag: '') lines)"

definition verify_wheel :: "wheel \<Rightarrow> string \<Rightarrow> unit result" where
  "verify_wheel w architecture =
     (if SIDECAR \<notin> set (wh_names w) \<or> BPF_OBJECT \<notin> set (wh_names w) then Inl AssertionError
      else case List.find (\<lambda>name. endswith name ''.dist-info/WHEEL'') (wh_names w) of
             None \<Rightarrow> Inl OtherException
           | Some wheel_metadata \<Rightarrow>
               bind_result (wh_lines w wheel_metadata) (\<lambda>lines.
                 if ''py3-none-manylinux_2_28_'' @ architecture \<notin> set (wheel_tags lines) then Inl AssertionError
                 else if list_ex (\<lambda>tag. endswith tag ''-any'') (wheel_tags lines) then Inl AssertionError
                 else if (wh_attr w SIDECAR div 2 ^ 16) AND EXEC_BITS = 0 then Inl AssertionError
                 else bind_result (elf_machine (take 64 (wh_bytes w SIDECAR))) (\<lambda>machine.
                      bind_result (arch_machine architecture) (\<lambda>expected.
                        if machine \<noteq> expected then Inl AssertionError
                        else bind_result (elf_machine (take 64 (wh_bytes w BPF_OBJECT))) (\<lambda>m.
                               if m \<noteq> BPF_MACHINE then Inl AssertionError else Inr ())))))"

text \<open>The installed package: its directory, its files below the directory that holds it, and what
  \<open>os.access(path, os.X_OK)\<close> says of a file.\<close>

record installed =
  in_root :: string
  in_tree :: tree
  in_may_execute :: "asset \<Rightarrow> bool"

text \<open>What the sidecar lookup of the installed package sees: \<open>_packaged_sidecar\<close> looks beside the module,
  which lies in the directory of the package. The variable, the platform and \<open>PATH\<close> are those of the host.\<close>

definition installed_host :: "host_env \<Rightarrow> installed \<Rightarrow> host_env" where
  "installed_host host inst = host\<lparr>
     env_packaged := path_str (below (path_of (in_root inst)) [''_native'', ''blocksnoop-ebpf'']),
     env_packaged_is_file := in_tree inst SIDECAR \<noteq> None,
     env_packaged_executable := (case in_tree inst SIDECAR of None \<Rightarrow> False | Some f \<Rightarrow> in_may_execute inst f)\<rparr>"

definition verify_installed :: "host_env \<Rightarrow> installed \<Rightarrow> string \<Rightarrow> unit result" where
  "verify_installed host inst architecture =
     (case in_tree inst SIDECAR of
        None \<Rightarrow> Inl AssertionError
      | Some sidecar \<Rightarrow>
          if \<not> in_may_execute inst sidecar then Inl AssertionError
          else case in_tree inst BPF_OBJECT of
                 None \<Rightarrow> Inl AssertionError
               | Some bpf_object \<Rightarrow>
                   bind_result (arch_machine architecture) (\<lambda>expected.
                   bind_result (verify_elf sidecar expected) (\<lambda>_.
                   bind_result (verify_elf bpf_object BPF_MACHINE) (\<lambda>_.
                     if find_sidecar (installed_host host inst) DEFAULT_SIDECAR
                        \<noteq> Some (path_str (below (path_of (in_root inst)) [''_native'', ''blocksnoop-ebpf'']))
                     then Inl AssertionError else Inr ()))))"

text \<open>The exit status of the script; \<open>parser.error\<close> exits with 2, an exception that is not an
  \<open>AssertionError\<close> leaves the script with 1 as well.\<close>

definition gate_main :: "host_env \<Rightarrow> installed \<Rightarrow> wheel option \<Rightarrow> bool \<Rightarrow> string \<Rightarrow> int" where
  "gate_main host inst w installed_flag architecture =
     (if (w \<noteq> None) = installed_flag then 2
      else case (case w of Some wh \<Rightarrow> verify_wheel wh architecture | None \<Rightarrow> verify_installed host inst architecture) of
             Inl e \<Rightarrow> 1
           | Inr _ \<Rightarrow> 0)"

section \<open>Lemmas\<close>

text \<open>A little-endian ELF file for a machine.\<close>

definition elf_for :: "nat \<Rightarrow> 8 word list \<Rightarrow> bool" where
  "elf_for machine data \<longleftrightarrow>
     (\<exists>cls ident e_type rest lo hi. length ident = 10 \<and> length e_type = 2 \<and>
        data = [0x7F, 0x45, 0x4C, 0x46, cls, 1] @ ident @ e_type @ [lo, hi] @ rest \<and>
        machine = unat lo + 256 * unat hi)"

lemma list_split: "n \<le> length xs \<Longrightarrow> \<exists>as bs. xs = as @ bs \<and> length as = n"
  by (intro exI [of _ "take n xs"] exI [of _ "drop n xs"]) simp

lemma elf_machine_iff: "elf_machine (take 64 data) = Inr m \<longleftrightarrow> elf_for m data"
proof
  assume "elf_for m data"
  then obtain cls ident e_type rest lo hi where "length ident = 10" "length e_type = 2"
    "data = [0x7F, 0x45, 0x4C, 0x46, cls, 1] @ ident @ e_type @ [lo, hi] @ rest" "m = unat lo + 256 * unat hi"
    by (auto simp: elf_for_def)
  then show "elf_machine (take 64 data) = Inr m"
    by (simp add: elf_machine_def slice_def numeral_eq_Suc)
next
  assume ok: "elf_machine (take 64 data) = Inr m"
  then have "20 \<le> length data"
    by (auto simp: elf_machine_def split: if_splits)
  then obtain h rest where data: "data = h @ rest" "length h = 20"
    using list_split by metis
  then obtain a b where h: "h = a @ b" "length a = 6"
    using list_split [of 6 h] by auto
  obtain a0 a1 a2 a3 cls a5 where a: "a = [a0, a1, a2, a3, cls, a5]"
    using h(2) by (auto simp: numeral_eq_Suc length_Suc_conv)
  obtain ident c where b: "b = ident @ c" "length ident = 10"
    using list_split [of 10 b] data(2) h by auto
  then obtain e0 e1 lo hi where c: "c = [e0, e1, lo, hi]"
    using data(2) h by (auto simp: numeral_eq_Suc length_Suc_conv)
  have "[a0, a1, a2, a3] = [0x7F, 0x45, 0x4C, 0x46] \<and> a5 = 1 \<and> m = unat lo + 256 * unat hi"
    using ok b(2) by (auto simp: elf_machine_def data(1) h(1) a b(1) c slice_def numeral_eq_Suc split: if_splits)
  then show "elf_for m data"
    unfolding elf_for_def using b(2)
    by (intro exI [of _ cls] exI [of _ ident] exI [of _ "[e0, e1]"] exI [of _ rest] exI [of _ lo] exI [of _ hi])
       (simp add: data(1) h(1) a b(1) c)
qed

lemma verify_elf_iff: "verify_elf f m = Inr () \<longleftrightarrow> elf_for m (af_data f)"
proof -
  have "verify_elf f m = Inr () \<longleftrightarrow> elf_machine (take 64 (af_data f)) = Inr m"
    by (cases "elf_machine (take 64 (af_data f))") (auto simp: verify_elf_def)
  then show ?thesis
    by (simp add: elf_machine_iff)
qed

lemma or_and_same: "(m OR n) AND n = (n :: nat)"
  by (rule bit_eqI) (auto simp: bit_simps)

lemma exec_bits_set: "(m OR EXEC_BITS) AND EXEC_BITS = EXEC_BITS"
  by (rule or_and_same)

lemma endswith_iff: "endswith t s \<longleftrightarrow> (\<exists>u. t = u @ s)"
proof -
  have "rev t = rev s @ v \<longleftrightarrow> t = rev v @ s" for v
    by (simp add: rev_swap)
  then show ?thesis
    unfolding endswith_def startswith_iff by (metis rev_rev_ident)
qed

lemma find_unique: "x \<in> set xs \<Longrightarrow> P x \<Longrightarrow> (\<And>y. y \<in> set xs \<Longrightarrow> P y \<Longrightarrow> y = x) \<Longrightarrow> List.find P xs = Some x"
proof (induction xs)
  case (Cons a xs)
  show ?case
  proof (cases "P a")
    case True
    with Cons.prems(3) [of a] show ?thesis
      by simp
  next
    case False
    with Cons.prems(1,2) have "x \<in> set xs"
      by auto
    from Cons.IH [OF this Cons.prems(2)] Cons.prems(3) False show ?thesis
      by simp
  qed
qed simp

lemma stripped_mem:
  "t \<in> set (map (drop (length p)) (filter (\<lambda>l. startswith l p) ls)) \<longleftrightarrow> p @ t \<in> set ls"
proof
  assume "p @ t \<in> set ls"
  moreover have "startswith (p @ t) p" "t = drop (length p) (p @ t)"
    by (auto simp: startswith_iff)
  ultimately show "t \<in> set (map (drop (length p)) (filter (\<lambda>l. startswith l p) ls))"
    unfolding set_map set_filter by blast
qed (auto simp: startswith_iff)

lemma stripped_ex:
  "list_ex (\<lambda>t. endswith t e) (map (drop (length p)) (filter (\<lambda>l. startswith l p) ls)) \<longleftrightarrow>
   list_ex (\<lambda>l. \<exists>t. l = p @ t @ e) ls"
  unfolding list_ex_iff stripped_mem endswith_iff Bex_def by auto

section \<open>Properties\<close>

text \<open>The gate accepts a wheel exactly when it is what it must be: both assets are members, the metadata
  has the manylinux tag of the architecture and no universal tag, the sidecar has an executable bit and
  is a little-endian ELF file for the architecture, and the BPF object is one for the BPF machine. The
  wheel has one metadata file, and it can be read.\<close>

theorem verify_wheel_exact:
  assumes "meta \<in> set (wh_names w)" and "endswith meta ''.dist-info/WHEEL''"
    and "\<And>name. name \<in> set (wh_names w) \<Longrightarrow> endswith name ''.dist-info/WHEEL'' \<Longrightarrow> name = meta"
    and "wh_lines w meta = Inr lines"
  shows "verify_wheel w architecture = Inr () \<longleftrightarrow>
    {SIDECAR, BPF_OBJECT} \<subseteq> set (wh_names w) \<and>
    ''Tag: py3-none-manylinux_2_28_'' @ architecture \<in> set lines \<and>
    \<not> list_ex (\<lambda>line. \<exists>t. line = ''Tag: '' @ t @ ''-any'') lines \<and>
    (wh_attr w SIDECAR div 2 ^ 16) AND 73 \<noteq> 0 \<and>
    (\<exists>m. dict_get ARCH_MACHINE architecture = Some m \<and> elf_for m (wh_bytes w SIDECAR)) \<and>
    elf_for 247 (wh_bytes w BPF_OBJECT)"
proof -
  have found: "List.find (\<lambda>name. endswith name ''.dist-info/WHEEL'') (wh_names w) = Some meta"
    using find_unique [where P = "\<lambda>name. endswith name ''.dist-info/WHEEL''", OF assms(1)] assms(2,3) by blast
  have tag: "t \<in> set (wheel_tags lines) \<longleftrightarrow> ''Tag: '' @ t \<in> set lines" for t
    unfolding wheel_tags_def by (rule stripped_mem)
  have any: "list_ex (\<lambda>t. endswith t ''-any'') (wheel_tags lines) \<longleftrightarrow>
      list_ex (\<lambda>line. \<exists>t. line = ''Tag: '' @ t @ ''-any'') lines"
    unfolding wheel_tags_def by (rule stripped_ex)
  have machine: "bind_result (elf_machine (take 64 (wh_bytes w SIDECAR))) (\<lambda>machine.
        bind_result (arch_machine architecture) (\<lambda>expected.
          if machine \<noteq> expected then Inl AssertionError else rest)) = Inr () \<longleftrightarrow>
      (\<exists>m. dict_get ARCH_MACHINE architecture = Some m \<and> elf_for m (wh_bytes w SIDECAR)) \<and> rest = Inr ()" for rest
    unfolding elf_machine_iff [symmetric]
    by (cases "elf_machine (take 64 (wh_bytes w SIDECAR))") (auto simp: arch_machine_def split: option.split)
  have bpf: "bind_result (elf_machine (take 64 (wh_bytes w BPF_OBJECT))) (\<lambda>m.
        if m \<noteq> BPF_MACHINE then Inl AssertionError else Inr ()) = Inr () \<longleftrightarrow> elf_for 247 (wh_bytes w BPF_OBJECT)"
    unfolding elf_machine_iff [symmetric]
    by (cases "elf_machine (take 64 (wh_bytes w BPF_OBJECT))") (auto simp: BPF_MACHINE_def)
  show ?thesis
    unfolding verify_wheel_def found option.case assms(4) bind_result_simps
    using machine [of "bind_result (elf_machine (take 64 (wh_bytes w BPF_OBJECT))) (\<lambda>m.
        if m \<noteq> BPF_MACHINE then Inl AssertionError else Inr ())"] bpf tag any
    by (auto simp: EXEC_BITS_def split: if_splits)
qed

text \<open>C40: What a build leaves. A build that is not a native one, wherever it runs and whatever tree it reuses,
  leaves neither the sidecar nor the BPF object, touches nothing else, and keeps the tag of a portable
  wheel. A native build on Linux whose asset directory holds a sidecar for the architecture and an
  object for the BPF machine leaves a tree that the gate accepts once it is installed, on a Linux host
  without \<open>BLOCKSNOOP_EBPF\<close>: the assets are in place, executable and right, and the sidecar lookup of
  that package finds the packaged one, whatever \<open>PATH\<close> holds. Copying a file keeps its bytes, and a file
  with all executable bits may be executed.\<close>

theorem native_build_passes_gate:
  "(\<not> native_wheel_enabled env \<longrightarrow>
     (\<exists>t'. build_py_run env (Inr t) = Inr t' \<and> t' SIDECAR = None \<and> t' BPF_OBJECT = None \<and>
       (\<forall>path. path \<noteq> SIDECAR \<and> path \<noteq> BPF_OBJECT \<longrightarrow> t' path = t path) \<and> get_tag env tag = tag)) \<and>
   (native_wheel_enabled env \<and> be_platform env = ''linux'' \<and> be_asset_dir env = Some (c # cs) \<and>
     be_source env (path_str (below (path_of (c # cs)) [''blocksnoop-ebpf''])) = Some sidecar \<and>
     be_source env (path_str (below (path_of (c # cs)) [''core_blockdetect.bpf.o''])) = Some bpf_object \<and>
     dict_get ARCH_MACHINE architecture = Some m \<and> elf_for m (af_data sidecar) \<and> elf_for 247 (af_data bpf_object) \<and>
     (\<forall>f. af_data (be_copy env f) = af_data f) \<and> (\<forall>f. af_mode f AND 73 = 73 \<longrightarrow> may_execute f) \<and>
     env_BLOCKSNOOP_EBPF host = None \<and> env_platform host = ''linux'' \<longrightarrow>
     (\<exists>t'. build_py_run env (Inr t) = Inr t' \<and>
       verify_installed host \<lparr>in_root = package, in_tree = t', in_may_execute = may_execute\<rparr> architecture = Inr ()))"
proof (intro conjI impI)
  assume portable: "\<not> native_wheel_enabled env"
  have "remove_native_assets t = t(SIDECAR := None, BPF_OBJECT := None)"
    by (simp only: remove_native_assets_def SIDECAR_def BPF_OBJECT_def)
  then have "build_py_run env (Inr t) = Inr (t(SIDECAR := None, BPF_OBJECT := None))"
    using portable by (simp add: build_py_run_def)
  with portable show "\<exists>t'. build_py_run env (Inr t) = Inr t' \<and> t' SIDECAR = None \<and> t' BPF_OBJECT = None \<and>
      (\<forall>path. path \<noteq> SIDECAR \<and> path \<noteq> BPF_OBJECT \<longrightarrow> t' path = t path) \<and> get_tag env tag = tag"
    by (intro exI [of _ "t(SIDECAR := None, BPF_OBJECT := None)"]) (simp add: get_tag_def)
next
  assume native: "native_wheel_enabled env \<and> be_platform env = ''linux'' \<and> be_asset_dir env = Some (c # cs) \<and>
     be_source env (path_str (below (path_of (c # cs)) [''blocksnoop-ebpf''])) = Some sidecar \<and>
     be_source env (path_str (below (path_of (c # cs)) [''core_blockdetect.bpf.o''])) = Some bpf_object \<and>
     dict_get ARCH_MACHINE architecture = Some m \<and> elf_for m (af_data sidecar) \<and> elf_for 247 (af_data bpf_object) \<and>
     (\<forall>f. af_data (be_copy env f) = af_data f) \<and> (\<forall>f. af_mode f AND 73 = 73 \<longrightarrow> may_execute f) \<and>
     env_BLOCKSNOOP_EBPF host = None \<and> env_platform host = ''linux''"
  define t' where "t' = fold (install_asset env) (asset_sources (c # cs)) t"
  define placed where "placed = (be_copy env sidecar)\<lparr>af_mode := af_mode (be_copy env sidecar) OR EXEC_BITS\<rparr>"
  define inst where "inst = \<lparr>in_root = package, in_tree = t', in_may_execute = may_execute\<rparr>"
  have run: "build_py_run env (Inr t) = Inr t'"
    using native by (simp add: build_py_run_def Let_def t'_def) (simp add: asset_sources_def)
  have files: "t' SIDECAR = Some placed" "t' BPF_OBJECT = Some (be_copy env bpf_object)"
    using native by (simp_all add: t'_def placed_def asset_sources_def install_asset_def SIDECAR_def BPF_OBJECT_def Let_def)
  have machine: "arch_machine architecture = Inr m"
    using native by (simp add: arch_machine_def)
  have executable: "may_execute placed"
    using native exec_bits_set by (simp add: placed_def EXEC_BITS_def)
  have "find_sidecar (installed_host host inst) DEFAULT_SIDECAR =
      Some (path_str (below (path_of package) [''_native'', ''blocksnoop-ebpf'']))"
    using native executable by (simp add: find_sidecar_def packaged_sidecar_def installed_host_def inst_def files)
  moreover have "verify_elf placed m = Inr ()" "verify_elf (be_copy env bpf_object) BPF_MACHINE = Inr ()"
    using native by (simp_all add: verify_elf_iff BPF_MACHINE_def placed_def)
  ultimately have "verify_installed host inst architecture = Inr ()"
    using executable by (simp add: verify_installed_def machine inst_def files)
  with run show "\<exists>t'. build_py_run env (Inr t) = Inr t' \<and>
      verify_installed host \<lparr>in_root = package, in_tree = t', in_may_execute = may_execute\<rparr> architecture = Inr ()"
    by (intro exI [of _ t']) (simp add: inst_def)
qed

section \<open>Concrete packages\<close>

definition elf_file :: "8 word \<Rightarrow> 8 word list" where
  "elf_file lo = [0x7F, 0x45, 0x4C, 0x46, 2, 1] @ replicate 10 0 @ [2, 0] @ [lo, 0] @ []"

lemma elf_file_for: "elf_for (unat lo) (elf_file lo)"
  unfolding elf_for_def
  by (intro exI [of _ 2] exI [of _ "replicate 10 0"] exI [of _ "[2, 0]"] exI [of _ "[]"] exI [of _ lo] exI [of _ 0])
     (simp add: elf_file_def)

lemma elf_files: "elf_for 62 (elf_file 62)" "elf_for 247 (elf_file 247)"
  using elf_file_for [of 62] elf_file_for [of 247] by simp_all

definition good_wheel :: wheel where
  "good_wheel = \<lparr>wh_names = [BPF_OBJECT, ''b.dist-info/WHEEL'', SIDECAR], wh_attr = (\<lambda>_. 73 * 2 ^ 16),
     wh_bytes = (\<lambda>name. elf_file (if name = SIDECAR then 62 else 247)),
     wh_lines = (\<lambda>_. Inr [''Tag: py3-none-manylinux_2_28_x86_64''])\<rparr>"

lemma verify_wheel_exact_witness: "verify_wheel good_wheel ''x86_64'' = Inr ()"
proof -
  have other: "\<not> endswith SIDECAR ''.dist-info/WHEEL''" "\<not> endswith BPF_OBJECT ''.dist-info/WHEEL''"
    by (simp_all add: endswith_def startswith_def SIDECAR_def BPF_OBJECT_def)
  have meta: "endswith ''b.dist-info/WHEEL'' ''.dist-info/WHEEL''"
    by (simp add: endswith_def startswith_def)
  have distinct: "SIDECAR \<noteq> BPF_OBJECT"
    by (simp add: SIDECAR_def BPF_OBJECT_def)
  have tag: "\<not> (\<exists>t. ''Tag: py3-none-manylinux_2_28_x86_64'' = ''Tag: '' @ t @ ''-any'')"
  proof -
    have "\<not> endswith ''Tag: py3-none-manylinux_2_28_x86_64'' ''-any''"
      by (simp add: endswith_def startswith_def)
    then show ?thesis
      unfolding endswith_iff by (metis append_assoc)
  qed
  have "verify_wheel good_wheel ''x86_64'' = Inr () \<longleftrightarrow>
    {SIDECAR, BPF_OBJECT} \<subseteq> set (wh_names good_wheel) \<and>
    ''Tag: py3-none-manylinux_2_28_'' @ ''x86_64'' \<in> set [''Tag: py3-none-manylinux_2_28_x86_64''] \<and>
    \<not> list_ex (\<lambda>line. \<exists>t. line = ''Tag: '' @ t @ ''-any'') [''Tag: py3-none-manylinux_2_28_x86_64''] \<and>
    (wh_attr good_wheel SIDECAR div 2 ^ 16) AND 73 \<noteq> 0 \<and>
    (\<exists>m. dict_get ARCH_MACHINE ''x86_64'' = Some m \<and> elf_for m (wh_bytes good_wheel SIDECAR)) \<and>
    elf_for 247 (wh_bytes good_wheel BPF_OBJECT)"
  proof (rule verify_wheel_exact)
    show "''b.dist-info/WHEEL'' \<in> set (wh_names good_wheel)"
      by (simp add: good_wheel_def)
    show "endswith ''b.dist-info/WHEEL'' ''.dist-info/WHEEL''"
      by (rule meta)
    show "name = ''b.dist-info/WHEEL''" if "name \<in> set (wh_names good_wheel)" "endswith name ''.dist-info/WHEEL''" for name
      using that other unfolding good_wheel_def by auto
    show "wh_lines good_wheel ''b.dist-info/WHEEL'' = Inr [''Tag: py3-none-manylinux_2_28_x86_64'']"
      by (simp add: good_wheel_def)
  qed
  moreover have "dict_get ARCH_MACHINE ''x86_64'' = Some 62"
    by (simp add: ARCH_MACHINE_def dict_get_def)
  ultimately show ?thesis
    using elf_files tag distinct by (simp add: good_wheel_def)
qed

definition native_build :: build_env where
  "native_build = \<lparr>be_native_wheel = Some ''1'', be_asset_dir = Some ''out'', be_platform = ''linux'',
     be_source = (\<lambda>path. if path = ''out/blocksnoop-ebpf'' then Some \<lparr>af_mode = 420, af_data = elf_file 62\<rparr>
       else Some \<lparr>af_mode = 420, af_data = elf_file 247\<rparr>),
     be_copy = (\<lambda>f. f)\<rparr>"

text \<open>A host where another sidecar is on \<open>PATH\<close>.\<close>

definition site_host :: host_env where
  "site_host = \<lparr>env_BLOCKSNOOP_EBPF = None, env_platform = ''linux'', env_which = (\<lambda>_. Some ''/usr/bin/blocksnoop-ebpf''),
     env_packaged = [], env_packaged_is_file = False, env_packaged_executable = False\<rparr>"

lemma native_build_passes_gate_witness:
  "\<exists>t'. build_py_run native_build (Inr Map.empty) = Inr t' \<and>
     verify_installed site_host \<lparr>in_root = ''/s/blocksnoop'', in_tree = t', in_may_execute = (\<lambda>f. af_mode f AND 73 = 73)\<rparr>
       ''x86_64'' = Inr ()"
proof -
  have paths: "path_str (below (path_of ''out'') [''blocksnoop-ebpf'']) = ''out/blocksnoop-ebpf''"
    "path_str (below (path_of ''out'') [''core_blockdetect.bpf.o'']) = ''out/core_blockdetect.bpf.o''"
    by (simp_all add: path_str_def below_def path_of_def startswith_def)
  have machine: "dict_get ARCH_MACHINE ''x86_64'' = Some 62"
    by (simp add: ARCH_MACHINE_def dict_get_def)
  show ?thesis
    by (rule native_build_passes_gate [THEN conjunct2, rule_format, where c = "CHR ''o''" and cs = "''ut''" and m = 62
          and sidecar = "\<lparr>af_mode = 420, af_data = elf_file 62\<rparr>" and bpf_object = "\<lparr>af_mode = 420, af_data = elf_file 247\<rparr>"])
      (simp add: native_build_def site_host_def paths elf_files machine native_wheel_enabled_def)
qed

end
