(* ===== verification/EventLoop.thy ===== *)
theory EventLoop
  imports Probes Sha256 JsonText "HOL-Library.State_Monad"
begin

text \<open>
  The event loop of the demonstration servers under \<open>examples/\<close>: what a coroutine does on the thread of
  the loop, the iterations the loop runs between two epoll calls, and which of them the kernel
  probes report.
\<close>

section \<open>What a coroutine does\<close>

text \<open>The steps of the loop's thread. \<open>Calls\<close> marks the entry into a function of the program; \<open>Library\<close> is
  synchronous work of the standard library on small data (SQLite in memory, \<open>json\<close>, \<open>re\<close>, a temporary
  file); \<open>Sleeps\<close> is \<open>time.sleep\<close> in seconds; \<open>Hashes\<close> is a loop of that many rounds of SHA-256; \<open>Awaits\<close>
  suspends the coroutine. What \<open>asyncio.to_thread\<close> runs, it does on another thread.\<close>

datatype step =
    Calls string
  | Library string
  | Prints string
  | Sleeps rat
  | Hashes nat
  | Awaits awaitable
and awaitable = AsyncSleep rat | InThread "step list" | Gathered "step list list"

text \<open>The state of a process: its database, and the steps a coroutine has done. \<open>time.time()\<close>, \<open>hash\<close> of a
  string, the paths of \<open>tempfile.mkstemp\<close>, the text of floats, and what other tasks do to the database
  while the coroutine is suspended are parameters of the run.\<close>

record 'd process =
  pr_db :: 'd
  pr_steps :: "step list"
  pr_time :: "nat \<Rightarrow> rat"
  pr_hash :: "string \<Rightarrow> int"
  pr_tmp :: "nat \<Rightarrow> string"
  pr_floats :: float_text
  pr_others :: "nat \<Rightarrow> 'd \<Rightarrow> 'd"

type_synonym ('d, 'a) io = "('d process, 'a) state"

definition does :: "step \<Rightarrow> ('d, unit) io" where
  "does st = State (\<lambda>s. ((), s\<lparr>pr_steps := pr_steps s @ [st]\<rparr>))"

text \<open>What a coroutine reads of its process, which may change from step to step, and how it changes the
  database.\<close>

definition asks :: "('d process \<Rightarrow> nat \<Rightarrow> 'a) \<Rightarrow> ('d, 'a) io" where
  "asks f = State (\<lambda>s. (f s (length (pr_steps s)), s))"

definition commits :: "('d \<Rightarrow> 'd) \<Rightarrow> ('d, unit) io" where
  "commits f = State (\<lambda>s. ((), s\<lparr>pr_db := f (pr_db s)\<rparr>))"

definition time_sleep :: "rat \<Rightarrow> ('d, unit) io" where
  "time_sleep secs = does (Sleeps secs)"

definition print_line :: "string \<Rightarrow> ('d, unit) io" where
  "print_line s = does (Prints s)"

text \<open>Suspended, a coroutine finds on its return what the others have left.\<close>

definition suspends :: "awaitable \<Rightarrow> ('d, unit) io" where
  "suspends w = do {
     does (Awaits w);
     others \<leftarrow> asks pr_others;
     commits others
   }"

definition asyncio_sleep :: "rat \<Rightarrow> ('d, unit) io" where
  "asyncio_sleep secs = suspends (AsyncSleep secs)"

text \<open>The value of a function, with its steps apart: they are not steps of the coroutine.\<close>

definition apart :: "('d, 'a) io \<Rightarrow> ('d, 'a \<times> step list) io" where
  "apart f = State (\<lambda>s.
     case run_state f (s\<lparr>pr_steps := []\<rparr>) of (v, s') \<Rightarrow> ((v, pr_steps s'), s'\<lparr>pr_steps := pr_steps s\<rparr>))"

text \<open>\<open>await asyncio.to_thread(f, ...)\<close> and \<open>await asyncio.gather(...)\<close>\<close>

definition to_thread :: "('d, 'a) io \<Rightarrow> ('d, 'a) io" where
  "to_thread f = do {
     (v, ss) \<leftarrow> apart f;
     suspends (InThread ss);
     State_Monad.return v
   }"

fun run_children :: "('d, 'a) io list \<Rightarrow> ('d, 'a list \<times> step list list) io" where
  "run_children [] = State_Monad.return ([], [])"
| "run_children (f # fs) = do {
     (v, ss) \<leftarrow> apart f;
     (vs, sss) \<leftarrow> run_children fs;
     State_Monad.return (v # vs, ss # sss)
   }"

definition gather :: "('d, 'a) io list \<Rightarrow> ('d, 'a list) io" where
  "gather fs = do {
     (vs, sss) \<leftarrow> run_children fs;
     suspends (Gathered sss);
     State_Monad.return vs
   }"

text \<open>\<open>hashlib.sha256(data).digest()\<close> and \<open>bytes.hex\<close>, with bytes as characters.\<close>

definition word_bytes :: "sha_word \<Rightarrow> string" where
  "word_bytes w = map (\<lambda>k. char_of (uint (drop_bit k w AND 255))) [24, 16, 8, 0]"

definition sha256_digest :: "string \<Rightarrow> string" where
  "sha256_digest s =
     concat (map word_bytes
       (sha_blocks initial_hash (to_words (sha_pad (map (\<lambda>c. word_of_int (of_char c)) s)))))"

definition bytes_hex :: "string \<Rightarrow> string" where
  "bytes_hex bs = concat (map (\<lambda>c. [hex_digit (of_char c div 16), hex_digit (of_char c mod 16)]) bs)"

text \<open>\<open>for _ in range(n): result = hashlib.sha256(result).digest()\<close>\<close>

definition hash_rounds :: "nat \<Rightarrow> string \<Rightarrow> ('d, string) io" where
  "hash_rounds n data = do {
     does (Hashes n);
     State_Monad.return ((sha256_digest ^^ n) data)
   }"

text \<open>ASCII \<open>\w\<close> of \<open>re\<close>.\<close>

definition word_char :: "char \<Rightarrow> bool" where
  "word_char c \<longleftrightarrow>
     (let n = of_char c :: nat
      in n = 95 \<or> 48 \<le> n \<and> n \<le> 57 \<or> 65 \<le> n \<and> n \<le> 90 \<or> 97 \<le> n \<and> n \<le> 122)"

section \<open>The steps of a function, whatever the data\<close>

named_theorems outlines "the steps of the functions of a demonstration server"

fun untexted :: "step \<Rightarrow> step" where
  "untexted (Prints _) = Prints []"
| "untexted st = st"

definition outline :: "('d, 'a) io \<Rightarrow> step list \<Rightarrow> bool" where
  "outline m ks \<longleftrightarrow> (\<forall>s. \<exists>ss. pr_steps (snd (run_state m s)) = pr_steps s @ ss \<and> map untexted ss = ks)"

lemma outline_bind: "outline m ks \<Longrightarrow> (\<And>x. outline (f x) ls) \<Longrightarrow> outline (State_Monad.bind m f) (ks @ ls)"
  unfolding outline_def by (simp add: split_beta) (metis append.assoc map_append)

lemma outline_cong: "outline m ks \<Longrightarrow> ks = ls \<Longrightarrow> outline m ls"
  by simp

lemma outline_return [outlines]: "outline (State_Monad.return x) []"
  and outline_asks [outlines]: "outline (asks f) []"
  and outline_commits [outlines]: "outline (commits g) []"
  and outline_does: "outline (does st) [untexted st]"
  by (simp_all add: outline_def asks_def commits_def does_def)

lemma outline_print [outlines]: "outline (print_line s) [Prints []]"
  by (simp add: outline_def print_line_def does_def)

lemma outline_if: "outline m ks \<Longrightarrow> outline m' ls \<Longrightarrow> outline (if b then m else m') (if b then ks else ls)"
  by simp

lemma run_suspends: "pr_steps (snd (run_state (suspends w) s)) = pr_steps s @ [Awaits w]"
  by (simp add: suspends_def does_def asks_def commits_def)

lemma outline_suspends: "outline (suspends w) [Awaits w]"
  by (simp add: outline_def run_suspends)

fun prints :: "step \<Rightarrow> bool" where
  "prints (Prints _) = True"
| "prints _ = False"

lemma untexted_eq: "\<not> prints (untexted st) \<Longrightarrow> untexted st = st"
  by (cases st) simp_all

lemma untexted_fixed: "list_all (\<lambda>k. \<not> prints k) (map untexted ss) \<Longrightarrow> map untexted ss = ss"
  by (induction ss) (auto intro: untexted_eq)

lemma run_apart:
  assumes "outline f ks" and "list_all (\<lambda>k. \<not> prints k) ks"
  shows "\<exists>v s'. run_state (apart f) s = ((v, ks), s') \<and> pr_steps s' = pr_steps s"
proof -
  obtain ss where "pr_steps (snd (run_state f (s\<lparr>pr_steps := []\<rparr>))) = ss" "map untexted ss = ks"
    using assms(1) [unfolded outline_def, rule_format, of "s\<lparr>pr_steps := []\<rparr>"] by auto
  with assms(2) untexted_fixed have "pr_steps (snd (run_state f (s\<lparr>pr_steps := []\<rparr>))) = ks"
    by metis
  then show ?thesis
    by (simp add: apart_def split_beta)
qed

lemma outline_to_thread:
  assumes "outline f ks" and "list_all (\<lambda>k. \<not> prints k) ks"
  shows "outline (to_thread f) [Awaits (InThread ks)]"
proof -
  have "pr_steps (snd (run_state (to_thread f) s)) = pr_steps s @ [Awaits (InThread ks)]" for s
    using run_apart [OF assms, of s] by (auto simp: to_thread_def split_beta run_suspends)
  then show ?thesis
    by (simp add: outline_def)
qed

lemma run_children_apart:
  assumes "list_all (\<lambda>f. outline f ks) fs" and "list_all (\<lambda>k. \<not> prints k) ks"
  shows "\<exists>vs s'. run_state (run_children fs) s = ((vs, replicate (length fs) ks), s') \<and> pr_steps s' = pr_steps s"
  using assms(1)
proof (induction fs arbitrary: s)
  case (Cons f fs)
  obtain v s1 where "run_state (apart f) s = ((v, ks), s1)" "pr_steps s1 = pr_steps s"
    using run_apart [OF _ assms(2), of f s] Cons.prems by auto
  with Cons.IH [of s1] Cons.prems show ?case
    by auto
qed simp

lemma outline_gather:
  assumes "list_all (\<lambda>f. outline f ks) fs" and "list_all (\<lambda>k. \<not> prints k) ks"
  shows "outline (gather fs) [Awaits (Gathered (replicate (length fs) ks))]"
proof -
  have "pr_steps (snd (run_state (gather fs) s)) = pr_steps s @ [Awaits (Gathered (replicate (length fs) ks))]" for s
    using run_children_apart [OF assms, of s] by (auto simp: gather_def split_beta run_suspends)
  then show ?thesis
    by (simp add: outline_def)
qed

section \<open>What runs between two epoll calls\<close>

text \<open>The stretches of a coroutine from one suspension to the next; an unfinished one is left out.\<close>

fun awaits :: "step \<Rightarrow> bool" where
  "awaits (Awaits _) = True"
| "awaits _ = False"

fun segments_from :: "step list \<Rightarrow> step list \<Rightarrow> step list list" where
  "segments_from acc [] = []"
| "segments_from acc (st # ss) =
     (if awaits st then (acc @ [st]) # segments_from [] ss else segments_from (acc @ [st]) ss)"

abbreviation segments :: "step list \<Rightarrow> step list list" where
  "segments ss \<equiv> segments_from [] ss"

fun blocking :: "step \<Rightarrow> bool" where
  "blocking (Sleeps _) = True"
| "blocking (Hashes _) = True"
| "blocking _ = False"

text \<open>One iteration of the loop, between the return of an epoll call and the next one: its times in
  nanoseconds, and the callbacks it ran with their steps; a callback of a task carries its number,
  one of the loop itself (a timer, the wake-up pipe, a result handed over by a thread) carries none.\<close>

record iteration =
  it_start :: nat
  it_end :: nat
  it_callbacks :: "(nat option \<times> step list) list"

definition it_steps :: "iteration \<Rightarrow> step list" where
  "it_steps it = concat (map snd (it_callbacks it))"

definition loop_times :: "iteration list \<Rightarrow> (probe \<times> nat) list" where
  "loop_times its = concat (map (\<lambda>it. [(SysExit, it_start it), (SysEnter, it_end it)]) its)"

text \<open>What the probes see of these iterations: each starts with the return of an epoll call and ends with
  the entry into the next one. The entry into the first call may have been seen as well.\<close>

definition loop_trace :: "iteration list \<Rightarrow> (probe \<times> nat) list \<Rightarrow> bool" where
  "loop_trace its seen \<longleftrightarrow>
     seen = loop_times its \<or>
     (\<exists>t. seen = (SysEnter, t) # loop_times its \<and> (\<forall>it \<in> set its. t \<le> it_start it \<and> t \<le> it_end it))"

text \<open>The time that steps take at least, in nanoseconds: \<open>time.sleep\<close> returns no earlier than asked, and a
  round of SHA-256 takes at least \<open>round_ns\<close>.\<close>

definition busy_ns :: "rat \<Rightarrow> step list \<Rightarrow> rat" where
  "busy_ns round_ns ss =
     sum_list (map (\<lambda>st. case st of Sleeps secs \<Rightarrow> secs * 10 ^ 9 | Hashes n \<Rightarrow> of_nat n * round_ns | _ \<Rightarrow> 0) ss)"

definition outlasts :: "rat \<Rightarrow> nat \<Rightarrow> step list \<Rightarrow> bool" where
  "outlasts round_ns limit ss \<longleftrightarrow> of_nat limit < busy_ns round_ns ss"

text \<open>The clock does not run backwards, what sleeps or hashes takes its time, and an iteration that does
  neither stays within the limit.\<close>

definition well_timed :: "rat \<Rightarrow> nat \<Rightarrow> iteration list \<Rightarrow> bool" where
  "well_timed round_ns limit its \<longleftrightarrow>
     sorted (map snd (loop_times its)) \<and>
     list_all (\<lambda>it. busy_ns round_ns (it_steps it) \<le> of_nat (it_end it - it_start it) \<and>
       (list_ex blocking (it_steps it) \<or> it_end it - it_start it \<le> limit)) its"

text \<open>What task \<open>k\<close> did in the iterations.\<close>

definition task_segments :: "nat \<Rightarrow> iteration list \<Rightarrow> step list list" where
  "task_segments k its = map snd (filter (\<lambda>c. fst c = Some k) (concat (map it_callbacks its)))"

lemma phases_loop_times: "phases None (loop_times its) = map (\<lambda>it. (it_start it, it_end it)) its"
  by (induction its) (simp_all add: loop_times_def)

lemma loop_trace_phases:
  assumes "loop_trace its seen" and "sorted (map snd (loop_times its))"
  shows "phases None seen = map (\<lambda>it. (it_start it, it_end it)) its" "sorted (map snd seen)"
  using assms by (auto simp: loop_trace_def phases_loop_times) (auto simp: loop_times_def)

text \<open>The probes report exactly the iterations with a blocking step.\<close>

lemma reported_iterations:
  assumes "loop_trace its (target_times p hits)" and "well_timed round_ns (unat (pp_threshold_ns p)) its"
    and "list_all (\<lambda>it. list_ex blocking (it_steps it) \<longrightarrow> outlasts round_ns (unat (pp_threshold_ns p)) (it_steps it)) its"
  shows "submitted (run_probes p hits) =
    map (\<lambda>it. event_of_phase p (it_start it, it_end it)) (filter (\<lambda>it. list_ex blocking (it_steps it)) its)"
proof -
  let ?thr = "unat (pp_threshold_ns p)"
  have long: "?thr < it_end it - it_start it \<longleftrightarrow> list_ex blocking (it_steps it)" if "it \<in> set its" for it
  proof
    assume "list_ex blocking (it_steps it)"
    with assms(2,3) that have "of_nat ?thr < busy_ns round_ns (it_steps it)"
      and "busy_ns round_ns (it_steps it) \<le> of_nat (it_end it - it_start it)"
      by (auto simp: list_all_iff outlasts_def well_timed_def)
    then show "?thr < it_end it - it_start it"
      by (metis less_le_trans of_nat_less_iff)
  next
    assume "?thr < it_end it - it_start it"
    with assms(2) that show "list_ex blocking (it_steps it)"
      by (auto simp: list_all_iff well_timed_def)
  qed
  have trace: "phases None (target_times p hits) = map (\<lambda>it. (it_start it, it_end it)) its"
    "ordered None (target_times p hits)"
    using loop_trace_phases [OF assms(1)] assms(2) by (simp_all add: ordered_def well_timed_def)
  from fold_hits [OF trace(2), of "[]"] have "submitted (run_probes p hits) =
      map (event_of_phase p) (filter (\<lambda>ph. ?thr < snd ph - fst ph) (map (\<lambda>it. (it_start it, it_end it)) its))"
    by (simp add: run_probes_def state_of_def reported_def trace(1))
  then show ?thesis
    using long by (simp add: filter_map comp_def cong: filter_cong)
qed

section \<open>What a server announces as flagged\<close>

fun announced :: "string list \<Rightarrow> step \<Rightarrow> bool" where
  "announced names (Calls f) = (f \<in> set names)"
| "announced names _ = False"

fun housekeeping :: "step \<Rightarrow> bool" where
  "housekeeping (Library _) = True"
| "housekeeping _ = False"

text \<open>A stretch that blocks exactly when it calls one of the names, and then for longer than the limit.\<close>

text \<open>The names an announcement lists: its words, without the comma behind them, that are identifiers. The
  remarks in parentheses and the heading are not.\<close>

definition listed_names :: "string \<Rightarrow> string list" where
  "listed_names text =
     filter (\<lambda>w. w \<noteq> [] \<and> list_all word_char w) (map (takeWhile (\<lambda>c. c \<noteq> CHR '','')) (split_ws text))"

text \<open>Of the functions called, those are announced that block before they do anything else.\<close>

fun judged :: "string list \<Rightarrow> step list \<Rightarrow> bool" where
  "judged names (a # b # ss) \<longleftrightarrow>
     (case a of Calls f \<Rightarrow> f \<in> set names \<longleftrightarrow> blocking b | _ \<Rightarrow> True) \<and> judged names (b # ss)"
| "judged names ss \<longleftrightarrow> True"

fun is_call :: "step \<Rightarrow> bool" where
  "is_call (Calls f) = True"
| "is_call _ = False"

lemma judged_Cons: "\<not> is_call a \<Longrightarrow> judged names (a # ss) = judged names ss"
  by (cases ss; cases a) simp_all

lemma judged_append:
  assumes "judged names xs" and "judged names ys" and "xs \<noteq> [] \<Longrightarrow> \<not> is_call (last xs)"
  shows "judged names (xs @ ys)"
  using assms by (induction names xs rule: judged.induct) (auto simp: judged_Cons)

lemma judged_concat:
  "(\<And>ss. ss \<in> set sss \<Longrightarrow> judged names ss \<and> (ss \<noteq> [] \<longrightarrow> \<not> is_call (last ss))) \<Longrightarrow> judged names (concat sss)"
  by (induction sss) (auto intro!: judged_append)

lemma judged_called:
  "judged names (xs @ Calls f # st # ys) \<Longrightarrow> f \<in> set names \<longleftrightarrow> blocking st"
proof (induction xs)
  case (Cons a xs)
  then show ?case
    by (cases xs) auto
qed simp

definition as_announced :: "string list \<Rightarrow> rat \<Rightarrow> nat \<Rightarrow> step list \<Rightarrow> bool" where
  "as_announced names round_ns limit seg \<longleftrightarrow>
     (list_ex blocking seg \<longleftrightarrow> list_ex (announced names) seg) \<and>
     (list_ex blocking seg \<longrightarrow> outlasts round_ns limit seg) \<and> 0 \<le> busy_ns round_ns seg"

text \<open>Besides the callbacks of the tasks, an iteration runs those of the loop.\<close>

definition runs_announced :: "string list \<Rightarrow> rat \<Rightarrow> nat \<Rightarrow> iteration \<Rightarrow> bool" where
  "runs_announced names round_ns limit it \<longleftrightarrow>
     list_all (\<lambda>(k, seg). if k = None then list_all housekeeping seg else as_announced names round_ns limit seg)
       (it_callbacks it)"

lemma busy_ns_append [simp]: "busy_ns r (ss @ ss') = busy_ns r ss + busy_ns r ss'"
  and busy_ns_Nil [simp]: "busy_ns r [] = 0"
  by (simp_all add: busy_ns_def)

lemma housekeeping_steps:
  "list_all housekeeping seg \<Longrightarrow> busy_ns r seg = 0 \<and> \<not> list_ex blocking seg \<and> \<not> list_ex (announced names) seg"
  by (induction seg) (auto simp: busy_ns_def elim: housekeeping.elims)

lemma runs_announced_steps:
  assumes "runs_announced names r limit it"
  shows "as_announced names r limit (it_steps it)"
proof -
  have "as_announced names r limit (concat (map snd cs))"
    if "list_all (\<lambda>(k, seg). if k = None then list_all housekeeping seg else as_announced names r limit seg) cs" for cs :: "(nat option \<times> step list) list"
    using that
  proof (induction cs)
    case (Cons c cs)
    then show ?case
      using housekeeping_steps [of "snd c" r names]
      by (cases "fst c") (auto simp: as_announced_def outlasts_def split_beta)
  qed (simp add: as_announced_def)
  then show ?thesis
    using assms by (simp add: runs_announced_def it_steps_def)
qed

lemma announced_iterations:
  assumes "loop_trace its (target_times p hits)" and "well_timed r (unat (pp_threshold_ns p)) its"
    and "list_all (runs_announced names r (unat (pp_threshold_ns p))) its"
  shows "submitted (run_probes p hits) =
    map (\<lambda>it. event_of_phase p (it_start it, it_end it)) (filter (\<lambda>it. list_ex (announced names) (it_steps it)) its)"
proof -
  have all: "\<forall>it \<in> set its. as_announced names r (unat (pp_threshold_ns p)) (it_steps it)"
    using assms(3) runs_announced_steps by (auto simp: list_all_iff)
  then have "submitted (run_probes p hits) =
      map (\<lambda>it. event_of_phase p (it_start it, it_end it)) (filter (\<lambda>it. list_ex blocking (it_steps it)) its)"
    by (intro reported_iterations [OF assms(1,2)]) (auto simp: list_all_iff as_announced_def)
  then show ?thesis
    using all by (simp add: as_announced_def cong: filter_cong)
qed

text \<open>Stretches, and what is said of a function called, depend on the steps up to the text they print.\<close>

lemma untexted_preds [simp]:
  "awaits (untexted st) = awaits st" "blocking (untexted st) = blocking st" "announced names (untexted st) = announced names st"
  by (cases st; simp)+

lemma judged_untexted: "judged names (map untexted ss) = judged names ss"
proof (induction names ss rule: judged.induct)
  case (1 names a b ss)
  then show ?case
    by (cases a) simp_all
qed simp_all

lemma busy_ns_untexted: "busy_ns r (map untexted ss) = busy_ns r ss"
proof (induction ss)
  case (Cons st ss)
  then show ?case
    by (cases st) (simp_all add: busy_ns_def)
qed simp

lemma segments_untexted: "map (map untexted) (segments_from acc ss) = segments_from (map untexted acc) (map untexted ss)"
  by (induction ss arbitrary: acc) simp_all

lemma list_ex_untexted: "list_ex (\<lambda>st. P st) (map untexted ss) = list_ex (\<lambda>st. P (untexted st)) ss"
  by (simp add: list_ex_iff)

lemma as_announced_untexted: "as_announced names r limit (map untexted seg) = as_announced names r limit seg"
  by (simp add: as_announced_def outlasts_def busy_ns_untexted list_ex_untexted)

lemma segments_prepend:
  "segments_from (pre @ acc) ss = (case segments_from acc ss of [] \<Rightarrow> [] | seg # segs \<Rightarrow> (pre @ seg) # segs)"
proof (induction ss arbitrary: acc)
  case (Cons st ss)
  then show ?case
    using Cons [of "acc @ [st]"] by simp
qed simp

lemma segments_append:
  "ss \<noteq> [] \<Longrightarrow> awaits (last ss) \<Longrightarrow> segments_from acc (ss @ ss') = segments_from acc ss @ segments ss'"
  by (induction ss arbitrary: acc) (auto split: if_splits)

section \<open>A loop with one task\<close>

text \<open>A task runs at most once between two epoll calls; everything else is the loop's own.\<close>

definition serves :: "nat \<Rightarrow> iteration \<Rightarrow> bool" where
  "serves k it \<longleftrightarrow>
     length (filter (\<lambda>c. fst c = Some k) (it_callbacks it)) \<le> 1 \<and>
     list_all (\<lambda>(j, seg). j = Some k \<or> j = None \<and> list_all housekeeping seg) (it_callbacks it)"

lemma task_segments_simps [simp]:
  "task_segments k [] = []"
  "task_segments k (it # its) = map snd (filter (\<lambda>c. fst c = Some k) (it_callbacks it)) @ task_segments k its"
  by (simp_all add: task_segments_def)

lemma serves_steps:
  assumes "list_all (\<lambda>(j, seg). j = Some k \<or> j = None \<and> list_all housekeeping seg) cs"
  shows "list_ex blocking (concat (map snd cs)) \<longleftrightarrow> list_ex (list_ex blocking) (map snd (filter (\<lambda>c. fst c = Some k) cs))"
  using assms
proof (induction cs)
  case (Cons c cs)
  then show ?case
    using housekeeping_steps [of "snd c"] by (cases c) auto
qed simp

lemma served_iterations:
  assumes "list_all (serves k) its" and "list_all (as_announced names r limit) (task_segments k its)"
  shows "list_all (runs_announced names r limit) its \<and>
    length (filter (\<lambda>it. list_ex (announced names) (it_steps it)) its) =
      length (filter (list_ex blocking) (task_segments k its))"
  using assms
proof (induction its)
  case (Cons it its)
  let ?segs = "map snd (filter (\<lambda>c. fst c = Some k) (it_callbacks it))"
  have it: "list_all (\<lambda>(j, seg). j = Some k \<or> j = None \<and> list_all housekeeping seg) (it_callbacks it)" "length ?segs \<le> 1"
    "list_all (as_announced names r limit) ?segs"
    using Cons.prems by (simp_all add: serves_def)
  then have runs: "runs_announced names r limit it"
    by (auto simp: runs_announced_def list_all_iff)
  then have "list_ex (announced names) (it_steps it) \<longleftrightarrow> list_ex blocking (it_steps it)"
    using runs_announced_steps by (auto simp: as_announced_def)
  also have "\<dots> \<longleftrightarrow> list_ex (list_ex blocking) ?segs"
    unfolding it_steps_def by (rule serves_steps [OF it(1)])
  also have "\<dots> \<longleftrightarrow> length (filter (list_ex blocking) ?segs) = 1"
    using it(2) by (cases ?segs) auto
  finally have "length (filter (\<lambda>it. list_ex (announced names) (it_steps it)) [it]) = length (filter (list_ex blocking) ?segs)"
    using it(2) le_trans [OF length_filter_le it(2)] by (auto simp: le_Suc_eq)
  with Cons runs show ?case
    by (auto simp: serves_def split: if_splits)
qed simp

section \<open>Concrete schedules\<close>

text \<open>\<open>-t 50\<close>, and the hits of a target of its own PID namespace.\<close>

definition t50_params :: probe_params where
  "t50_params = \<lparr>pp_use_ns_pid = True, pp_target_tgid = 1, pp_target_tid = 1, pp_threshold_ns = 50000000\<rparr>"

definition loop_hits :: "iteration list \<Rightarrow> (probe \<times> hit_context) list" where
  "loop_hits its = map (\<lambda>(pr, t). (pr, \<lparr>hc_nsdata = Some (1, 1), hc_pid_tgid = 0, hc_ktime = of_nat t\<rparr>)) (loop_times its)"

lemma loop_hits_times:
  "list_all (\<lambda>it. it_start it < 2 ^ 64 \<and> it_end it < 2 ^ 64) its \<Longrightarrow> target_times t50_params (loop_hits its) = loop_times its"
  by (induction its)
    (simp_all add: loop_hits_def loop_times_def target_times_def of_target_def current_task_def is_target_eq t50_params_def
      unsigned_of_nat take_bit_nat_eq_self)

end
