(* ===== verification/FastapiServer.thy ===== *)
theory FastapiServer
  imports EventLoop
begin

text \<open>
  \<open>examples/fastapi_server.py\<close>: a simulated web server whose handlers mix fast synchronous work, work
  handed to a thread, and blocking calls. It prints which of its functions blocksnoop flags; the
  last section shows that this is what the probes report.
\<close>

section \<open>The database\<close>

record server_db =
  db_users :: "(int \<times> string \<times> string) list"
  db_logs :: "(string \<times> rat) list"

text \<open>Filled when the module is imported.\<close>

definition user_name :: "int \<Rightarrow> string" where
  "user_name i = ''user_'' @ str_of_int i"

definition user_email :: "int \<Rightarrow> string" where
  "user_email i = user_name i @ ''@example.com''"

definition initial_db :: server_db where
  "initial_db = \<lparr>db_users = map (\<lambda>i. (i, user_name i, user_email i)) [1..99], db_logs = []\<rparr>"

type_synonym 'a server = "(server_db, 'a) io"

text \<open>The dictionary that stands for a user.\<close>

record user =
  us_id :: int
  us_name :: string
  us_email :: string

definition user_json :: "user \<Rightarrow> json" where
  "user_json u = JObj [(''id'', JInt (us_id u)), (''name'', JStr (us_name u)), (''email'', JStr (us_email u))]"

section \<open>Fast synchronous functions\<close>

definition quick_db_lookup :: "int \<Rightarrow> user server" where
  "quick_db_lookup user_id = do {
     does (Calls ''quick_db_lookup'');
     does (Library ''sqlite3'');
     row \<leftarrow> asks (\<lambda>s _. List.find (\<lambda>r. fst r = user_id) (db_users (pr_db s)));
     State_Monad.return (case row of
         Some (i, n, e) \<Rightarrow> \<lparr>us_id = i, us_name = n, us_email = e\<rparr>
       | None \<Rightarrow> \<lparr>us_id = user_id, us_name = ''unknown'', us_email = []\<rparr>)
   }"

definition quick_log_insert :: "string \<Rightarrow> unit server" where
  "quick_log_insert message = do {
     does (Calls ''quick_log_insert'');
     now \<leftarrow> asks pr_time;
     does (Library ''sqlite3'');
     commits (\<lambda>db. db\<lparr>db_logs := db_logs db @ [(message, now)]\<rparr>)
   }"

definition quick_json_serialize :: "json \<Rightarrow> string server" where
  "quick_json_serialize data = do {
     does (Calls ''quick_json_serialize'');
     does (Library ''json'');
     asks (\<lambda>s _. dumps (pr_floats s) data)
   }"

text \<open>\<open>re.match(r"^[\w.+-]+@[\w-]+\.[\w.]+$", email)\<close> on ASCII text. The first \<open>@\<close> and the first dot behind it are
  the only ones that can match; \<open>$\<close> also matches before a newline at the end.\<close>

definition matches_email :: "string \<Rightarrow> bool" where
  "matches_email email =
     (case split_once (CHR ''@'') email of
        (local_part, Some domain) \<Rightarrow>
          (case split_once (CHR ''.'') domain of
             (host, Some tail) \<Rightarrow>
               (let tld = (if tail \<noteq> [] \<and> last tail = CHR 0x0A then butlast tail else tail)
                in local_part \<noteq> [] \<and> list_all (\<lambda>c. word_char c \<or> c \<in> set ''.+-'') local_part \<and>
                   host \<noteq> [] \<and> list_all (\<lambda>c. word_char c \<or> c = CHR ''-'') host \<and>
                   tld \<noteq> [] \<and> list_all (\<lambda>c. word_char c \<or> c = CHR ''.'') tld)
           | (_, None) \<Rightarrow> False)
      | (_, None) \<Rightarrow> False)"

definition quick_validate_email :: "string \<Rightarrow> bool server" where
  "quick_validate_email email = do {
     does (Calls ''quick_validate_email'');
     does (Library ''re'');
     State_Monad.return (matches_email email)
   }"

text \<open>What the function writes into the temporary file it reads back.\<close>

definition config_text :: string where
  "config_text = ''{\"debug\": false, \"max_connections\": 100}''"

definition quick_read_config :: "json_obj server" where
  "quick_read_config = do {
     does (Calls ''quick_read_config'');
     does (Library ''tempfile'');
     does (Library ''os'');
     data \<leftarrow> asks (\<lambda>s _. loads (pr_floats s) config_text);
     does (Library ''json'');
     does (Library ''os'');
     State_Monad.return (case data of Some (JObj d) \<Rightarrow> d | _ \<Rightarrow> [])
   }"

section \<open>Slow functions and their asynchronous wrappers\<close>

definition slow_db_query :: "int \<Rightarrow> user server" where
  "slow_db_query user_id = do {
     does (Calls ''_slow_db_query'');
     time_sleep (2 / 10);
     State_Monad.return \<lparr>us_id = user_id, us_name = user_name user_id, us_email = user_email user_id\<rparr>
   }"

definition slow_hash_password :: "string \<Rightarrow> string server" where
  "slow_hash_password password = do {
     does (Calls ''_slow_hash_password'');
     digest \<leftarrow> hash_rounds 200000 password;
     State_Monad.return (bytes_hex digest)
   }"

definition slow_write_log :: "string \<Rightarrow> unit server" where
  "slow_write_log message = do {
     does (Calls ''_slow_write_log'');
     time_sleep (5 / 100)
   }"

definition slow_http_call :: "string \<Rightarrow> json server" where
  "slow_http_call url = do {
     does (Calls ''_slow_http_call'');
     time_sleep (3 / 10);
     State_Monad.return (JObj [(''status'', JInt 200), (''body'', JStr (''response from '' @ url))])
   }"

definition async_db_query :: "int \<Rightarrow> user server" where
  "async_db_query user_id = do {
     does (Calls ''async_db_query'');
     to_thread (slow_db_query user_id)
   }"

definition async_write_log :: "string \<Rightarrow> unit server" where
  "async_write_log message = do {
     does (Calls ''async_write_log'');
     to_thread (slow_write_log message)
   }"

text \<open>No handler uses it.\<close>

definition async_http_call :: "string \<Rightarrow> json server" where
  "async_http_call url = do {
     does (Calls ''async_http_call'');
     to_thread (slow_http_call url)
   }"

section \<open>Handlers\<close>

definition handle_login :: "int \<Rightarrow> string \<Rightarrow> json server" where
  "handle_login user_id password = do {
     does (Calls ''handle_login'');
     cached_user \<leftarrow> quick_db_lookup user_id;
     quick_log_insert (''login attempt: '' @ str_of_int user_id);
     valid \<leftarrow> quick_validate_email (us_email cached_user);
     async_write_log (''login start: '' @ str_of_int user_id);
     user \<leftarrow> slow_db_query user_id;
     hashed \<leftarrow> slow_hash_password password;
     slow_write_log (''login success: '' @ str_of_int user_id);
     State_Monad.return (JObj [(''user'', JStr (us_name user)), (''token'', JStr (take 16 hashed)), (''valid_email'', JBool valid)])
   }"

definition handle_get_profile :: "int \<Rightarrow> json server" where
  "handle_get_profile user_id = do {
     does (Calls ''handle_get_profile'');
     cached \<leftarrow> quick_db_lookup user_id;
     payload \<leftarrow> quick_json_serialize (user_json cached);
     user \<leftarrow> async_db_query user_id;
     friends \<leftarrow> slow_http_call (''http://api.internal/friends/'' @ str_of_int user_id);
     State_Monad.return (JObj [(''user'', user_json user), (''friends'', friends), (''cached_size'', JInt (int (length payload)))])
   }"

definition handle_healthcheck :: "json server" where
  "handle_healthcheck = do {
     does (Calls ''handle_healthcheck'');
     config \<leftarrow> quick_read_config;
     async_write_log ''healthcheck ping'';
     State_Monad.return (JObj [(''status'', JStr ''ok''), (''debug'', dict_get_default config ''debug'' JNull)])
   }"

text \<open>\<open>re.sub(r"[^\w\s]", "", query)\<close> on ASCII text.\<close>

definition handle_search :: "string \<Rightarrow> json server" where
  "handle_search query = do {
     does (Calls ''handle_search'');
     does (Library ''re'');
     let clean_query = filter (\<lambda>c. word_char c \<or> is_space c) query;
     digest \<leftarrow> asks (\<lambda>s _. pr_hash s clean_query);
     results \<leftarrow> async_db_query (digest mod 99 + 1);
     async_write_log (''search: '' @ clean_query);
     asyncio_sleep (1 / 100);
     State_Monad.return (JObj [(''query'', JStr clean_query), (''results'', user_json results)])
   }"

section \<open>The request loop\<close>

definition arrow :: string where
  "arrow = [CHR 0xE2, CHR 0x86, CHR 0x92]"

definition print_result :: "int \<Rightarrow> string \<Rightarrow> json \<Rightarrow> unit server" where
  "print_result request_id route result = do {
     does (Library ''json'');
     text \<leftarrow> asks (\<lambda>s _. dumps (pr_floats s) result);
     print_line (''[req '' @ str_of_int request_id @ ''] '' @ route @ '' '' @ arrow @ '' '' @ text)
   }"

definition handle_request :: "int \<Rightarrow> unit server" where
  "handle_request request_id =
     (let kind = request_id mod 4
      in if kind = 0 then handle_login request_id ''s3cret!'' \<bind> print_result request_id ''POST /login''
         else if kind = 1 then handle_get_profile request_id \<bind> print_result request_id ''GET /profile''
         else if kind = 2 then handle_healthcheck \<bind> print_result request_id ''GET /health''
         else handle_search ''async python'' \<bind> print_result request_id ''GET /search'')"

text \<open>The first \<open>n\<close> turns of the endless loop, after request \<open>request_id\<close>.\<close>

fun simulate_requests :: "nat \<Rightarrow> int \<Rightarrow> unit server" where
  "simulate_requests 0 request_id = State_Monad.return ()"
| "simulate_requests (Suc n) request_id = do {
     handle_request (request_id + 1);
     asyncio_sleep (3 / 10);
     simulate_requests n (request_id + 1)
   }"

text \<open>The line that announces what is flagged, and the functions it lists.\<close>

definition flagged_line :: string where
  "flagged_line = ''FLAGGED:     _slow_db_query, _slow_hash_password (CPU, GIL), _slow_write_log, _slow_http_call''"

definition FLAGGED :: "string list" where
  "FLAGGED = listed_names flagged_line"

lemma FLAGGED_names:
  "FLAGGED = [''_slow_db_query'', ''_slow_hash_password'', ''_slow_write_log'', ''_slow_http_call'']"
  by code_simp

definition server_main :: "nat \<Rightarrow> unit server" where
  "server_main n = do {
     print_line ''=== Simulated FastAPI server (with blocking bugs) ==='';
     print_line flagged_line;
     print_line (''NOT FLAGGED: quick_* (fast sync), async_db_query/async_write_log/async_http_call (to_thread, I/O)'' @ newline);
     simulate_requests n 0
   }"

section \<open>The health check\<close>

text \<open>The configuration is read as it was written.\<close>

lemma config_read: "loads ft config_text = Some (JObj [(''debug'', JBool False), (''max_connections'', JInt 100)])"
proof -
  have "(100 :: int) < 10 ^ max_str_digits"
    using small_ids(3) by linarith
  then have "json_ok ft (JObj [(''debug'', JBool False), (''max_connections'', JInt 100)])"
    by (simp add: dict_keys_def ascii_def)
  then have "loads ft (dumps ft (JObj [(''debug'', JBool False), (''max_connections'', JInt 100)]) @ []) =
      Some (JObj [(''debug'', JBool False), (''max_connections'', JInt 100)])"
    by (rule loads_dumps) (simp_all add: json_space_def)
  moreover have "config_text = dumps ft (JObj [(''debug'', JBool False), (''max_connections'', JInt 100)]) @ []"
    by code_simp
  ultimately show ?thesis
    by (simp only:)
qed

lemma healthcheck_result:
  "fst (run_state handle_healthcheck s) = JObj [(''status'', JStr ''ok''), (''debug'', JBool False)]"
  by (simp add: handle_healthcheck_def quick_read_config_def async_write_log_def does_def asks_def config_read split_beta
      dict_get_default_def)

section \<open>The steps of the functions\<close>

lemmas quick_defs = quick_db_lookup_def quick_log_insert_def quick_json_serialize_def quick_validate_email_def
  quick_read_config_def

lemma quick_outlines:
  "outline (quick_db_lookup i) [Calls ''quick_db_lookup'', Library ''sqlite3'']"
  "outline (quick_log_insert m) [Calls ''quick_log_insert'', Library ''sqlite3'']"
  "outline (quick_json_serialize j) [Calls ''quick_json_serialize'', Library ''json'']"
  "outline (quick_validate_email e) [Calls ''quick_validate_email'', Library ''re'']"
  "outline quick_read_config [Calls ''quick_read_config'', Library ''tempfile'', Library ''os'', Library ''json'', Library ''os'']"
  unfolding quick_defs
  by (rule outline_cong, (rule outline_bind outline_does outlines)+, simp)+

lemma slow_outlines:
  "outline (slow_db_query i) [Calls ''_slow_db_query'', Sleeps (2 / 10)]"
  "outline (slow_hash_password w) [Calls ''_slow_hash_password'', Hashes 200000]"
  "outline (slow_write_log m) [Calls ''_slow_write_log'', Sleeps (5 / 100)]"
  "outline (slow_http_call u) [Calls ''_slow_http_call'', Sleeps (3 / 10)]"
  unfolding slow_db_query_def slow_hash_password_def slow_write_log_def slow_http_call_def time_sleep_def hash_rounds_def
  by (rule outline_cong, (rule outline_bind outline_does outlines)+, simp)+

lemma async_outlines:
  "outline (async_db_query i)
     [Calls ''async_db_query'', Awaits (InThread [Calls ''_slow_db_query'', Sleeps (2 / 10)])]"
  "outline (async_write_log m)
     [Calls ''async_write_log'', Awaits (InThread [Calls ''_slow_write_log'', Sleeps (5 / 100)])]"
  unfolding async_db_query_def async_write_log_def
  by (rule outline_cong, (rule outline_bind outline_does outline_to_thread slow_outlines)+, simp, simp)+

lemmas function_outlines = quick_outlines slow_outlines async_outlines outline_suspends outline_does outlines

text \<open>One request, with the gap that follows it.\<close>

definition request_outline :: "int \<Rightarrow> step list" where
  "request_outline r =
     (if r mod 4 = 0
      then [Calls ''handle_login'', Calls ''quick_db_lookup'', Library ''sqlite3'', Calls ''quick_log_insert'', Library ''sqlite3'',
        Calls ''quick_validate_email'', Library ''re'', Calls ''async_write_log'',
        Awaits (InThread [Calls ''_slow_write_log'', Sleeps (5 / 100)]), Calls ''_slow_db_query'', Sleeps (2 / 10),
        Calls ''_slow_hash_password'', Hashes 200000, Calls ''_slow_write_log'', Sleeps (5 / 100)]
      else if r mod 4 = 1
      then [Calls ''handle_get_profile'', Calls ''quick_db_lookup'', Library ''sqlite3'', Calls ''quick_json_serialize'',
        Library ''json'', Calls ''async_db_query'', Awaits (InThread [Calls ''_slow_db_query'', Sleeps (2 / 10)]),
        Calls ''_slow_http_call'', Sleeps (3 / 10)]
      else if r mod 4 = 2
      then [Calls ''handle_healthcheck'', Calls ''quick_read_config'', Library ''tempfile'', Library ''os'', Library ''json'',
        Library ''os'', Calls ''async_write_log'', Awaits (InThread [Calls ''_slow_write_log'', Sleeps (5 / 100)])]
      else [Calls ''handle_search'', Library ''re'', Calls ''async_db_query'',
        Awaits (InThread [Calls ''_slow_db_query'', Sleeps (2 / 10)]), Calls ''async_write_log'',
        Awaits (InThread [Calls ''_slow_write_log'', Sleeps (5 / 100)]), Awaits (AsyncSleep (1 / 100))]) @
     [Library ''json'', Prints [], Awaits (AsyncSleep (3 / 10))]"

lemma outline_print_result: "outline (print_result r route j) [Library ''json'', Prints []]"
  unfolding print_result_def
  by (rule outline_cong, (rule outline_bind function_outlines)+) simp

lemma handler_outlines:
  "outline (handle_login i w) [Calls ''handle_login'', Calls ''quick_db_lookup'', Library ''sqlite3'',
     Calls ''quick_log_insert'', Library ''sqlite3'', Calls ''quick_validate_email'', Library ''re'', Calls ''async_write_log'',
     Awaits (InThread [Calls ''_slow_write_log'', Sleeps (5 / 100)]), Calls ''_slow_db_query'', Sleeps (2 / 10),
     Calls ''_slow_hash_password'', Hashes 200000, Calls ''_slow_write_log'', Sleeps (5 / 100)]"
  "outline (handle_get_profile i) [Calls ''handle_get_profile'', Calls ''quick_db_lookup'', Library ''sqlite3'',
     Calls ''quick_json_serialize'', Library ''json'', Calls ''async_db_query'',
     Awaits (InThread [Calls ''_slow_db_query'', Sleeps (2 / 10)]), Calls ''_slow_http_call'', Sleeps (3 / 10)]"
  "outline handle_healthcheck [Calls ''handle_healthcheck'', Calls ''quick_read_config'', Library ''tempfile'', Library ''os'',
     Library ''json'', Library ''os'', Calls ''async_write_log'',
     Awaits (InThread [Calls ''_slow_write_log'', Sleeps (5 / 100)])]"
  "outline (handle_search q) [Calls ''handle_search'', Library ''re'', Calls ''async_db_query'',
     Awaits (InThread [Calls ''_slow_db_query'', Sleeps (2 / 10)]), Calls ''async_write_log'',
     Awaits (InThread [Calls ''_slow_write_log'', Sleeps (5 / 100)]), Awaits (AsyncSleep (1 / 100))]"
  unfolding handle_login_def handle_get_profile_def handle_healthcheck_def handle_search_def Let_def asyncio_sleep_def
  by (rule outline_cong, (rule outline_bind function_outlines)+, simp)+

lemma outline_request:
  "outline (handle_request r \<bind> (\<lambda>_. asyncio_sleep (3 / 10))) (request_outline r)"
  unfolding handle_request_def Let_def request_outline_def asyncio_sleep_def
  by (rule outline_cong, (rule outline_bind outline_if handler_outlines outline_print_result outline_suspends)+) simp

definition requests_outline :: "nat \<Rightarrow> int \<Rightarrow> step list" where
  "requests_outline n r = concat (map (\<lambda>i. request_outline (r + 1 + int i)) [0..<n])"

lemma requests_outline_Suc: "requests_outline (Suc n) r = request_outline (r + 1) @ requests_outline n (r + 1)"
  by (simp add: requests_outline_def upt_conv_Cons map_Suc_upt [symmetric] comp_def algebra_simps del: upt_Suc map_Suc_upt)

lemma outline_simulate: "outline (simulate_requests n r) (requests_outline n r)"
proof (induction n arbitrary: r)
  case 0
  show ?case by (simp add: requests_outline_def outline_return)
next
  case (Suc n)
  have "outline ((handle_request (r + 1) \<bind> (\<lambda>_. asyncio_sleep (3 / 10))) \<bind> (\<lambda>_. simulate_requests n (r + 1)))
      (requests_outline (Suc n) r)"
    unfolding requests_outline_Suc by (intro outline_bind outline_request Suc)
  then show ?case
    by simp
qed

lemma outline_main: "outline (server_main n) (replicate 3 (Prints []) @ requests_outline n 0)"
  unfolding server_main_def
  by (rule outline_cong, (rule outline_bind outline_print outline_simulate)+) (simp add: numeral_3_eq_3)

section \<open>What blocksnoop reports\<close>

lemma request_segments:
  assumes "0 \<le> round_ns"
  shows "list_all (as_announced FLAGGED round_ns 50000000) (segments (request_outline r))"
    and "length (filter (list_ex blocking) (segments (request_outline r))) = (if r mod 4 < 2 then 1 else 0)"
  using assms
  by (auto simp: request_outline_def as_announced_def outlasts_def busy_ns_def FLAGGED_names)

lemma request_judged: "judged FLAGGED (request_outline r)" "\<not> is_call (last (request_outline r))"
  by (simp_all add: request_outline_def FLAGGED_names)

lemma request_outline_ends: "request_outline r \<noteq> []" "awaits (last (request_outline r))"
  by (simp_all add: request_outline_def)

lemma request_count:
  fixes r :: int
  shows "(if (r + 1) mod 4 < 2 then 1 else 0) = (r + 1) div 4 - r div 4 + ((r + 4) div 4 - (r + 3) div 4)"
proof -
  define q m where "q = r div 4" and "m = r mod 4"
  have r: "r = m + q * 4" "0 \<le> m" "m < 4"
    by (simp_all add: q_def m_def)
  then consider "m = 0" | "m = 1" | "m = 2" | "m = 3"
    by linarith
  then show ?thesis
    by cases (simp_all add: r(1) algebra_simps)
qed

lemma requests_segments:
  assumes "0 \<le> round_ns"
  shows "list_all (as_announced FLAGGED round_ns 50000000) (segments (requests_outline n r)) \<and>
    int (length (filter (list_ex blocking) (segments (requests_outline n r)))) =
      (r + int n) div 4 - r div 4 + ((r + int n + 3) div 4 - (r + 3) div 4)"
proof (induction n arbitrary: r)
  case 0
  show ?case by (simp add: requests_outline_def)
next
  case (Suc n)
  have segs: "segments (requests_outline (Suc n) r) = segments (request_outline (r + 1)) @ segments (requests_outline n (r + 1))"
    unfolding requests_outline_Suc by (rule segments_append [OF request_outline_ends])
  let ?count = "\<lambda>ss. int (length (filter (list_ex blocking) ss))"
  have shift: "r + 1 + int n = r + int (Suc n)" "r + 1 + 3 = r + 4"
    by simp_all
  have "?count (segments (requests_outline (Suc n) r)) =
      (if (r + 1) mod 4 < 2 then 1 else 0) + ?count (segments (requests_outline n (r + 1)))"
    using request_segments(2) [OF assms, of "r + 1"] by (simp add: segs)
  also have "\<dots> = (r + int (Suc n)) div 4 - r div 4 + ((r + int (Suc n) + 3) div 4 - (r + 3) div 4)"
    unfolding request_count using Suc [of "r + 1"] unfolding shift by linarith
  finally show ?case
    using Suc [of "r + 1"] request_segments(1) [OF assms, of "r + 1"] by (simp add: segs)
qed

text \<open>The stretches of the server itself, from any state of the process.\<close>

lemma server_segments:
  assumes "0 \<le> round_ns" and "pr_steps s = []" and segs_def: "segs = segments (pr_steps (snd (run_state (server_main n) s)))"
  shows "list_all (as_announced FLAGGED round_ns 50000000) segs"
    and "length (filter (list_ex blocking) segs) = n div 4 + (n + 3) div 4"
proof -
  let ?prints = "replicate 3 (Prints [])"
  obtain ss where ss: "pr_steps (snd (run_state (server_main n) s)) = ss" "map untexted ss = ?prints @ requests_outline n 0"
    using outline_main [of n, unfolded outline_def, rule_format, of s] assms(2) by auto
  have "segments (?prints @ requests_outline n 0) = segments_from ?prints (requests_outline n 0)"
    by (simp add: numeral_3_eq_3)
  also have "\<dots> = (case segments (requests_outline n 0) of [] \<Rightarrow> [] | seg # segs \<Rightarrow> (?prints @ seg) # segs)"
    using segments_prepend [of ?prints "[]"] by simp
  finally have segs: "map (map untexted) segs =
      (case segments (requests_outline n 0) of [] \<Rightarrow> [] | seg # segs \<Rightarrow> (?prints @ seg) # segs)"
    using segments_untexted [of "[]" ss] by (simp add: segs_def ss)
  have pre: "as_announced FLAGGED round_ns 50000000 (?prints @ seg) = as_announced FLAGGED round_ns 50000000 seg"
    "\<not> list_ex blocking ?prints" for seg
    by (simp_all add: as_announced_def outlasts_def busy_ns_def numeral_3_eq_3)
  note all = requests_segments [OF assms(1), of n 0]
  have "list_all (as_announced FLAGGED round_ns 50000000) (map (map untexted) segs)"
    unfolding segs using all by (auto simp: pre split: list.splits)
  then show "list_all (as_announced FLAGGED round_ns 50000000) segs"
    by (simp add: list_all_iff as_announced_untexted)
  have "int (length (filter (list_ex blocking) (map (map untexted) segs))) = int (n div 4 + (n + 3) div 4)"
    unfolding segs using all by (auto simp: pre zdiv_int split: list.splits)
  then show "length (filter (list_ex blocking) segs) = n div 4 + (n + 3) div 4"
    by (simp add: filter_map comp_def list_ex_untexted)
qed

text \<open>Every function the server calls on the thread of the loop is judged rightly by its announcement.\<close>

lemma server_judged:
  assumes "pr_steps s = []"
  shows "judged FLAGGED (pr_steps (snd (run_state (server_main n) s)))"
proof -
  let ?prints = "replicate 3 (Prints [])"
  obtain ss where ss: "pr_steps (snd (run_state (server_main n) s)) = ss" "map untexted ss = ?prints @ requests_outline n 0"
    using outline_main [of n, unfolded outline_def, rule_format, of s] assms by auto
  have "judged FLAGGED (requests_outline n 0)"
    unfolding requests_outline_def by (rule judged_concat) (auto simp: request_judged)
  then have "judged FLAGGED (?prints @ requests_outline n 0)"
    by (simp add: numeral_3_eq_3 judged_Cons)
  then show ?thesis
    unfolding ss(1) ss(2) [symmetric] by (simp only: judged_untexted)
qed

text \<open>C36: The server prints which functions blocksnoop flags when it is run with \<open>-t 50\<close>, and it is right. Let
  the server handle \<open>n\<close> requests on a machine where \<open>time.sleep\<close> does not return early and the loop needs at
  most 50 ms for work that neither sleeps nor hashes. Then the probes report exactly the iterations
  of the loop in which one of the announced functions is called on its thread, and the calls that
  \<open>to_thread\<close> takes away from it are not among them: one event for every login and every profile,
  and none for a health check or a search. Of the functions called on that thread, the announced
  ones are those that block before they do anything else, no more and no less.\<close>

theorem fastapi_flags_announced:
  assumes "pr_steps s = []" and "task_segments 0 its = segments (pr_steps (snd (run_state (server_main n) s)))"
    and "list_all (serves 0) its" and "loop_trace its (target_times p hits)" and "pp_threshold_ns p = 50000000"
    and "0 \<le> round_ns" and "well_timed round_ns 50000000 its"
  shows "submitted (run_probes p hits) = map (\<lambda>it. event_of_phase p (it_start it, it_end it))
      (filter (\<lambda>it. list_ex (announced FLAGGED) (it_steps it)) its) \<and>
    length (submitted (run_probes p hits)) = n div 4 + (n + 3) div 4 \<and>
    (\<forall>before f st after. pr_steps (snd (run_state (server_main n) s)) = before @ Calls f # st # after \<longrightarrow>
       (f \<in> set FLAGGED \<longleftrightarrow> blocking st))"
proof -
  have limit: "unat (pp_threshold_ns p) = 50000000"
    by (simp add: assms(5))
  note segs = server_segments [OF assms(6,1,2)]
  have runs: "list_all (runs_announced FLAGGED round_ns 50000000) its"
    "length (filter (\<lambda>it. list_ex (announced FLAGGED) (it_steps it)) its) = n div 4 + (n + 3) div 4"
    using served_iterations [OF assms(3) segs(1)] segs(2) by simp_all
  then show ?thesis
    using announced_iterations [OF assms(4), of round_ns FLAGGED] assms(7) judged_called server_judged [OF assms(1), of n]
    by (auto simp: limit)
qed

definition first_process :: "server_db process" where
  "first_process = \<lparr>pr_db = initial_db, pr_steps = [], pr_time = (\<lambda>_. 0), pr_hash = (\<lambda>_. 0), pr_tmp = (\<lambda>_. []),
     pr_floats = \<lparr>ft_repr = (\<lambda>_. []), ft_parse = (\<lambda>_. 0)\<rparr>, pr_others = (\<lambda>_ db. db)\<rparr>"

lemma first_request_segments:
  "\<exists>a b. segments (pr_steps (snd (run_state (server_main 1) first_process))) = [a, b] \<and>
    busy_ns 0 a = 0 \<and> busy_ns 0 b = 300000000 \<and> \<not> list_ex blocking a \<and> list_ex blocking b"
proof -
  obtain ss where ss: "pr_steps (snd (run_state (server_main 1) first_process)) = ss"
    "map untexted ss = replicate 3 (Prints []) @ requests_outline 1 0"
    using outline_main [of 1, unfolded outline_def, rule_format, of first_process] by (auto simp: first_process_def)
  obtain A B where AB: "segments (replicate 3 (Prints []) @ requests_outline 1 0) = [A, B]"
    "busy_ns 0 A = 0" "busy_ns 0 B = 300000000" "\<not> list_ex blocking A" "list_ex blocking B"
    by (simp add: requests_outline_def request_outline_def numeral_3_eq_3 busy_ns_def)
  have "map (map untexted) (segments ss) = [A, B]"
    using segments_untexted [of "[]" ss] AB(1) by (simp add: ss)
  then obtain a b where ab: "segments ss = [a, b]" "A = map untexted a" "B = map untexted b"
    by auto
  then show ?thesis
    using AB(2-) unfolding ss(1) by (simp add: busy_ns_untexted list_ex_untexted)
qed

lemma fastapi_flags_announced_witness:
  "\<exists>its. task_segments 0 its = segments (pr_steps (snd (run_state (server_main 1) first_process))) \<and>
    length (submitted (run_probes t50_params (loop_hits its))) = 1"
proof -
  obtain a b where ab: "segments (pr_steps (snd (run_state (server_main 1) first_process))) = [a, b]"
    "busy_ns 0 a = 0" "busy_ns 0 b = 300000000" "\<not> list_ex blocking a" "list_ex blocking b"
    using first_request_segments by blast
  define its where "its = [\<lparr>it_start = 0, it_end = 1000000, it_callbacks = [(Some 0, a)]\<rparr>,
    \<lparr>it_start = 201000000, it_end = 201010000, it_callbacks = [(None, [Library ''asyncio''])]\<rparr>,
    \<lparr>it_start = 201020000, it_end = 502000000, it_callbacks = [(Some 0, b)]\<rparr>]"
  have segs: "task_segments 0 its = segments (pr_steps (snd (run_state (server_main 1) first_process)))"
    unfolding ab(1) by (simp add: its_def)
  moreover have "list_all (serves 0) its" "loop_trace its (target_times t50_params (loop_hits its))"
    by (simp_all add: loop_trace_def its_def serves_def loop_times_def loop_hits_def target_times_def of_target_def current_task_def
        is_target_eq t50_params_def)
  moreover have "well_timed 0 50000000 its"
    using ab housekeeping_steps [of "[Library ''asyncio'']" 0]
    by (simp add: its_def well_timed_def loop_times_def it_steps_def)
  ultimately show ?thesis
    using fastapi_flags_announced [OF _ segs, of t50_params "loop_hits its" 0] by (auto simp: first_process_def t50_params_def)
qed

end
