(* ===== verification/MixedWorkload.thy ===== *)
theory MixedWorkload
  imports EventLoop Md5
begin

text \<open>
  \<open>examples/mixed_workload.py\<close>: three workers on one event loop, each mixing fast synchronous work, work
  handed to a thread, and blocking calls. As for the other server, the last section shows that the
  functions it announces as flagged are the ones the probes report.
\<close>

section \<open>The cache\<close>

type_synonym cache = "(string, string) dict"

type_synonym 'a worker = "(cache, 'a) io"

section \<open>Asynchronous functions\<close>

definition fetch_data_async :: "int \<Rightarrow> json worker" where
  "fetch_data_async item_id = do {
     does (Calls ''fetch_data_async'');
     asyncio_sleep (5 / 100);
     State_Monad.return (JObj [(''id'', JInt item_id), (''data'', JStr (''item_'' @ str_of_int item_id))])
   }"

definition process_batch_async :: "int list \<Rightarrow> json list worker" where
  "process_batch_async items = do {
     does (Calls ''process_batch_async'');
     gather (map fetch_data_async items)
   }"

definition query_result :: "string \<Rightarrow> json_obj" where
  "query_result query = [(''rows'', JInt 42), (''query'', JStr query)]"

text \<open>\<open>f"{d[key]}"\<close> for a number.\<close>

definition number_field :: "float_text \<Rightarrow> json_obj \<Rightarrow> string \<Rightarrow> string" where
  "number_field ft d key =
     (case dict_get d key of Some (JInt n) \<Rightarrow> str_of_int n | Some (JFloat x) \<Rightarrow> ft_repr ft x | _ \<Rightarrow> [])"

definition blocking_db_write :: "string \<Rightarrow> json_obj worker" where
  "blocking_db_write query = do {
     does (Calls ''_blocking_db_write'');
     time_sleep (2 / 10);
     State_Monad.return (query_result query)
   }"

definition async_db_write :: "string \<Rightarrow> json_obj worker" where
  "async_db_write query = do {
     does (Calls ''async_db_write'');
     to_thread (blocking_db_write query)
   }"

definition blocking_notify :: "string \<Rightarrow> string \<Rightarrow> unit worker" where
  "blocking_notify channel message = do {
     does (Calls ''_blocking_notify'');
     time_sleep (1 / 10)
   }"

definition async_notify :: "string \<Rightarrow> string \<Rightarrow> unit worker" where
  "async_notify channel message = do {
     does (Calls ''async_notify'');
     to_thread (blocking_notify channel message)
   }"

section \<open>Fast synchronous functions\<close>

definition quick_cache_get :: "string \<Rightarrow> string option worker" where
  "quick_cache_get key = do {
     does (Calls ''quick_cache_get'');
     does (Library ''sqlite3'');
     asks (\<lambda>s _. dict_get (pr_db s) key)
   }"

text \<open>\<open>INSERT OR REPLACE\<close>\<close>

definition quick_cache_set :: "string \<Rightarrow> string \<Rightarrow> unit worker" where
  "quick_cache_set key v = do {
     does (Calls ''quick_cache_set'');
     does (Library ''sqlite3'');
     commits (dict_set key v)
   }"

definition quick_hash_md5 :: "string \<Rightarrow> string worker" where
  "quick_hash_md5 data = do {
     does (Calls ''quick_hash_md5'');
     does (Library ''hashlib'');
     State_Monad.return (md5_hexdigest data)
   }"

text \<open>\<open>re.sub(r"[^a-zA-Z0-9]", "", s)\<close>\<close>

definition alphanumeric :: "string \<Rightarrow> string" where
  "alphanumeric s = filter (\<lambda>c. word_char c \<and> c \<noteq> CHR ''_'') s"

text \<open>\<open>None\<close> stands for what \<open>json.loads\<close>, or indexing a document that is no object, raises. The payloads
  carry a string as their id; \<open>to_str\<close> is \<open>str\<close> of any other value.\<close>

definition quick_parse_payload :: "(json \<Rightarrow> string) \<Rightarrow> string \<Rightarrow> json_obj option worker" where
  "quick_parse_payload to_str raw = do {
     does (Calls ''quick_parse_payload'');
     does (Library ''json'');
     data \<leftarrow> asks (\<lambda>s _. loads (pr_floats s) raw);
     does (Library ''re'');
     State_Monad.return (case data of
         Some (JObj d) \<Rightarrow>
           let text = (case dict_get_default d ''id'' (JStr []) of JStr s \<Rightarrow> s | v \<Rightarrow> to_str v)
           in Some (dict_set ''clean_id'' (JStr (alphanumeric text)) d)
       | _ \<Rightarrow> None)
   }"

definition quick_write_temp_file :: "string \<Rightarrow> string worker" where
  "quick_write_temp_file content = do {
     does (Calls ''quick_write_temp_file'');
     does (Library ''tempfile'');
     path \<leftarrow> asks pr_tmp;
     does (Library ''os'');
     State_Monad.return path
   }"

section \<open>Slow functions\<close>

definition slow_read_from_db :: "string \<Rightarrow> json_obj worker" where
  "slow_read_from_db query = do {
     does (Calls ''slow_read_from_db'');
     time_sleep (2 / 10);
     State_Monad.return (query_result query)
   }"

definition slow_hash_token :: "string \<Rightarrow> string worker" where
  "slow_hash_token token = do {
     does (Calls ''slow_hash_token'');
     result \<leftarrow> hash_rounds 300000 token;
     State_Monad.return (take 16 (bytes_hex result))
   }"

definition slow_compress :: "string \<Rightarrow> string worker" where
  "slow_compress data = do {
     does (Calls ''slow_compress'');
     hash_rounds 200000 data
   }"

definition slow_call_payment_api :: "rat \<Rightarrow> json_obj worker" where
  "slow_call_payment_api amount = do {
     does (Calls ''slow_call_payment_api'');
     time_sleep (35 / 100);
     State_Monad.return [(''status'', JStr ''ok''), (''amount'', JFloat amount)]
   }"

definition slow_write_audit_log :: "string \<Rightarrow> unit worker" where
  "slow_write_audit_log entry = do {
     does (Calls ''slow_write_audit_log'');
     time_sleep (1 / 10)
   }"

section \<open>Workers\<close>

text \<open>One turn of each endless loop. A float prints as the \<open>repr\<close> of the process.\<close>

definition ingest_turn :: "(json \<Rightarrow> string) \<Rightarrow> unit worker" where
  "ingest_turn to_str = do {
     items \<leftarrow> process_batch_async [1, 2, 3];
     print_line (''[ingest] fetched '' @ str_of_int (int (length items)) @ '' items (async)'');
     does (Library ''json'');
     payload \<leftarrow> asks (\<lambda>s _. dumps (pr_floats s) (JObj [(''items'', JList items), (''id'', JStr ''batch-001'')]));
     _ \<leftarrow> quick_parse_payload to_str payload;
     checksum \<leftarrow> quick_hash_md5 payload;
     quick_cache_set (''ingest:'' @ checksum) payload;
     _ \<leftarrow> quick_write_temp_file payload;
     print_line (''[ingest] processed locally: checksum='' @ take 8 checksum @ '' (fast sync, OK)'');
     async_notify ''ingest'' (''batch ready: '' @ str_of_int (int (length payload)) @ '' bytes'');
     print_line ''[ingest] notified (async I/O, OK)'';
     compressed \<leftarrow> slow_compress payload;
     print_line (''[ingest] compressed '' @ str_of_int (int (length compressed)) @ '' bytes (sync, BLOCKING)'');
     result \<leftarrow> slow_read_from_db ''INSERT INTO events ...'';
     rows \<leftarrow> asks (\<lambda>s _. number_field (pr_floats s) result ''rows'');
     print_line (''[ingest] wrote '' @ rows @ '' rows (sync, BLOCKING)'');
     asyncio_sleep (8 / 10)
   }"

definition auth_turn :: "unit worker" where
  "auth_turn = do {
     asyncio_sleep 1;
     cached \<leftarrow> quick_cache_get ''auth:last-token'';
     now \<leftarrow> asks (\<lambda>s i. ft_repr (pr_floats s) (pr_time s i));
     quick_cache_set ''auth:attempts'' now;
     print_line (''[auth] cache check: '' @ (if cached \<noteq> None \<and> cached \<noteq> Some [] then ''hit'' else ''miss'')
       @ '' (fast sync, OK)'');
     _ \<leftarrow> async_db_write ''UPDATE sessions SET last_seen = NOW()'';
     print_line ''[auth] updated session (async I/O, OK)'';
     token \<leftarrow> slow_hash_token ''user-session-abc123'';
     quick_cache_set ''auth:last-token'' token;
     print_line (''[auth] hashed token -> '' @ token @ '' (sync, BLOCKING)'')
   }"

text \<open>\<open>re.match(r"^ORD-\d+$", order_id)\<close>\<close>

definition matches_order :: "string \<Rightarrow> bool" where
  "matches_order order_id \<longleftrightarrow>
     startswith order_id ''ORD-'' \<and>
     (let tail = drop 4 order_id;
          number = (if tail \<noteq> [] \<and> last tail = CHR 0x0A then butlast tail else tail)
      in number \<noteq> [] \<and> list_all is_digit number)"

definition payment_turn :: "unit worker" where
  "payment_turn = do {
     asyncio_sleep (12 / 10);
     let order_id = ''ORD-12345'';
     let amount = fl (9999 / 100);
     does (Library ''json'');
     order_json \<leftarrow> asks (\<lambda>s _. dumps (pr_floats s)
       (JObj [(''id'', JStr order_id), (''amount'', JFloat amount), (''currency'', JStr ''EUR'')]));
     does (Library ''re'');
     let valid_id = matches_order order_id;
     _ \<leftarrow> quick_write_temp_file order_json;
     print_line (''[payment] validated order '' @ order_id @ '': '' @ (if valid_id then ''True'' else ''False'')
       @ '' (fast sync, OK)'');
     async_notify ''payments'' (''processing '' @ order_id);
     print_line ''[payment] notified (async I/O, OK)'';
     resp \<leftarrow> slow_call_payment_api amount;
     charged \<leftarrow> asks (\<lambda>s _. number_field (pr_floats s) resp ''amount'');
     print_line (''[payment] charged '' @ charged @ '' (sync, BLOCKING)'');
     slow_write_audit_log (''payment '' @ charged);
     print_line ''[payment] audit log written (sync, BLOCKING)''
   }"

text \<open>\<open>n\<close> turns of a loop.\<close>

fun turns :: "nat \<Rightarrow> unit worker \<Rightarrow> unit worker" where
  "turns 0 turn = State_Monad.return ()"
| "turns (Suc n) turn = do { turn; turns n turn }"

definition ingest_worker :: "(json \<Rightarrow> string) \<Rightarrow> nat \<Rightarrow> unit worker" where
  "ingest_worker to_str n = turns n (ingest_turn to_str)"

definition auth_worker :: "nat \<Rightarrow> unit worker" where
  "auth_worker n = turns n auth_turn"

definition payment_worker :: "nat \<Rightarrow> unit worker" where
  "payment_worker n = turns n payment_turn"

text \<open>\<open>main\<close> announces what is flagged, and runs the three workers as tasks 0, 1 and 2 of the loop.\<close>

definition flagged_lines :: "string \<times> string" where
  "flagged_lines =
     (''FLAGGED:     slow_read_from_db (I/O), slow_hash_token (CPU/GIL), slow_compress (CPU/GIL),'',
      ''             slow_call_payment_api (I/O), slow_write_audit_log (I/O)'')"

definition WORKLOAD_FLAGGED :: "string list" where
  "WORKLOAD_FLAGGED = listed_names (fst flagged_lines) @ listed_names (snd flagged_lines)"

lemma WORKLOAD_FLAGGED_names:
  "WORKLOAD_FLAGGED = [''slow_read_from_db'', ''slow_hash_token'', ''slow_compress'', ''slow_call_payment_api'', ''slow_write_audit_log'']"
  by code_simp

definition announce :: "unit worker" where
  "announce = do {
     print_line ''=== Mixed workload: 3 async workers with different blocking bugs ==='';
     print_line (fst flagged_lines);
     print_line (snd flagged_lines);
     print_line (''NOT FLAGGED: quick_* (fast sync), async_db_write/async_notify (to_thread, I/O), fetch_data_async'' @ newline)
   }"

definition mixed_workers :: "(json \<Rightarrow> string) \<Rightarrow> nat \<Rightarrow> unit worker list" where
  "mixed_workers to_str n = [ingest_worker to_str n, auth_worker n, payment_worker n]"

text \<open>What the callbacks of an iteration of this loop do: those of the loop, a stretch of a worker, the
  announcement of \<open>main\<close> before it waits for the workers, or a task of \<open>gather\<close>. Task \<open>k\<close> runs on \<open>s k\<close>.\<close>

definition main_steps :: "cache process \<Rightarrow> step list" where
  "main_steps s = pr_steps (snd (run_state announce s))"

definition mixed_callback ::
  "(json \<Rightarrow> string) \<Rightarrow> nat \<Rightarrow> (nat \<Rightarrow> cache process) \<Rightarrow> nat option \<times> step list \<Rightarrow> bool" where
  "mixed_callback to_str n s c =
     (case c of
        (None, seg) \<Rightarrow> list_all housekeeping seg
      | (Some k, seg) \<Rightarrow>
          if k < 3 then seg \<in> set (segments (pr_steps (snd (run_state (mixed_workers to_str n ! k) (s k)))))
          else if k = 3 then seg = main_steps (s k)
          else seg = [] \<or> (\<exists>i \<in> set [1, 2, 3]. seg \<in> set (segments (pr_steps (snd (run_state (fetch_data_async i) (s k)))))))"

section \<open>The payload\<close>

text \<open>What \<open>ingest_worker\<close> hands to \<open>quick_parse_payload\<close> always parses, so no exception ends the worker there.\<close>

lemma payload_parses:
  assumes "json_ok (pr_floats s) (JList items)"
    and "payload = dumps (pr_floats s) (JObj [(''items'', JList items), (''id'', JStr ''batch-001'')])"
  shows "fst (run_state (quick_parse_payload to_str payload) s) =
    Some [(''items'', JList items), (''id'', JStr ''batch-001''), (''clean_id'', JStr ''batch001'')]"
proof -
  have "json_ok (pr_floats s) (JObj [(''items'', JList items), (''id'', JStr ''batch-001'')])"
    using assms(1) by (simp add: dict_keys_def ascii_def)
  from loads_dumps [OF this, of "[]" "'' ''"]
  have "loads (pr_floats s) payload = Some (JObj [(''items'', JList items), (''id'', JStr ''batch-001'')])"
    by (simp add: assms(2) json_space_def)
  moreover have "alphanumeric ''batch-001'' = ''batch001''"
    by code_simp
  ultimately show ?thesis
    by (simp add: quick_parse_payload_def does_def asks_def dict_get_default_def dict_set_def)
qed

section \<open>The steps of the functions\<close>

lemma plain_outlines:
  "outline (fetch_data_async i) [Calls ''fetch_data_async'', Awaits (AsyncSleep (5 / 100))]"
  "outline (blocking_db_write q) [Calls ''_blocking_db_write'', Sleeps (2 / 10)]"
  "outline (blocking_notify c m) [Calls ''_blocking_notify'', Sleeps (1 / 10)]"
  "outline (quick_cache_get k) [Calls ''quick_cache_get'', Library ''sqlite3'']"
  "outline (quick_cache_set k v) [Calls ''quick_cache_set'', Library ''sqlite3'']"
  "outline (quick_hash_md5 d) [Calls ''quick_hash_md5'', Library ''hashlib'']"
  "outline (quick_parse_payload to_str d) [Calls ''quick_parse_payload'', Library ''json'', Library ''re'']"
  "outline (quick_write_temp_file d) [Calls ''quick_write_temp_file'', Library ''tempfile'', Library ''os'']"
  "outline (slow_read_from_db q) [Calls ''slow_read_from_db'', Sleeps (2 / 10)]"
  "outline (slow_hash_token d) [Calls ''slow_hash_token'', Hashes 300000]"
  "outline (slow_compress d) [Calls ''slow_compress'', Hashes 200000]"
  "outline (slow_call_payment_api x) [Calls ''slow_call_payment_api'', Sleeps (35 / 100)]"
  "outline (slow_write_audit_log d) [Calls ''slow_write_audit_log'', Sleeps (1 / 10)]"
  unfolding fetch_data_async_def blocking_db_write_def blocking_notify_def quick_cache_get_def quick_cache_set_def
    quick_hash_md5_def quick_parse_payload_def quick_write_temp_file_def slow_read_from_db_def slow_hash_token_def
    slow_compress_def slow_call_payment_api_def slow_write_audit_log_def time_sleep_def hash_rounds_def asyncio_sleep_def
  by (rule outline_cong, (rule outline_bind outline_suspends outline_does outlines)+, simp)+

lemma offloaded_outlines:
  "outline (async_db_write q)
     [Calls ''async_db_write'', Awaits (InThread [Calls ''_blocking_db_write'', Sleeps (2 / 10)])]"
  "outline (async_notify c m)
     [Calls ''async_notify'', Awaits (InThread [Calls ''_blocking_notify'', Sleeps (1 / 10)])]"
  unfolding async_db_write_def async_notify_def
  by (rule outline_cong, (rule outline_bind outline_does outline_to_thread plain_outlines)+, simp, simp)+

lemma outline_batch:
  "outline (process_batch_async is) [Calls ''process_batch_async'',
     Awaits (Gathered (replicate (length is) [Calls ''fetch_data_async'', Awaits (AsyncSleep (5 / 100))]))]"
proof -
  have "list_all (\<lambda>f. outline f [Calls ''fetch_data_async'', Awaits (AsyncSleep (5 / 100))]) (map fetch_data_async is)"
    unfolding list_all_iff set_map by (blast intro: plain_outlines(1))
  from outline_gather [OF this] show ?thesis
    unfolding process_batch_async_def
    by (intro outline_cong [OF outline_bind [OF outline_does]]) (assumption | simp)+
qed

lemmas worker_outlines = plain_outlines offloaded_outlines outline_batch outline_suspends outline_does outlines

text \<open>One turn of each worker.\<close>

definition ingest_steps :: "step list" where
  "ingest_steps = [Calls ''process_batch_async'',
     Awaits (Gathered (replicate 3 [Calls ''fetch_data_async'', Awaits (AsyncSleep (5 / 100))])), Prints [], Library ''json'',
     Calls ''quick_parse_payload'', Library ''json'', Library ''re'', Calls ''quick_hash_md5'', Library ''hashlib'',
     Calls ''quick_cache_set'', Library ''sqlite3'', Calls ''quick_write_temp_file'', Library ''tempfile'', Library ''os'', Prints [],
     Calls ''async_notify'', Awaits (InThread [Calls ''_blocking_notify'', Sleeps (1 / 10)]), Prints [], Calls ''slow_compress'',
     Hashes 200000, Prints [], Calls ''slow_read_from_db'', Sleeps (2 / 10), Prints [], Awaits (AsyncSleep (8 / 10))]"

definition auth_steps :: "step list" where
  "auth_steps = [Awaits (AsyncSleep 1), Calls ''quick_cache_get'', Library ''sqlite3'', Calls ''quick_cache_set'',
     Library ''sqlite3'', Prints [], Calls ''async_db_write'',
     Awaits (InThread [Calls ''_blocking_db_write'', Sleeps (2 / 10)]), Prints [], Calls ''slow_hash_token'', Hashes 300000,
     Calls ''quick_cache_set'', Library ''sqlite3'', Prints []]"

definition payment_steps :: "step list" where
  "payment_steps = [Awaits (AsyncSleep (12 / 10)), Library ''json'', Library ''re'', Calls ''quick_write_temp_file'',
     Library ''tempfile'', Library ''os'', Prints [], Calls ''async_notify'',
     Awaits (InThread [Calls ''_blocking_notify'', Sleeps (1 / 10)]), Prints [], Calls ''slow_call_payment_api'',
     Sleeps (35 / 100), Prints [], Calls ''slow_write_audit_log'', Sleeps (1 / 10), Prints []]"

lemma turn_outlines:
  "outline (ingest_turn to_str) ingest_steps" "outline auth_turn auth_steps" "outline payment_turn payment_steps"
  unfolding ingest_turn_def auth_turn_def payment_turn_def ingest_steps_def auth_steps_def payment_steps_def Let_def asyncio_sleep_def
  by (rule outline_cong, (rule outline_bind worker_outlines)+, simp add: numeral_3_eq_3)+

lemma outline_turns: "outline m ks \<Longrightarrow> outline (turns n m) (concat (replicate n ks))"
proof (induction n)
  case (Suc n)
  then show ?case
    using outline_bind [of m ks "\<lambda>_. turns n m"] by simp
qed (simp add: outline_return)

section \<open>What blocksnoop reports\<close>

abbreviation fine :: "rat \<Rightarrow> step list \<Rightarrow> bool" where
  "fine round_ns \<equiv> as_announced WORKLOAD_FLAGGED round_ns 50000000"

text \<open>Turn after turn: from a remainder that the turn leaves again, and from the start.\<close>

lemma segments_of_turns:
  assumes "\<And>rest. segments_from left (turn @ rest) = later @ segments_from left rest" and "list_all P later"
    and "\<And>rest. segments (turn @ rest) = first @ segments_from left rest" and "list_all P first"
  shows "list_all P (segments (concat (replicate n turn)))"
proof -
  have "list_all P (segments_from left (concat (replicate m turn)))" for m
    using assms(1,2) by (induction m) simp_all
  then show ?thesis
    using assms(3,4) by (cases n) simp_all
qed

lemma fine_turns:
  assumes "167 \<le> round_ns"
  shows "list_all (fine round_ns) (segments (concat (replicate n ingest_steps)))"
    and "list_all (fine round_ns) (segments (concat (replicate n auth_steps)))"
    and "list_all (fine round_ns) (segments (concat (replicate n payment_steps)))"
proof -
  have nn: "0 \<le> round_ns" "50000000 < 300000 * round_ns" "0 < 150000000 + 200000 * round_ns"
    using assms by linarith+
  note eval = as_announced_def outlasts_def busy_ns_def WORKLOAD_FLAGGED_names
  show "list_all (fine round_ns) (segments (concat (replicate n ingest_steps)))"
    by (rule segments_of_turns [where left = "[]"]) (simp_all add: ingest_steps_def, simp_all add: eval nn)
  show "list_all (fine round_ns) (segments (concat (replicate n auth_steps)))"
    by (rule segments_of_turns [where left = "drop 8 auth_steps"]) (simp_all add: auth_steps_def, simp_all add: eval nn)
  show "list_all (fine round_ns) (segments (concat (replicate n payment_steps)))"
    by (rule segments_of_turns [where left = "drop 9 payment_steps"]) (simp_all add: payment_steps_def, simp_all add: eval nn)
qed

lemma outlined_segments:
  assumes "outline m ks" and "pr_steps s = []" and "list_all (fine round_ns) (segments ks)"
  shows "list_all (fine round_ns) (segments (pr_steps (snd (run_state m s))))"
proof -
  obtain ss where "pr_steps (snd (run_state m s)) = ss" "map untexted ss = ks"
    using assms(1) [unfolded outline_def, rule_format, of s] assms(2) by auto
  moreover have "list_all (fine round_ns) (map (map untexted) (segments ss))" if "map untexted ss = ks"
    using assms(3) segments_untexted [of "[]" ss] that by simp
  ultimately show ?thesis
    by (simp add: list_all_iff as_announced_untexted)
qed

lemma fine_worker:
  assumes "167 \<le> round_ns" and "pr_steps s = []" and "k < 3"
  shows "list_all (fine round_ns) (segments (pr_steps (snd (run_state (mixed_workers to_str n ! k) s))))"
proof -
  note worker = outlined_segments [OF outline_turns assms(2)]
  have "list_all (fine round_ns) (segments (pr_steps (snd (run_state (ingest_worker to_str n) s))))"
    "list_all (fine round_ns) (segments (pr_steps (snd (run_state (auth_worker n) s))))"
    "list_all (fine round_ns) (segments (pr_steps (snd (run_state (payment_worker n) s))))"
    unfolding ingest_worker_def auth_worker_def payment_worker_def
    by (rule worker, rule turn_outlines, rule fine_turns [OF assms(1)])+
  moreover have "k = 0 \<or> k = 1 \<or> k = 2"
    using assms(3) by linarith
  ultimately show ?thesis
    by (auto simp: mixed_workers_def)
qed

lemma fine_main:
  assumes "pr_steps s = []"
  shows "fine round_ns (main_steps s)"
  using assms by (simp add: main_steps_def announce_def print_line_def does_def as_announced_def busy_ns_def)

lemma fine_child:
  assumes "pr_steps s = []"
  shows "list_all (fine round_ns) (segments (pr_steps (snd (run_state (fetch_data_async i) s))))"
  by (rule outlined_segments [OF plain_outlines(1) assms]) (simp add: as_announced_def busy_ns_def WORKLOAD_FLAGGED_names)

lemma mixed_callback_fine:
  assumes "167 \<le> round_ns" and "\<And>k. pr_steps (s k) = []" and "mixed_callback to_str n s (j, seg)"
  shows "if j = None then list_all housekeeping seg else fine round_ns seg"
proof (cases j)
  case None
  then show ?thesis
    using assms(3) by (simp add: mixed_callback_def)
next
  case (Some k)
  have "fine round_ns []"
    by (simp add: as_announced_def)
  with Some show ?thesis
    using assms(3) fine_worker [OF assms(1,2), of k to_str n k] fine_main [OF assms(2), of round_ns k]
      fine_child [OF assms(2), of round_ns _ k]
    by (auto simp: mixed_callback_def list_all_iff split: if_splits)
qed

text \<open>Every function a worker calls on the thread of the loop is judged rightly by the announcement.\<close>

lemma turns_judged:
  "judged WORKLOAD_FLAGGED (concat (replicate n ingest_steps))"
  "judged WORKLOAD_FLAGGED (concat (replicate n auth_steps))"
  "judged WORKLOAD_FLAGGED (concat (replicate n payment_steps))"
  by (rule judged_concat, simp add: ingest_steps_def auth_steps_def payment_steps_def WORKLOAD_FLAGGED_names)+

lemma worker_judged:
  assumes "pr_steps s = []" and "k < 3"
  shows "judged WORKLOAD_FLAGGED (pr_steps (snd (run_state (mixed_workers to_str n ! k) s)))"
proof -
  have outlined: "judged WORKLOAD_FLAGGED (pr_steps (snd (run_state m s)))"
    if m: "outline m ks" "judged WORKLOAD_FLAGGED ks" for m :: "unit worker" and ks
  proof -
    obtain ss where "pr_steps (snd (run_state m s)) = ss" "map untexted ss = ks"
      using m(1) [unfolded outline_def, rule_format, of s] assms(1) by auto
    with m(2) show ?thesis
      using judged_untexted by metis
  qed
  have "k = 0 \<or> k = 1 \<or> k = 2"
    using assms(2) by linarith
  then show ?thesis
    using outlined [OF outline_turns [OF turn_outlines(1)] turns_judged(1)]
      outlined [OF outline_turns [OF turn_outlines(2)] turns_judged(2)]
      outlined [OF outline_turns [OF turn_outlines(3)] turns_judged(3)]
    by (auto simp: mixed_workers_def ingest_worker_def auth_worker_def payment_worker_def)
qed

text \<open>C37: What the workload prints about itself when it is run under \<open>-t 50\<close> is right. However the loop
  interleaves the three workers, on a machine where \<open>time.sleep\<close> does not return early, a round of
  SHA-256 takes at least 167 ns, and the loop needs at most 50 ms for work that neither sleeps nor
  hashes: the probes report exactly the iterations in which one of the five announced functions is
  called on the thread of the loop, with their times. Fast functions, functions handed to a thread
  and the tasks of \<open>gather\<close> add none. Of the functions a worker calls on that thread, the announced
  ones are those that block before they do anything else, no more and no less.\<close>

theorem workload_flags_announced:
  assumes "\<And>k. pr_steps (s k) = []" and "list_all (\<lambda>it. list_all (mixed_callback to_str n s) (it_callbacks it)) its"
    and "loop_trace its (target_times p hits)" and "pp_threshold_ns p = 50000000"
    and "167 \<le> round_ns" and "well_timed round_ns 50000000 its"
  shows "submitted (run_probes p hits) = map (\<lambda>it. event_of_phase p (it_start it, it_end it))
      (filter (\<lambda>it. list_ex (announced WORKLOAD_FLAGGED) (it_steps it)) its) \<and>
    (\<forall>k before f st after. k < 3 \<and>
       pr_steps (snd (run_state (mixed_workers to_str n ! k) (s k))) = before @ Calls f # st # after \<longrightarrow>
       (f \<in> set WORKLOAD_FLAGGED \<longleftrightarrow> blocking st))"
proof -
  have limit: "unat (pp_threshold_ns p) = 50000000"
    by (simp add: assms(4))
  have "list_all (runs_announced WORKLOAD_FLAGGED round_ns 50000000) its"
    using assms(2) mixed_callback_fine [OF assms(5,1)] unfolding list_all_iff runs_announced_def by fast
  then show ?thesis
    using announced_iterations [OF assms(3), of round_ns WORKLOAD_FLAGGED] assms(6) judged_called worker_judged [OF assms(1)]
    by (simp add: limit) (metis judged_called)
qed

definition first_worker :: "cache process" where
  "first_worker = \<lparr>pr_db = [], pr_steps = [], pr_time = (\<lambda>_. 0), pr_hash = (\<lambda>_. 0), pr_tmp = (\<lambda>_. []),
     pr_floats = \<lparr>ft_repr = (\<lambda>_. []), ft_parse = (\<lambda>_. 0)\<rparr>, pr_others = (\<lambda>_ db. db)\<rparr>"

lemma payment_segment:
  "\<exists>seg \<in> set (segments (pr_steps (snd (run_state (mixed_workers (\<lambda>_. []) 2 ! 2) first_worker)))).
    busy_ns 167 seg = 450000000 \<and> list_ex blocking seg \<and> list_ex (announced WORKLOAD_FLAGGED) seg"
proof -
  obtain ss where ss: "pr_steps (snd (run_state (mixed_workers (\<lambda>_. []) 2 ! 2) first_worker)) = ss"
    "map untexted ss = concat (replicate 2 payment_steps)"
    using outline_turns [OF turn_outlines(3), of 2, unfolded outline_def, rule_format, of first_worker]
    by (auto simp: first_worker_def mixed_workers_def payment_worker_def)
  have "\<exists>seg \<in> set (segments (concat (replicate 2 payment_steps))).
      busy_ns 167 seg = 450000000 \<and> list_ex blocking seg \<and> list_ex (announced WORKLOAD_FLAGGED) seg"
    by (simp add: payment_steps_def numeral_2_eq_2 busy_ns_def WORKLOAD_FLAGGED_names)
  also have "segments (concat (replicate 2 payment_steps)) = map (map untexted) (segments ss)"
    using segments_untexted [of "[]" ss] by (simp add: ss)
  finally show ?thesis
    unfolding ss(1) by (auto simp: busy_ns_untexted list_ex_untexted)
qed

lemma workload_flags_announced_witness:
  "\<exists>seg its. list_ex (announced WORKLOAD_FLAGGED) seg \<and> (\<exists>it \<in> set its. (Some 2, seg) \<in> set (it_callbacks it)) \<and>
    submitted (run_probes t50_params (loop_hits its)) = [event_of_phase t50_params (4000000, 460000000)]"
proof -
  obtain seg where seg: "seg \<in> set (segments (pr_steps (snd (run_state (mixed_workers (\<lambda>_. []) 2 ! 2) first_worker))))"
    "busy_ns 167 seg = 450000000" "list_ex blocking seg" "list_ex (announced WORKLOAD_FLAGGED) seg"
    using payment_segment by blast
  define its where "its = [\<lparr>it_start = 0, it_end = 1000000, it_callbacks = [(Some 3, main_steps first_worker)]\<rparr>,
    \<lparr>it_start = 2000000, it_end = 3000000, it_callbacks = [(None, [Library ''asyncio'']), (Some 4, [])]\<rparr>,
    \<lparr>it_start = 4000000, it_end = 460000000, it_callbacks = [(Some 2, seg)]\<rparr>]"
  have main: "busy_ns r (main_steps first_worker) = 0" "\<not> list_ex blocking (main_steps first_worker)"
    "\<not> list_ex (announced names) (main_steps first_worker)" for r names
    by (simp_all add: main_steps_def announce_def print_line_def does_def first_worker_def busy_ns_def)
  have "list_all (\<lambda>it. list_all (mixed_callback (\<lambda>_. []) 2 (\<lambda>_. first_worker)) (it_callbacks it)) its"
    using seg(1) by (simp add: its_def mixed_callback_def)
  moreover have "well_timed 167 50000000 its"
    using seg housekeeping_steps [of "[Library ''asyncio'']" 167] main
    by (simp add: its_def well_timed_def loop_times_def it_steps_def)
  moreover have "loop_trace its (target_times t50_params (loop_hits its))"
    unfolding loop_trace_def by (rule disjI1, rule loop_hits_times) (simp add: its_def)
  ultimately have "submitted (run_probes t50_params (loop_hits its)) = map (\<lambda>it. event_of_phase t50_params (it_start it, it_end it))
      (filter (\<lambda>it. list_ex (announced WORKLOAD_FLAGGED) (it_steps it)) its)"
    by (intro workload_flags_announced [where s = "\<lambda>_. first_worker" and n = 2 and to_str = "\<lambda>_. []"
          and round_ns = 167, THEN conjunct1])
      (simp_all add: first_worker_def t50_params_def)
  also have "\<dots> = [event_of_phase t50_params (4000000, 460000000)]"
    using seg(4) main by (simp add: its_def it_steps_def)
  finally show ?thesis
    using seg(4) by (intro exI [of _ seg] exI [of _ its]) (simp add: its_def)
qed

end
