(* ===== verification/Spec2Isabelle.thy ===== *)
theory Spec2Isabelle
  imports Sha256_Vector Md5_Vector Probes BccContract CliArgs JsonLines RecordTypes SidecarProtocol SidecarLoader
    BackendEquivalence Pipeline StatsSession Packaging FastapiServer MixedWorkload
begin

text \<open>
  A verification development of blocksnoop, a tool that attaches to a running Python process (or
  launches one), measures in the kernel how long the callbacks of its asyncio event loop run between
  two \<open>epoll_wait\<close> calls, and reports every phase that blocks the loop for longer than a threshold,
  with the Python stacks sampled meanwhile. File names below are relative to \<open>src/\<close>.

  \<^bold>\<open>The program and how its parts interact.\<close> \<open>blocksnoop/cli.py\<close> parses the command line, checks the
  environment and runs either \<open>blocksnoop doctor\<close> or a session. A session has a detector, Core or
  BCC (\<open>blocksnoop/backends.py\<close>). The Core detector (\<open>core_backend.py\<close>) starts the native loader
  \<open>native/blocksnoop_ebpf.c\<close>, which attaches the BPF programs of \<open>bpf/core_blockdetect.bpf.c\<close> and prints
  one JSON record per line; a reader thread parses them and calls back. The BCC detector (\<open>detector.py\<close>)
  compiles the same probes from a template and polls a perf buffer. In the normal mode the callback
  is \<open>Correlator.on_event\<close> (\<open>correlator.py\<close>), which looks up the stacks that the Austin sampler
  (\<open>profiler.py\<close>) has pushed into a ring buffer, and calls \<open>Reporter.report\<close> (\<open>reporter.py\<close>), which
  keeps the totals and hands records to the sinks (\<open>sinks.py\<close>). In the stats mode it is
  \<open>StatsCollector.on_event\<close> (\<open>stats.py\<close>), printed by a timer. The main thread waits in \<open>_run_loop\<close>.

  \<^bold>\<open>Which theory models what.\<close>
  \<^item> \<open>Prelude\<close>, \<open>PyStr\<close>, \<open>PyFloat\<close>, \<open>PyFormat\<close>, \<open>JsonText\<close>, \<open>Bisect\<close>, \<open>Sha256\<close>, \<open>Md5\<close>, \<open>ProcFs\<close>, \<open>Process\<close>: what the
    source uses of Python: exceptions and results, dictionaries as association lists in insertion
    order, \<open>str\<close>, \<open>int(...)\<close>, binary64 arithmetic by exact rounding, f-string formats, \<open>json.dumps\<close> and
    \<open>json.loads\<close>, the \<open>bisect\<close> module (locale \<open>bisection\<close>), \<open>hashlib\<close>, procfs, child processes.
  \<^item> \<open>Core\<close> (\<open>core.py\<close>), \<open>RingBuffer\<close> and \<open>Sampler\<close> (\<open>profiler.py\<close>), \<open>Correlator\<close>, \<open>Stats\<close>, \<open>Sinks\<close>, \<open>Reporter\<close>,
    \<open>Losses\<close> (the loss ledger of both detectors, a locale), \<open>CoreBackend\<close>, \<open>Detector\<close>, \<open>Backends\<close>,
    \<open>Diagnostics\<close>: the Python components. A class is a record with its constructor under the class's
    name and one function per method, from the state before to the state after and the exception
    raised, if any; a lock-protected method is one step.
  \<^item> \<open>Probes\<close> (the BPF template of \<open>detector.py\<close>) and \<open>Sidecar\<close> (the Core BPF programs and the loader):
    64-bit time stamps with wrapping subtraction, 32-bit ids, the hash map of phase starts.
  \<^item> \<open>ArgParse\<close> and \<open>CliArgs\<close> (\<open>_parse_args\<close>), \<open>Cli\<close> (\<open>main\<close> after parsing), \<open>RunLoop\<close> (\<open>_run_loop\<close> with
    its signal handlers, clean-up and child).
  \<^item> \<open>Pipeline\<close> and \<open>StatsSession\<close>: the threads of the two modes as step relations. Stopping a detector waits for
    its thread for two seconds at most; \<open>StatsSession\<close> has a stop, and events may arrive in all its states,
    after the stop has returned too, until the thread of the detector ends (\<open>sn_deliverer\<close>).
  \<^item> \<open>KernelContract\<close> and \<open>Packaging\<close>: \<open>scripts/kernel_contract.py\<close>, \<open>setup.py\<close>, \<open>scripts/verify_native_wheel.py\<close>.
    What the sidecar lookup finds in an installed package is read off the installed files.
  \<^item> \<open>BackendEquivalence\<close>: the Core and the BCC backend side by side.
  \<^item> \<open>EventLoop\<close>, \<open>FastapiServer\<close>, \<open>MixedWorkload\<close>: the demonstration servers under \<open>examples/\<close>, each function in the
    state monad with the steps it does on the thread of the loop, and the iterations of the loop as
    the kernel probes see them.

  \<^bold>\<open>What the lemmas show.\<close>
  \<^item> The probes report exactly the phases longer than the threshold, the Core programs report what
    the BCC probes report (\<open>Probes\<close>, \<open>Sidecar\<close>); which command line the loader takes, which probes it
    attaches with which configuration, and that it gives back all it takes (\<open>SidecarLoader\<close>).
  \<^item> For the same target and the same hits both backends call back with the same events
    (\<open>BackendEquivalence\<close>, with the predicate \<open>lossless_run\<close> for a Core session that loses nothing).
  \<^item> The functions the demonstration servers announce as flagged, read off the lines they print, are the
    ones the probes report, and no others; the request loop yields one event per login and per profile (\<open>FastapiServer\<close>,
    \<open>MixedWorkload\<close>, on the lemmas of \<open>EventLoop\<close>).
  \<^item> The command the Python side builds is the one the loader reads, and the records the loader prints
    are the ones the reader delivers (\<open>SidecarProtocol\<close>); the handshake, delivery (against a field by
    field description of a valid event message), loss ledger, error state, stop and the sidecar taken
    down after a failed start of the Core detector (\<open>CoreProtocol\<close>) and of the BCC detector (\<open>BccContract\<close>).
  \<^item> The ring buffer refines a bounded queue; a window query is a filter; the correlator loses no
    stack and invents none; the reporter's totals are those of its events; every line of a JSON
    stream has a type (\<open>RecordTypes\<close>) and reads back as the record it was (\<open>JsonLines\<close>).
  \<^item> The invariants of both thread systems, for every interleaving: no event is lost or reported
    twice, every stack is evidence from the search window, every statistics record describes the
    events before it, and the last one covers what had arrived before the stop; and progress.
  \<^item> However the run loop is left, the pipeline is stopped, the exit callback called and the child
    reaped exactly once, with a true termination reason; the exit status of \<open>main\<close> is true.
  \<^item> A command line written out for a namespace parses back to it, and what it launches is what was
    typed (\<open>mw_popen\<close> is given the command and the standard output of the child); no parse yields an unknown backend
    or policy; misspelt options never start a session (\<open>CliArgs\<close>).
  \<^item> This theory composes them: from the hits of the kernel probes, through loader, reader and threads,
    to the reporter's totals, the summary and the exit status, and to the last statistics record;
    and from the words of the command line to the exit status of the program.

  \<^bold>\<open>Bounds and fuel.\<close> Loops are structural or have a measure; loops that run until a signal (\<open>wait_forever\<close>, the
  poll loops) consume a script of what the world does and say so when it ends. Only the JSON parser
  takes fuel, the length of the text, and the round trips of \<open>JsonText\<close> show that it is enough. Floats have binary64 rounding but no overflow to infinity, which durations below \<open>2 ^ 45\<close> ms never
  reach. List indices stay below \<open>2 ^ 53\<close> where a percentile index is computed in floats; the theorems
  that need it say so. \<open>int(...)\<close> refuses more than 4300 digits, as CPython does.

  \<^bold>\<open>Parameters.\<close> Code outside the repository is an argument: \<open>getopt_long\<close>, libbpf and the BPF helpers, the
  \<open>bcc\<close> module, Austin, setuptools, \<open>linecache.getline\<close>, clocks, the file system, \<open>float\<close> on a word of the
  command line and \<open>repr\<close> of a float. What is relied on is a named hypothesis (\<open>getopt_ok\<close>,
  \<open>serviceable\<close>, \<open>float_text_ok\<close>, \<open>expressible\<close>, \<open>kernel_lists\<close>, \<open>well_timed\<close>), and each has a witness.

  The endless loops of the demonstration servers are their first \<open>n\<close> turns, for every \<open>n\<close>; their sleeping
  times are the decimals of the source.

  \<^bold>\<open>Not modelled.\<close> Debug logging and the wording of messages on standard error; write errors of the output
  streams; in the demonstration servers, exceptions of the standard library and the names of temporary files; the
  help text of the options; the internals of the parameters above; threads at a finer grain than
  one lock-protected section. The dispatch on \<open>__main__\<close>, imports and type annotations have no content to model.
\<close>

section \<open>From the kernel to the report\<close>

text \<open>What the reporter has reported once the thread of the detector has worked off what was delivered.\<close>

lemma session_reported:
  assumes "lossless_run fs d d1 hits d'" and "long = long_phases d1 hits"
    and "pipeline_reachable getline pad (pipeline_start tid grp n r0) p" and "0 < n"
    and "cd_delivered d @ pl_arrived p = cd_delivered d'" and "pl_thread p = Waiting"
  shows "map (\<lambda>(now, ev, ev'). (start_ns ev', end_ns ev')) (pl_reported p) =
      map (\<lambda>ph. (int (fst ph), int (snd ph))) long \<and>
    rp_event_count (pl_reporter p) = rp_event_count r0 + int (length long) \<and>
    rp_error_event_count (pl_reporter p) = rp_error_event_count r0 + int (length (filter
      (\<lambda>ph. rp_error_threshold_ms r0 \<le> py_round 3 (duration_ms (event_of_times d1 ph))) long))"
proof -
  have delivered: "cd_delivered d' = cd_delivered d @ map (event_of_times d1) long"
    using lossless_delivers [OF assms(1)] by (simp add: assms(2))
  have inv: "report_inv tid pad r0 p"
    using reachable_inv [OF assms(3,4)] by (simp add: pipeline_inv_def)
  have "pl_arrived p = map (event_of_times d1) long"
    using assms(5) delivered by simp
  then have arrived: "map (fst \<circ> snd) (pl_reported p) = map (event_of_times d1) long"
    using inv assms(6) by (simp add: report_inv_def in_progress_def)
  have same: "start_ns ev' = start_ns ev \<and> end_ns ev' = end_ns ev" if "(now, ev, ev') \<in> set (pl_reported p)" for now ev ev'
    using inv that by (auto simp: report_inv_def list_all_iff evidence_def)
  have "map (\<lambda>(now, ev, ev'). (start_ns ev', end_ns ev')) (pl_reported p) =
      map ((\<lambda>ev. (start_ns ev, end_ns ev)) \<circ> (fst \<circ> snd)) (pl_reported p)"
    using same by (intro map_cong) auto
  also have "\<dots> = map (\<lambda>ev. (start_ns ev, end_ns ev)) (map (event_of_times d1) long)"
    unfolding arrived [symmetric] by simp
  finally have times: "map (\<lambda>(now, ev, ev'). (start_ns ev', end_ns ev')) (pl_reported p) =
      map (\<lambda>ph. (int (fst ph), int (snd ph))) long"
    by (simp add: event_of_times_def comp_def)
  have "map (event_ms \<circ> (snd \<circ> snd)) (pl_reported p) = map (event_ms \<circ> (fst \<circ> snd)) (pl_reported p)"
    using same by (intro map_cong) (auto simp: event_ms_def duration_ms_def)
  also have "\<dots> = map event_ms (map (event_of_times d1) long)"
    unfolding arrived [symmetric] by simp
  finally have ms: "map event_ms (map (snd \<circ> snd) (pl_reported p)) = map (event_ms \<circ> event_of_times d1) long"
    by simp
  obtain ss where r: "pl_reporter p = (after_events (map (snd \<circ> snd) (pl_reported p)) r0)\<lparr>rp_sinks := ss\<rparr>"
    using inv by (auto simp: report_inv_def)
  have "length (pl_reported p) = length long"
    using arrived by (metis length_map)
  with times show ?thesis
    by (simp add: r after_events_counters ms filter_map del: map_map) (simp add: comp_def event_ms_def)
qed

text \<open>C2: From the kernel to the report. The Core backend attaches to the target, the loader can serve the
  command and nothing is lost on the way. Then, however the sampling thread interleaves with it, once
  the thread of the detector has worked off what the reader delivered, the reporter has reported
  exactly the phases of the target thread that last longer than the threshold: each once, in order,
  with its true times; its event count is their number, and its error count the number of those
  whose rounded duration reaches the error threshold.\<close>

theorem kernel_to_report:
  assumes "build_command fs sidecar (reset_session d) = (d1, Inr command)" and "target_representable d1"
    and "getopt_ok getopt" and "serviceable env lb (target_config d1) sidecar"
    and "list_all (\<lambda>p. \<not> snd p) polls" and "harmless cb"
    and "sorted (map snd (target_times (params_of (target_config d1)) hits))"
    and "c_samples (poll_records polls) = submitted (run_core (target_config d1) hits)"
    and "long = filter (\<lambda>ph. expected_threshold_ns d1 < int (snd ph) - int (fst ph)) (target_phases d1 hits)"
    and "sidecar_main getopt env lb polls command = (out, status)"
    and "read_lines cb (map (line_of ft) out) d1 = (d', x)"
    and "pipeline_reachable getline pad (pipeline_start tid grp n r0) p" and "0 < n"
    and "cd_delivered d @ pl_arrived p = cd_delivered d'" and "pl_thread p = Waiting"
  shows "map (\<lambda>(now, ev, ev'). (start_ns ev', end_ns ev')) (pl_reported p) =
      map (\<lambda>ph. (int (fst ph), int (snd ph))) long \<and>
    rp_event_count (pl_reporter p) = rp_event_count r0 + int (length long) \<and>
    rp_error_event_count (pl_reporter p) = rp_error_event_count r0 + int (length (filter
      (\<lambda>ph. rp_error_threshold_ms r0 \<le> py_round 3 (duration_ms (event_of_times d1 ph))) long))"
  by (rule session_reported [OF lossless_runI [OF assms(1-8,10,11)] assms(9) [folded long_phases_def] assms(12-15)])

lemma example_event_bare: "list_all (\<lambda>ev. python_stacks ev = []) [event_of_times example_core (10, 200000010)]"
  by (simp add: event_of_times_def)

lemma kernel_to_report_witness:
  "\<exists>p. pipeline_reachable (\<lambda>_ _. []) 200 (pipeline_start 7 False 2 example_reporter) p \<and>
     map (\<lambda>(now, ev, ev'). (start_ns ev', end_ns ev')) (pl_reported p) = [(10, 200000010)] \<and>
     rp_event_count (pl_reporter p) = 1"
proof -
  obtain command out status d' x where r:
    "build_command example_fs ''blocksnoop-ebpf'' (reset_session idle_core) = (example_core, Inr command)"
    "sidecar_main plain_getopt ready_env ready_libbpf example_polls command = (out, status)"
    "read_lines silent_callbacks (map (line_of no_floats) out) example_core = (d', x)"
    "cd_delivered d' = [event_of_times example_core (10, 200000010)]"
    by (rule example_run_delivers)
  obtain p where p: "pipeline_reachable (\<lambda>_ _. []) 200 (pipeline_start 7 False 2 example_reporter) p"
    "pl_arrived p = [event_of_times example_core (10, 200000010)]" "pl_thread p = Waiting"
    using deliverable [OF zero_less_numeral example_event_bare] by blast
  have "cd_delivered idle_core @ pl_arrived p = cd_delivered d'"
    using r(4) p(2) by simp
  from kernel_to_report [OF r(1) example_session refl r(2,3) p(1) zero_less_numeral this p(3)] p(1) show ?thesis
    unfolding example_long by (intro exI [of _ p]) (simp add: example_reporter_def Reporter_def)
qed

section \<open>From the kernel to the exit status\<close>

text \<open>What the summary at the end of a session writes to a JSON stream, and what the policy makes of it.\<close>

lemma exit_summary:
  assumes "on_exit_normal clk t0 d reason r = (r', x)"
  shows "x = None \<and> rp_event_count r' = rp_event_count r \<and> rp_error_event_count r' = rp_error_event_count r \<and>
    rp_lost_event_count r' = sum_list (dict_values (detector_loss_counts d)) \<and>
    (\<forall>i s. i < length (rp_sinks r) \<and> rp_sinks r ! i = JsonStream s \<longrightarrow>
      (\<exists>s' final. rp_sinks r' ! i = JsonStream s' \<and> js_stream s' = js_stream s @ [JsonLine final] \<and>
        get_json final ''event_count'' = Some (JInt (rp_event_count r)) \<and>
        get_json final ''error_event_count'' = Some (JInt (rp_error_event_count r)) \<and>
        get_json final ''lost_event_count'' = Some (JInt (sum_list (dict_values (detector_loss_counts d)))) \<and>
        get_json final ''termination_reason'' = Some (JStr reason)))"
proof -
  let ?losses = "detector_loss_counts d" and ?el = "fsub (monotonic clk) t0"
  let ?r1 = "r\<lparr>rp_lost_event_count := sum_list (dict_values ?losses)\<rparr>"
  let ?rec = "summary_record clk ?el ?losses reason ?r1"
  obtain ss where ss: "rp_summary clk ?el ?losses reason r = (?r1\<lparr>rp_sinks := ss\<rparr>, None)"
    "list_all2 (\<lambda>s s'. emit_summary (utc_stamp clk) ?rec s = Inr s') (rp_sinks r) ss"
    using rp_summary_ok [of clk ?el ?losses reason r] by blast
  then have r': "r' = rp_close (?r1\<lparr>rp_sinks := ss\<rparr>)" "x = None"
    using assms by (simp_all add: on_exit_normal_def)
  have "\<exists>s' final. rp_sinks r' ! i = JsonStream s' \<and> js_stream s' = js_stream s @ [JsonLine final] \<and>
        get_json final ''event_count'' = Some (JInt (rp_event_count r)) \<and>
        get_json final ''error_event_count'' = Some (JInt (rp_error_event_count r)) \<and>
        get_json final ''lost_event_count'' = Some (JInt (sum_list (dict_values ?losses))) \<and>
        get_json final ''termination_reason'' = Some (JStr reason)"
    if i: "i < length (rp_sinks r)" "rp_sinks r ! i = JsonStream s" for i s
  proof (intro exI conjI)
    have "ss ! i = JsonStream (json_stream_write ?rec s)" "i < length ss"
      using list_all2_nthD [OF ss(2) i(1)] i list_all2_lengthD [OF ss(2)] by simp_all
    then show "rp_sinks r' ! i = JsonStream (json_stream_write ?rec s)"
      by (simp add: r' rp_close_def)
    show "js_stream (json_stream_write ?rec s) = js_stream s @ [JsonLine (sorted_keys (JObj ?rec))]"
      by (simp add: json_stream_write_def)
  qed (unfold get_json_sorted_keys [OF distinct_record_keys(3)], simp_all add: summary_record_eq dict_get_def)
  then show ?thesis
    by (simp add: r' rp_close_def)
qed

text \<open>The reporter the normal mode starts its pipeline with.\<close>

definition normal_pipeline :: "cli_args \<Rightarrow> int \<Rightarrow> int \<Rightarrow> bool \<Rightarrow> reporter \<Rightarrow> pipeline" where
  "normal_pipeline args pid tid grp r =
     pipeline_start tid grp (rb_size (as_ring_buffer (normal_sampler args pid))) r"

lemma session_verdict:
  assumes "create_detector (ar_backend args) (normal_config args pid) = Inr (Core d)"
    and "lossless_run fs d d1 hits d'" and "long = long_phases d1 hits"
    and "rp_start clk0 (normal_reporter args pid sinks now uuid) = (r0, x0)"
    and "pipeline_reachable getline (normal_padding_ns args) (normal_pipeline args pid tid grp r0) p"
    and "pl_arrived p = cd_delivered d'" and "pl_thread p = Waiting"
    and "on_exit_normal clk t0 (Core d') reason (pl_reporter p) = (r', x')"
    and "slow = filter (\<lambda>ph. ar_error_threshold args \<le> py_round 3 (duration_ms (event_of_times d1 ph))) long"
    and "lost = sum_list (dict_values (cd_loss_counts d'))"
  shows "after_session args (Some 0) (Some r') =
      (if ar_fail_on args = ''event'' \<and> long \<noteq> [] \<or> ar_fail_on args = ''error'' \<and> slow \<noteq> [] \<or>
          ar_fail_on_loss args \<and> lost \<noteq> 0 then Some (SystemExit 3) else None) \<and>
    (\<forall>i s. i < length (rp_sinks (pl_reporter p)) \<and> rp_sinks (pl_reporter p) ! i = JsonStream s \<longrightarrow>
      (\<exists>s' final. rp_sinks r' ! i = JsonStream s' \<and> js_stream s' = js_stream s @ [JsonLine final] \<and>
        get_json final ''event_count'' = Some (JInt (int (length long))) \<and>
        get_json final ''error_event_count'' = Some (JInt (int (length slow))) \<and>
        get_json final ''lost_event_count'' = Some (JInt lost) \<and>
        get_json final ''termination_reason'' = Some (JStr reason)))"
proof -
  have none: "cd_delivered d = []"
    using assms(1) by (auto simp: create_detector_def CoreDetector_def split: if_splits)
  have r0: "rp_event_count r0 = 0" "rp_error_event_count r0 = 0" "rp_error_threshold_ms r0 = ar_error_threshold args"
    using rp_start_ok [of "normal_reporter args pid sinks now uuid" clk0] assms(4)
    by (auto simp: normal_reporter_def Reporter_def)
  have "pipeline_reachable getline (normal_padding_ns args) (pipeline_start tid grp 256 r0) p"
    using assms(5) by (simp add: normal_pipeline_def normal_sampler_def AustinSampler_def StackRingBuffer_def)
  moreover have "cd_delivered d @ pl_arrived p = cd_delivered d'"
    by (simp add: none assms(6))
  ultimately have counts: "rp_event_count (pl_reporter p) = int (length long)"
    "rp_error_event_count (pl_reporter p) = int (length slow)"
    using session_reported [OF assms(2,3) _ zero_less_numeral _ assms(7)] r0 assms(9) by auto
  note fin = exit_summary [OF assms(8)]
  then have final: "rp_event_count r' = int (length long)" "rp_error_event_count r' = int (length slow)"
    "rp_lost_event_count r' = lost"
    by (simp_all add: counts assms(10))
  have "policy_failed (ar_fail_on args) (ar_fail_on_loss args) r' \<longleftrightarrow>
      ar_fail_on args = ''event'' \<and> long \<noteq> [] \<or> ar_fail_on args = ''error'' \<and> slow \<noteq> [] \<or>
      ar_fail_on_loss args \<and> lost \<noteq> 0"
    by (auto simp: policy_failed_def final)
  then show ?thesis
    using fin by (simp add: after_session_def counts assms(10))
qed

text \<open>C3: From the kernel to the exit status. A normal session on the Core backend that loses nothing, with the
  configuration, padding, buffer and reporter \<open>_run_normal\<close> derives from the arguments: for a child
  that exited with 0, the exit status is 3 exactly when \<open>--fail-on event\<close> was given and the target
  had a phase longer than the threshold, \<open>--fail-on error\<close> and one whose rounded duration reaches the
  error threshold, or \<open>--fail-on-loss\<close> and the detector's ledger is not empty; and every JSON stream
  ends with a summary that counts just these phases.\<close>

theorem kernel_to_exit_status:
  assumes "create_detector (ar_backend args) (normal_config args pid) = Inr (Core d)"
    and "build_command fs sidecar (reset_session d) = (d1, Inr command)" and "target_representable d1"
    and "getopt_ok getopt" and "serviceable env lb (target_config d1) sidecar"
    and "list_all (\<lambda>p. \<not> snd p) polls" and "harmless cb"
    and "sorted (map snd (target_times (params_of (target_config d1)) hits))"
    and "c_samples (poll_records polls) = submitted (run_core (target_config d1) hits)"
    and "long = filter (\<lambda>ph. expected_threshold_ns d1 < int (snd ph) - int (fst ph)) (target_phases d1 hits)"
    and "sidecar_main getopt env lb polls command = (out, status)"
    and "read_lines cb (map (line_of ft) out) d1 = (d', x)"
    and "rp_start clk0 (normal_reporter args pid sinks now uuid) = (r0, x0)"
    and "pipeline_reachable getline (normal_padding_ns args) (normal_pipeline args pid tid grp r0) p"
    and "pl_arrived p = cd_delivered d'" and "pl_thread p = Waiting"
    and "on_exit_normal clk t0 (Core d') reason (pl_reporter p) = (r', x')"
    and "slow = filter (\<lambda>ph. ar_error_threshold args \<le> py_round 3 (duration_ms (event_of_times d1 ph))) long"
    and "lost = sum_list (dict_values (cd_loss_counts d'))"
  shows "after_session args (Some 0) (Some r') =
      (if ar_fail_on args = ''event'' \<and> long \<noteq> [] \<or> ar_fail_on args = ''error'' \<and> slow \<noteq> [] \<or>
          ar_fail_on_loss args \<and> lost \<noteq> 0 then Some (SystemExit 3) else None) \<and>
    (\<forall>i s. i < length (rp_sinks (pl_reporter p)) \<and> rp_sinks (pl_reporter p) ! i = JsonStream s \<longrightarrow>
      (\<exists>s' final. rp_sinks r' ! i = JsonStream s' \<and> js_stream s' = js_stream s @ [JsonLine final] \<and>
        get_json final ''event_count'' = Some (JInt (int (length long))) \<and>
        get_json final ''error_event_count'' = Some (JInt (int (length slow))) \<and>
        get_json final ''lost_event_count'' = Some (JInt lost) \<and>
        get_json final ''termination_reason'' = Some (JStr reason)))"
  by (rule session_verdict [OF assms(1) lossless_runI [OF assms(2-9,11,12)] assms(10) [folded long_phases_def] assms(13-19)])

definition gate_args :: cli_args where
  "gate_args = example_args\<lparr>ar_stats := False, ar_threshold := Some 100, ar_fail_on := ''event''\<rparr>"

lemma gate_args_detector: "create_detector (ar_backend gate_args) (normal_config gate_args 7) = Inr (Core idle_core)"
  by (simp add: gate_args_def example_args_def normal_config_def resolved_threshold_def create_detector_def idle_core_def)

lemma kernel_to_exit_status_witness:
  "\<exists>p r' x'. pipeline_reachable (\<lambda>_ _. []) (normal_padding_ns gate_args)
      (normal_pipeline gate_args 7 7 False (fst (rp_start example_clock (normal_reporter gate_args 7 [JsonStream (JsonStreamSink 500)] 0 ''id'')))) p \<and>
    (\<exists>d'. on_exit_normal example_clock 0 (Core d') ''clean'' (pl_reporter p) = (r', x')) \<and>
    after_session gate_args (Some 0) (Some r') = Some (SystemExit 3)"
proof -
  obtain command out status d' x where r:
    "build_command example_fs ''blocksnoop-ebpf'' (reset_session idle_core) = (example_core, Inr command)"
    "sidecar_main plain_getopt ready_env ready_libbpf example_polls command = (out, status)"
    "read_lines silent_callbacks (map (line_of no_floats) out) example_core = (d', x)"
    "cd_delivered d' = [event_of_times example_core (10, 200000010)]"
    by (rule example_run_delivers)
  obtain r0 x0 where r0: "rp_start example_clock (normal_reporter gate_args 7 [JsonStream (JsonStreamSink 500)] 0 ''id'') = (r0, x0)"
    by force
  have "0 < rb_size (as_ring_buffer (normal_sampler gate_args 7))"
    by (simp add: normal_sampler_def AustinSampler_def StackRingBuffer_def)
  from deliverable [OF this example_event_bare] obtain p where
    p: "pipeline_reachable (\<lambda>_ _. []) (normal_padding_ns gate_args) (normal_pipeline gate_args 7 7 False r0) p"
    "pl_arrived p = [event_of_times example_core (10, 200000010)]" "pl_thread p = Waiting"
    unfolding normal_pipeline_def by blast
  obtain r' x' where e: "on_exit_normal example_clock 0 (Core d') ''clean'' (pl_reporter p) = (r', x')"
    by force
  have "pl_arrived p = cd_delivered d'"
    using p(2) r(4) by simp
  from kernel_to_exit_status [OF gate_args_detector r(1) example_session refl r(2,3) r0 p(1) this p(3) e refl refl]
  have "after_session gate_args (Some 0) (Some r') = Some (SystemExit 3)"
    unfolding example_long by (simp add: gate_args_def)
  then show ?thesis
    using p(1) e r0 by (intro exI [of _ p] exI [of _ r'] exI [of _ x']) auto
qed

section \<open>From the words of the command line to the exit status\<close>

text \<open>C1: The whole program on one line. Somebody types \<open>blocksnoop OPTIONS -- PROGRAM ARGUMENTS\<close>, for any
  settings of a normal session on the Core backend. The environment is fine, the program is launched
  as \<open>pid\<close>, nothing of the kernel's record of its event loop is lost, and the program exits with 0.
  Then the words are taken for this session, the session ends as \<open>clean\<close>, and blocksnoop ends with status 3
  exactly when the policy that was typed is violated by the phases of the target that lasted longer
  than the threshold that was typed, or by a loss in the ledger of the detector, and otherwise with
  success.\<close>

theorem typed_session_exit:
  assumes "expressible ft to_float ns" and "py_int 10 program = None"
    and "args = cli_args.truncate (ns\<lparr>ar_target := Some program, ar_command := arguments\<rparr>)" and "\<not> ar_stats args"
    and "validate_environment (mw_env mw) False (ar_backend args) = None"
    and "mw_popen mw (program # (if arguments \<noteq> [] \<and> hd arguments = ''--'' then tl arguments else arguments))
      (if ar_json_mode ns then ToStderr else Inherited) = Inr (pid, proc)" and "build_sinks (mw_open_log mw) args = Inr sinks"
    and "run_normal ((mw_session mw (Some proc))\<lparr>sw_child := Some proc\<rparr>) = Returned (Some 0) tr"
    and "create_detector (ar_backend args) (normal_config args pid) = Inr (Core d)"
    and "lossless_run fs d d1 hits d'" and "long = long_phases d1 hits"
    and "rp_start clk0 (normal_reporter args pid sinks now uuid) = (r0, x0)"
    and "pipeline_reachable getline (normal_padding_ns args) (normal_pipeline args pid tid grp r0) p"
    and "pl_arrived p = cd_delivered d'" and "pl_thread p = Waiting"
    and "on_exit_normal clk t0 (Core d') ''clean'' (pl_reporter p) = (mw_reporter mw sinks pid, x')"
    and "slow = filter (\<lambda>ph. ar_error_threshold ns \<le> py_round 3 (duration_ms (event_of_times d1 ph))) long"
    and "lost = sum_list (dict_values (cd_loss_counts d'))"
  shows "blocksnoop to_float env mw (setting_words ft ns @ ''--'' # program # arguments) =
      ([], MainEnds
        (if ar_fail_on ns = ''event'' \<and> long \<noteq> [] \<or> ar_fail_on ns = ''error'' \<and> slow \<noteq> [] \<or>
            ar_fail_on_loss ns \<and> lost \<noteq> 0 then Some (SystemExit 3) else None)
        (Some tr)) \<and>
    OnExit ''clean'' \<in> set tr"
proof -
  have fields: "ar_error_threshold args = ar_error_threshold ns" "ar_fail_on args = ar_fail_on ns"
    "ar_fail_on_loss args = ar_fail_on_loss ns"
    by (simp_all add: assms(3) cli_args.defs)
  have words: "blocksnoop to_float env mw (setting_words ft ns @ ''--'' # program # arguments) = ([], main mw args)"
    and "resolve_target args =
      (None, program # (if arguments \<noteq> [] \<and> hd arguments = ''--'' then tl arguments else arguments))"
    using words_launch [OF assms(1,3)] assms(2) by (simp_all add: Let_def)
  moreover have "child_stdout args = (if ar_json_mode ns then ToStderr else Inherited)"
    by (simp add: child_stdout_def assms(3) cli_args.defs)
  ultimately have "main mw args = end_session args (Some (mw_reporter mw sinks pid)) (Returned (Some 0) tr)"
    using assms(4-9) by (simp add: main_def run_session_def)
  moreover have "OnExit ''clean'' \<in> set tr"
    using returned_possible [OF assms(8) [unfolded run_normal_def]] by auto
  ultimately show ?thesis
    using session_verdict [OF assms(9-16) _ assms(18)] words by (simp add: end_session_def fields assms(17))
qed

definition gate_namespace :: cli_namespace where
  "gate_namespace = main_defaults\<lparr>ar_json_mode := True, ar_fail_on := ''event''\<rparr>"

definition typed_args :: cli_args where
  "typed_args = cli_args.truncate (gate_namespace\<lparr>ar_target := Some ''app'', ar_command := []\<rparr>)"

lemma typed_args_fields:
  "\<not> ar_stats typed_args" "ar_backend typed_args = ''core''"
  "build_sinks open_log typed_args = Inr [JsonStream (JsonStreamSink 500)]"
  "create_detector (ar_backend typed_args) (normal_config typed_args 7) = Inr (Core idle_core)"
  by (simp_all add: typed_args_def gate_namespace_def main_defaults_def cli_args.defs build_sinks_def normal_config_def
      resolved_threshold_def create_detector_def idle_core_def)

lemma gate_namespace_expressible: "expressible example_ft example_float gate_namespace"
  using main_defaults_expressible by (simp add: expressible_def gate_namespace_def FAIL_ON_CHOICES_def)

lemma child_run_normal:
  "\<exists>tr. run_normal ((child_world 0)\<lparr>sw_child := Some example_child\<rparr>) = Returned (Some 0) tr"
  by (simp add: run_normal_def session_script_def child_world_def normal_start_parts_def normal_stop_parts_def loop_eval)

lemma typed_session_exit_witness:
  "\<exists>mw tr. blocksnoop example_float doctor_host mw
      (setting_words example_ft gate_namespace @ [''--'', ''app'']) = ([], MainEnds (Some (SystemExit 3)) (Some tr))"
proof -
  let ?sinks = "[JsonStream (JsonStreamSink 500)]"
  obtain d' where run: "lossless_run example_fs idle_core example_core slow_hits d'"
    by (rule example_lossless)
  have phases: "long_phases example_core slow_hits = [(10, 200000010)]"
    unfolding long_phases_def by (rule example_long)
  obtain r0 x0 where r0: "rp_start example_clock (normal_reporter typed_args 7 ?sinks 0 ''id'') = (r0, x0)"
    by force
  have "0 < rb_size (as_ring_buffer (normal_sampler typed_args 7))"
    by (simp add: normal_sampler_def AustinSampler_def StackRingBuffer_def)
  from deliverable [OF this example_event_bare] obtain p where
    p: "pipeline_reachable (\<lambda>_ _. []) (normal_padding_ns typed_args) (normal_pipeline typed_args 7 7 False r0) p"
    "pl_arrived p = [event_of_times example_core (10, 200000010)]" "pl_thread p = Waiting"
    unfolding normal_pipeline_def by blast
  obtain r' x' where e: "on_exit_normal example_clock 0 (Core d') ''clean'' (pl_reporter p) = (r', x')"
    by force
  obtain tr where tr: "run_normal ((child_world 0)\<lparr>sw_child := Some example_child\<rparr>) = Returned (Some 0) tr"
    using child_run_normal by blast
  define mw where "mw = (example_main 0)\<lparr>mw_popen := (\<lambda>_ _. Inr (7, example_child)), mw_reporter := (\<lambda>_ _. r')\<rparr>"
  have mw: "validate_environment (mw_env mw) False (ar_backend typed_args) = None" "mw_popen mw (''app'' # (if [] \<noteq> [] \<and> hd [] = ''--'' then tl [] else []))
      (if ar_json_mode gate_namespace then ToStderr else Inherited) = Inr (7, example_child)"
    "run_normal ((mw_session mw (Some example_child))\<lparr>sw_child := Some example_child\<rparr>) = Returned (Some 0) tr"
    "on_exit_normal example_clock 0 (Core d') ''clean'' (pl_reporter p) = (mw_reporter mw ?sinks 7, x')"
    using e tr by (simp_all add: mw_def example_main_def root_env_ok typed_args_fields)
  have "py_int 10 ''app'' = None"
    by code_simp
  moreover have "pl_arrived p = cd_delivered d'"
    using p(2) lossless_delivers [OF run] by (simp add: phases)
  ultimately have "blocksnoop example_float doctor_host mw (setting_words example_ft gate_namespace @ ''--'' # ''app'' # []) =
      ([], MainEnds (Some (SystemExit 3)) (Some tr))"
    using typed_session_exit [OF gate_namespace_expressible _ typed_args_def typed_args_fields(1) mw(1,2) typed_args_fields(3)
        mw(3) typed_args_fields(4) run phases [symmetric] r0 p(1) _ p(3) mw(4) refl refl, of doctor_host]
    by (simp add: gate_namespace_def)
  then show ?thesis
    by blast
qed

section \<open>From the kernel to the statistics\<close>

text \<open>What \<open>_run_stats\<close> constructs for a target.\<close>

definition stats_config :: "cli_args \<Rightarrow> int \<Rightarrow> detector_config" where
  "stats_config args pid = DetectorConfig pid (resolved_threshold args) (ar_tid args) 200"

definition stats_parts :: "cli_args \<Rightarrow> int \<Rightarrow> detector result \<times> stats_collector" where
  "stats_parts args pid =
     (create_detector (ar_backend args) (stats_config args pid), StatsCollector pid (ar_json_mode args))"

text \<open>C9: From the kernel to the last statistics record. In the stats mode with \<open>--json\<close>, when the session of the
  Core backend loses nothing, then however the threads of the collector interleave: if the reader has
  delivered what it read and has ended before the stop prints (it is given two seconds for that), then
  once the session has stopped the last record written, whenever one looks, is that of exactly the
  phases of the target thread that last longer than the threshold: their count, and the statistics of
  their sorted durations.\<close>

theorem kernel_to_statistics:
  assumes "stats_parts args pid = (Inr (Core d), c)" and "ar_json_mode args"
    and "build_command fs sidecar (reset_session d) = (d1, Inr command)" and "target_representable d1"
    and "getopt_ok getopt" and "serviceable env lb (target_config d1) sidecar"
    and "list_all (\<lambda>p. \<not> snd p) polls" and "harmless cb"
    and "sorted (map snd (target_times (params_of (target_config d1)) hits))"
    and "c_samples (poll_records polls) = submitted (run_core (target_config d1) hits)"
    and "long = filter (\<lambda>ph. expected_threshold_ns d1 < int (snd ph) - int (fst ph)) (target_phases d1 hits)"
    and "sidecar_main getopt env lb polls command = (out, status)"
    and "read_lines cb (map (line_of ft) out) d1 = (d', x)"
    and "session_reachable (stats_session_start t0 c) s" and "sn_arrived s = cd_delivered d'" and "length long \<le> 2 ^ 53"
    and "sn_deliverer s = DeliveryEnded" and "sn_stopper s \<noteq> Stopped"
    and "session_reachable s s'" and "sn_stopper s' = Stopped"
  shows "\<exists>now. last (st_stream (sn_collector s')) = JsonLine (stats_json pid (fsub now t0)
    (sort (map (\<lambda>ph. int_truediv (int (snd ph) - int (fst ph)) 1000000) long)))"
proof -
  have c: "c = StatsCollector pid True" and none: "cd_delivered d = []"
    using assms(1,2) by (auto simp: stats_parts_def create_detector_def CoreDetector_def split: if_splits)
  have arrived: "sn_arrived s = map (event_of_times d1) long"
    using session_delivers [OF assms(3-10,12,13)] assms(11,15) none by simp
  have len: "length (sn_arrived s) \<le> 2 ^ 53"
    using assms(16) by (simp add: arrived)
  note stop = stop_covers_all [OF assms(19) session_reachable_inv [OF assms(14) [unfolded c] len] len assms(17,18,20)]
  then have "last (st_stream (sn_collector s')) = JsonLine (stats_json pid (fsub (fst (last (sn_prints s'))) t0)
      (durations_of (sn_arrived s)))"
    by (simp add: session_inv_def frames_of_def last_map split_beta)
  then show ?thesis
    by (intro exI [of _ "fst (last (sn_prints s'))"])
      (simp add: arrived durations_of_def duration_ms_def event_of_times_def comp_def)
qed

definition stats_args :: cli_args where
  "stats_args = example_args\<lparr>ar_threshold := Some 100\<rparr>"

lemma stats_args_parts: "stats_parts stats_args 7 = (Inr (Core idle_core), StatsCollector 7 True)"
  by (simp add: stats_parts_def stats_config_def stats_args_def example_args_def resolved_threshold_def
      create_detector_def idle_core_def)

lemma kernel_to_statistics_witness:
  "\<exists>s now. session_reachable (stats_session_start 3 (StatsCollector 7 True)) s \<and> sn_stopper s = Stopped \<and>
     last (st_stream (sn_collector s)) = JsonLine (stats_json 7 (fsub now 3) [200])"
proof -
  obtain command out status d' x where r:
    "build_command example_fs ''blocksnoop-ebpf'' (reset_session idle_core) = (example_core, Inr command)"
    "sidecar_main plain_getopt ready_env ready_libbpf example_polls command = (out, status)"
    "read_lines silent_callbacks (map (line_of no_floats) out) example_core = (d', x)"
    "cd_delivered d' = [event_of_times example_core (10, 200000010)]"
    by (rule example_run_delivers)
  obtain l where l: "session_reachable (stats_session_start 3 (StatsCollector 7 True)) l" "sn_stopper l \<noteq> Stopped"
    "sn_deliverer l = DeliveryEnded" "sn_arrived l = cd_delivered d'"
    using ended_session by blast
  have len: "length (sn_arrived l) \<le> 2 ^ 53"
    by (simp add: l(4) r(4))
  obtain s where s: "session_reachable l s" "sn_stopper s = Stopped"
    using stop_completes [OF session_reachable_inv [OF l(1) len] len] by blast
  have "int_truediv 200000000 1000000 = 200"
    using fl_of_int [of 200] by (simp add: int_truediv_def)
  moreover have "ar_json_mode stats_args"
    by (simp add: stats_args_def example_args_def)
  note kernel_to_statistics [OF stats_args_parts this r(1) example_session refl r(2,3) l(1,4) _ l(3,2) s, unfolded example_long]
  ultimately show ?thesis
    using session_reachable_trans [OF s(1) l(1)] s(2) by (intro exI [of _ s]) simp
qed

end
